(* ===== verification/Kernel_Prelude.thy ===== *)
theory Kernel_Prelude
  imports Main "HOL-Library.Word"
begin

text \<open>
  Shared ground of the SemperOS development: the C++ integer types of
  \<^verbatim>\<open>src/src/include/base/Types.h\<close> as words, the error codes of
  \<^verbatim>\<open>src/src/include/base/Errors.h\<close>, the ways in which kernel code stops
  (\<^verbatim>\<open>PANIC\<close>, a failed \<^verbatim>\<open>assert\<close>, a null dereference) as values of a sum type, the
  searches over the singly linked lists that most kernel components keep, and
  the interface of a keyed store as a locale.
\<close>

section \<open>Types\<close>

type_synonym u8 = "8 word"
type_synonym u16 = "16 word"
type_synonym u32 = "32 word"
type_synonym u64 = "64 word"

text \<open>On the 64 bit target \<^verbatim>\<open>size_t\<close>, \<^verbatim>\<open>uintptr_t\<close>, \<^verbatim>\<open>word_t\<close> and \<^verbatim>\<open>label_t\<close> have 64 bits,
  \<^verbatim>\<open>capsel_t\<close> and \<^verbatim>\<open>uint\<close> have 32.\<close>

type_synonym capsel_t = u32
type_synonym mht_key_t = u64
type_synonym pe_id_t = u16
type_synonym krnl_id_t = u16
type_synonym vpe_id_t = u16

datatype code =
    NO_ERROR | MISS_CREDITS | NO_RING_SPACE | VPE_GONE | NO_MAPPING
  | INV_ARGS | OUT_OF_MEM | NO_SUCH_FILE | NO_PERM | NOT_SUP | NO_FREE_CORE
  | INVALID_ELF | NO_SPACE | EXISTS | XFS_LINK | DIR_NOT_EMPTY | IS_DIR | IS_NO_DIR
  | EP_INVALID | RECV_GONE | END_OF_FILE | MSGS_WAITING | XFS_RENAME

text \<open>How a kernel routine stops without returning.\<close>

datatype fault =
    Panic           \<comment> \<open>\<^verbatim>\<open>PANIC(...)\<close>\<close>
  | Assert_failed   \<comment> \<open>a failed \<^verbatim>\<open>assert(...)\<close>\<close>
  | Null_deref      \<comment> \<open>a member access through a null pointer\<close>
  | Out_of_bounds   \<comment> \<open>an array access past the end\<close>
  | Use_after_free  \<comment> \<open>a freed object is freed again or stays reachable\<close>
  | Shutdown        \<comment> \<open>\<^verbatim>\<open>Machine::shutdown()\<close>\<close>
  | Unreachable     \<comment> \<open>\<^verbatim>\<open>__builtin_unreachable()\<close> is reached\<close>
  | Out_of_fuel     \<comment> \<open>the recursion bound of the model is used up\<close>

type_synonym 'a result = "fault + 'a"

definition rbind :: "'a result \<Rightarrow> ('a \<Rightarrow> 'b result) \<Rightarrow> 'b result" where
  "rbind m f = (case m of Inl e \<Rightarrow> Inl e | Inr x \<Rightarrow> f x)"

lemma rbind_simps [simp]:
  "rbind (Inr x) f = f x"
  "rbind (Inl e) f = Inl e"
  by (simp_all add: rbind_def)

lemma rbind_eq_Inr [simp]: "rbind m f = Inr y \<longleftrightarrow> (\<exists>x. m = Inr x \<and> f x = Inr y)"
  by (auto simp: rbind_def split: sum.splits)

lemma rbind_cong [fundef_cong]:
  "m = m' \<Longrightarrow> (\<And>x. m' = Inr x \<Longrightarrow> f x = f' x) \<Longrightarrow> rbind m f = rbind m' f'"
  by (auto simp: rbind_def split: sum.splits)

section \<open>Collections of proof rules\<close>

named_theorems unat_rules \<open>word operations as operations on natural numbers\<close>
named_theorems cap_simps \<open>lookups in capability tables after an update\<close>

lemma unat_plus_nowrap [unat_rules]:
  fixes a b :: "'a::len word"
  shows "unat a + unat b < 2 ^ LENGTH('a) \<Longrightarrow> unat (a + b) = unat a + unat b"
  using unat_add_lem by blast

lemma unat_minus_nowrap [unat_rules]:
  fixes a b :: "'a::len word"
  shows "unat b \<le> unat a \<Longrightarrow> unat (a - b) = unat a - unat b"
  by (simp add: unat_sub word_le_nat_alt)

lemma unat_bound: "unat (a :: 'a::len word) < 2 ^ LENGTH('a)"
  by simp

lemma unat_pow2 [unat_rules]: "n < LENGTH('a) \<Longrightarrow> unat (2 ^ n :: 'a::len word) = 2 ^ n"
proof -
  assume "n < LENGTH('a)"
  then have "(2::nat) ^ n < 2 ^ LENGTH('a)" by simp
  then have "unat (word_of_nat (2 ^ n) :: 'a word) = 2 ^ n"
    by (simp only: unsigned_of_nat take_bit_nat_eq_self of_nat_id)
  then show ?thesis by simp
qed

lemma unat_minus_one: "unat (-1 :: 'a::len word) = 2 ^ LENGTH('a) - 1"
  by (simp add: unsigned_minus_1_eq_mask mask_eq_exp_minus_1)

lemma intervals_apart:
  fixes a b c d :: nat
  assumes "{a..<b} \<inter> {c..<d} = {}" and "a < b" and "c < d"
  shows "d \<le> a \<or> b \<le> c"
proof (rule ccontr)
  assume "\<not> (d \<le> a \<or> b \<le> c)"
  then have "max a c \<in> {a..<b} \<inter> {c..<d}" using assms(2,3) by auto
  then show False using assms(1) by blast
qed

lemma word_add_wraps_iff:
  fixes a b :: "'a::len word"
  shows "a + b < a \<longleftrightarrow> 2 ^ LENGTH('a) \<le> unat a + unat b"
proof -
  have b: "unat a < 2 ^ LENGTH('a)" "unat b < 2 ^ LENGTH('a)" by (rule unat_bound)+
  have "unat a + unat b - N < unat a" if "\<not> unat a + unat b < N" "unat b < N" for N :: nat
    using that by linarith
  then show ?thesis
    unfolding word_less_nat_alt unat_plus_if_size using b by (auto simp: word_size)
qed

section \<open>Linear searches\<close>

text \<open>
  The loops \<^verbatim>\<open>for(auto it = list.begin(); it != list.end(); it++) if(...) { ...; return; }\<close>
  over an \<^verbatim>\<open>m3::SList\<close> act on the first item that satisfies a condition:
  \<^const>\<open>List.find\<close> returns it, \<open>update_first\<close> changes it in place, \<open>remove_first\<close> unlinks it.
\<close>

fun update_first :: "('a \<Rightarrow> bool) \<Rightarrow> ('a \<Rightarrow> 'a) \<Rightarrow> 'a list \<Rightarrow> 'a list" where
  "update_first P f [] = []"
| "update_first P f (x # xs) = (if P x then f x # xs else x # update_first P f xs)"

fun remove_first :: "('a \<Rightarrow> bool) \<Rightarrow> 'a list \<Rightarrow> 'a list" where
  "remove_first P [] = []"
| "remove_first P (x # xs) = (if P x then xs else x # remove_first P xs)"

lemma length_update_first [simp]: "length (update_first P f xs) = length xs"
  by (induction xs) auto

lemma map_update_first:
  "(\<And>x. P x \<Longrightarrow> g (f x) = g x) \<Longrightarrow> map g (update_first P f xs) = map g xs"
  by (induction xs) auto

lemma find_append:
  "List.find P (xs @ ys) = (case List.find P xs of None \<Rightarrow> List.find P ys | Some x \<Rightarrow> Some x)"
  by (induction xs) auto

lemma find_key_None: "List.find (\<lambda>x. g x = k) xs = None \<longleftrightarrow> k \<notin> g ` set xs"
  by (auto simp: find_None_iff)

lemma find_Some_memD: "List.find P xs = Some x \<Longrightarrow> x \<in> set xs \<and> P x"
  by (induction xs) (auto split: if_splits)

lemma find_key_update_first:
  assumes "\<And>x. g x = k \<Longrightarrow> g (f x) = k"
  shows "List.find (\<lambda>x. g x = k') (update_first (\<lambda>x. g x = k) f xs) =
    (if k' = k then map_option f (List.find (\<lambda>x. g x = k) xs) else List.find (\<lambda>x. g x = k') xs)"
  by (induction xs) (auto simp: assms)

lemma set_update_first: "set (update_first P f xs) \<subseteq> set xs \<union> f ` set xs"
  by (induction xs) auto

lemma set_remove_first_subset: "set (remove_first P xs) \<subseteq> set xs"
  by (induction xs) auto

lemma distinct_map_remove_first: "distinct (map g xs) \<Longrightarrow> distinct (map g (remove_first P xs))"
  by (induction xs) (use set_remove_first_subset in fastforce)+

lemma find_key_remove_first:
  "distinct (map g xs) \<Longrightarrow> List.find (\<lambda>x. g x = k') (remove_first (\<lambda>x. g x = k) xs) =
    (if k' = k then None else List.find (\<lambda>x. g x = k') xs)"
  by (induction xs) (auto simp: find_None_iff image_iff)

lemma remove_first_append_new:
  "\<forall>x\<in>set xs. \<not> P x \<Longrightarrow> P y \<Longrightarrow> remove_first P (xs @ [y]) = xs"
  by (induction xs) auto

lemma remove_first_id: "\<forall>x\<in>set xs. \<not> P x \<Longrightarrow> remove_first P xs = xs"
  by (induction xs) auto

section \<open>The interface of a keyed store\<close>

text \<open>
  What the kernel relies on when it files objects under a key: a new key can be
  inserted, a present key can be deleted, and neither touches any other key.
  The capability tree (\<^verbatim>\<open>m3::Treap\<close>) and the key-value store
  (\<^verbatim>\<open>kernel::KVStore\<close>) are interpretations.
\<close>

locale keyed_store =
  fixes lookup :: "'s \<Rightarrow> 'k \<Rightarrow> 'v option"
    and ins :: "'k \<Rightarrow> 'v \<Rightarrow> 's \<Rightarrow> 's"
    and del :: "'k \<Rightarrow> 's \<Rightarrow> 's"
    and invar :: "'s \<Rightarrow> bool"
  assumes lookup_ins: "invar s \<Longrightarrow> lookup s k = None \<Longrightarrow> lookup (ins k v s) = (lookup s)(k \<mapsto> v)"
    and lookup_del: "invar s \<Longrightarrow> lookup s k = Some v \<Longrightarrow> lookup (del k s) = (lookup s)(k := None)"
    and invar_ins: "invar s \<Longrightarrow> lookup s k = None \<Longrightarrow> invar (ins k v s)"
    and invar_del: "invar s \<Longrightarrow> lookup s k = Some v \<Longrightarrow> invar (del k s)"
begin

lemma lookup_ins_same: "invar s \<Longrightarrow> lookup s k = None \<Longrightarrow> lookup (ins k v s) k = Some v"
  by (simp add: lookup_ins)

lemma lookup_ins_other:
  "invar s \<Longrightarrow> lookup s k = None \<Longrightarrow> k' \<noteq> k \<Longrightarrow> lookup (ins k v s) k' = lookup s k'"
  by (simp add: lookup_ins)

lemma del_ins_roundtrip:
  assumes "invar s" and "lookup s k = None"
  shows "lookup (del k (ins k v s)) = lookup s"
proof -
  have "lookup (del k (ins k v s)) = (lookup (ins k v s))(k := None)"
    using assms by (intro lookup_del [where v = v] invar_ins lookup_ins_same)
  then show ?thesis using assms by (simp add: lookup_ins fun_upd_idem)
qed

lemma dom_ins: "invar s \<Longrightarrow> lookup s k = None \<Longrightarrow> dom (lookup (ins k v s)) = insert k (dom (lookup s))"
  by (simp add: lookup_ins)

lemma dom_del: "invar s \<Longrightarrow> lookup s k = Some v \<Longrightarrow> dom (lookup (del k s)) = dom (lookup s) - {k}"
  by (simp add: lookup_del)

end

text \<open>A store whose insertion overwrites a present key.\<close>

locale overwriting_store = keyed_store +
  assumes lookup_put: "invar s \<Longrightarrow> lookup (ins k v s) = (lookup s)(k \<mapsto> v)"
    and invar_put: "invar s \<Longrightarrow> invar (ins k v s)"
begin

lemma put_put: "invar s \<Longrightarrow> lookup (ins k v (ins k w s)) = lookup (ins k v s)"
  by (simp add: lookup_put invar_put)

lemma del_put: "invar s \<Longrightarrow> lookup (del k (ins k v s)) = (lookup s)(k := None)"
  using lookup_del [of "ins k v s" k v] by (simp add: lookup_put invar_put)

end

section \<open>The interface of a region allocator\<close>

text \<open>
  What the kernel relies on when it hands out physical memory. A region is a start address
  with a length; the allocator owns a set of free byte addresses. A failed allocation
  returns \<^verbatim>\<open>-1\<close> and changes nothing.
\<close>

type_synonym region = "u64 \<times> u64"

fun region_bytes :: "region \<Rightarrow> nat set" where
  "region_bytes (addr, len) = {unat addr ..< unat addr + unat len}"

text \<open>A client session: what the allocator holds after a sequence of allocations and releases,
  together with the regions the client currently holds.\<close>

inductive alloc_session ::
  "(u64 \<Rightarrow> 's \<Rightarrow> u64 \<times> 's) \<Rightarrow> (u64 \<Rightarrow> u64 \<Rightarrow> 's \<Rightarrow> 's) \<Rightarrow> 's \<Rightarrow> 's \<Rightarrow> region list \<Rightarrow> bool"
  for alloc :: "u64 \<Rightarrow> 's \<Rightarrow> u64 \<times> 's" and release :: "u64 \<Rightarrow> u64 \<Rightarrow> 's \<Rightarrow> 's" and s0 :: 's
where
  session_start: "alloc_session alloc release s0 s0 []"
| session_alloc: "alloc_session alloc release s0 s held \<Longrightarrow> 0 < len \<Longrightarrow> alloc len s = (addr, s') \<Longrightarrow>
    addr \<noteq> -1 \<Longrightarrow> alloc_session alloc release s0 s' ((addr, len) # held)"
| session_fail: "alloc_session alloc release s0 s held \<Longrightarrow> 0 < len \<Longrightarrow> alloc len s = (-1, s') \<Longrightarrow>
    alloc_session alloc release s0 s' held"
| session_release: "alloc_session alloc release s0 s (h1 @ (addr, len) # h2) \<Longrightarrow>
    alloc_session alloc release s0 (release addr len s) (h1 @ h2)"

text \<open>The regions a client holds are non-empty, end inside the address space and are pairwise disjoint.\<close>

definition disjoint_regions :: "region list \<Rightarrow> bool" where
  "disjoint_regions held \<longleftrightarrow>
     (\<forall>(addr, len)\<in>set held. 0 < len \<and> unat addr + unat len < 2 ^ 64) \<and>
     sorted_wrt (\<lambda>r q. region_bytes r \<inter> region_bytes q = {}) held"

definition held_bytes :: "region list \<Rightarrow> nat set" where
  "held_bytes held = (\<Union>r\<in>set held. region_bytes r)"

lemma held_bytes_simps [simp]:
  "held_bytes [] = {}" "held_bytes (r # held) = region_bytes r \<union> held_bytes held"
  "held_bytes (h1 @ h2) = held_bytes h1 \<union> held_bytes h2"
  by (auto simp: held_bytes_def)

lemma disjoint_regions_Cons:
  "disjoint_regions ((addr, len) # held) \<longleftrightarrow>
     0 < len \<and> unat addr + unat len < 2 ^ 64 \<and> region_bytes (addr, len) \<inter> held_bytes held = {} \<and>
     disjoint_regions held"
  by (auto simp: disjoint_regions_def held_bytes_def)

lemma disjoint_regions_remove:
  "disjoint_regions (h1 @ r # h2) \<Longrightarrow>
     disjoint_regions (h1 @ h2) \<and> region_bytes r \<inter> held_bytes (h1 @ h2) = {}"
  by (auto simp: disjoint_regions_def held_bytes_def sorted_wrt_append)

lemma disjoint_regions_member:
  "disjoint_regions held \<Longrightarrow> (addr, len) \<in> set held \<Longrightarrow> 0 < len \<and> unat addr + unat len < 2 ^ 64"
  by (auto simp: disjoint_regions_def)

locale region_allocator =
  fixes alloc :: "u64 \<Rightarrow> 's \<Rightarrow> u64 \<times> 's"
    and release :: "u64 \<Rightarrow> u64 \<Rightarrow> 's \<Rightarrow> 's"
    and free_bytes :: "'s \<Rightarrow> nat set"
    and invar :: "'s \<Rightarrow> bool"
  assumes alloc_fail: "invar s \<Longrightarrow> 0 < len \<Longrightarrow> alloc len s = (-1, s') \<Longrightarrow> s' = s"
    and alloc_ok: "invar s \<Longrightarrow> 0 < len \<Longrightarrow> alloc len s = (addr, s') \<Longrightarrow> addr \<noteq> -1 \<Longrightarrow>
      invar s' \<and> unat addr + unat len < 2 ^ 64 \<and> region_bytes (addr, len) \<subseteq> free_bytes s \<and>
      free_bytes s' = free_bytes s - region_bytes (addr, len)"
    and release_ok: "invar s \<Longrightarrow> 0 < len \<Longrightarrow> unat addr + unat len < 2 ^ 64 \<Longrightarrow>
      region_bytes (addr, len) \<inter> free_bytes s = {} \<Longrightarrow>
      invar (release addr len s) \<and> free_bytes (release addr len s) = free_bytes s \<union> region_bytes (addr, len)"
begin

lemma release_alloc:
  assumes "invar s" "0 < len" "alloc len s = (addr, s')" "addr \<noteq> -1"
  shows "invar (release addr len s') \<and> free_bytes (release addr len s') = free_bytes s"
proof -
  have "invar s' \<and> unat addr + unat len < 2 ^ 64 \<and> region_bytes (addr, len) \<subseteq> free_bytes s \<and>
      free_bytes s' = free_bytes s - region_bytes (addr, len)"
    using assms by (rule alloc_ok)
  then show ?thesis using release_ok [of s' len addr] assms(2) by auto
qed

lemma session_partition:
  assumes "alloc_session alloc release s0 s held" and "invar s0"
  shows "invar s \<and> disjoint_regions held \<and> free_bytes s \<inter> held_bytes held = {} \<and>
    free_bytes s \<union> held_bytes held = free_bytes s0"
  using assms
proof (induction rule: alloc_session.induct)
  case session_start
  then show ?case by (simp add: disjoint_regions_def)
next
  case (session_alloc s held len addr s')
  then have "invar s' \<and> unat addr + unat len < 2 ^ 64 \<and> region_bytes (addr, len) \<subseteq> free_bytes s \<and>
      free_bytes s' = free_bytes s - region_bytes (addr, len)"
    using alloc_ok by blast
  then show ?case using session_alloc by (auto simp: disjoint_regions_Cons)
next
  case (session_fail s held len s')
  then show ?case using alloc_fail by blast
next
  case (session_release s h1 addr len h2)
  then have pre: "0 < len" "unat addr + unat len < 2 ^ 64" "region_bytes (addr, len) \<inter> free_bytes s = {}"
    using disjoint_regions_member [of "h1 @ (addr, len) # h2" addr len] by auto
  have "disjoint_regions (h1 @ h2) \<and> region_bytes (addr, len) \<inter> held_bytes (h1 @ h2) = {}"
    using session_release by (intro disjoint_regions_remove) blast
  then show ?case using session_release release_ok [of s len addr] pre by auto
qed

end

end
