(* ===== verification/Base_Math.thy ===== *)
theory Base_Math
  imports Kernel_Prelude
begin

unbundle bit_operations_syntax

text \<open>
  The arithmetic helpers of \<^verbatim>\<open>src/src/include/base/util\<close>: alignment and overlap of
  address ranges (\<^verbatim>\<open>Math.h\<close>), the logarithm that sizes receive buffers and slabs
  (\<^verbatim>\<open>Util.h\<close>) and the linear congruential generator behind the lock handles of the
  distributed data layer (\<^verbatim>\<open>Random.h\<close>).
\<close>

section \<open>\<^verbatim>\<open>m3::Math\<close>\<close>

definition overlap :: "u64 \<Rightarrow> u64 \<Rightarrow> u64 \<Rightarrow> u64 \<Rightarrow> bool" where
  "overlap start1 end1 start2 end2 \<longleftrightarrow>
     (start1 \<ge> start2 \<and> start1 < end2) \<or>
     (end1 > start2 \<and> end1 \<le> end2) \<or>
     (start1 < start2 \<and> end1 > end2)"

definition round_up :: "'a::len word \<Rightarrow> 'a word \<Rightarrow> 'a word" where
  "round_up v align = (v + align - 1) AND NOT (align - 1)"

definition round_dn :: "'a::len word \<Rightarrow> 'a word \<Rightarrow> 'a word" where
  "round_dn v align = v AND NOT (align - 1)"

definition is_aligned :: "u64 \<Rightarrow> u64 \<Rightarrow> bool" where
  "is_aligned ptr align \<longleftrightarrow> ptr AND (align - 1) = 0"

lemma overlap_iff_intersect:
  assumes "s1 < e1" and "s2 < e2"
  shows "overlap s1 e1 s2 e2 \<longleftrightarrow> (\<exists>x. s1 \<le> x \<and> x < e1 \<and> s2 \<le> x \<and> x < e2)"
proof
  assume "overlap s1 e1 s2 e2"
  then show "\<exists>x. s1 \<le> x \<and> x < e1 \<and> s2 \<le> x \<and> x < e2"
    using assms by (intro exI [of _ "max s1 s2"]) (auto simp: overlap_def max_def)
next
  assume "\<exists>x. s1 \<le> x \<and> x < e1 \<and> s2 \<le> x \<and> x < e2"
  then show "overlap s1 e1 s2 e2"
    by (auto simp: overlap_def not_less not_le)
qed

lemma and_not_mask_unat:
  fixes x :: "'a::len word"
  shows "unat (x AND NOT (mask n)) = unat x - unat x mod 2 ^ n"
proof -
  have t: "unat (take_bit n x) = unat x mod 2 ^ n"
    by (simp only: unsigned_take_bit_eq) (simp only: take_bit_eq_mod)
  have "x AND NOT (mask n) = push_bit n (drop_bit n x)"
    by (rule bit_eqI) (auto simp: bit_simps not_less)
  also have "\<dots> = x - take_bit n x"
    by (metis add_diff_cancel_right' bits_ident)
  also have "unat \<dots> = unat x - unat (take_bit n x)"
    by (rule unat_minus_nowrap) (simp only: t mod_less_eq_dividend)
  finally show ?thesis by (simp only: t)
qed

lemma round_dn_pow2: "unat (round_dn v (2 ^ n)) = unat v - unat v mod 2 ^ n"
  by (simp add: round_dn_def and_not_mask_unat flip: mask_eq_exp_minus_1)

lemma round_up_pow2:
  fixes v :: "'a::len word"
  assumes n: "n < LENGTH('a)" and "unat v + 2 ^ n \<le> 2 ^ LENGTH('a)"
  shows "unat (round_up v (2 ^ n)) = (unat v + (2 ^ n - 1)) div 2 ^ n * 2 ^ n"
proof -
  have m: "unat (mask n :: 'a word) = 2 ^ n - 1"
    using unat_minus_nowrap [of 1 "2 ^ n :: 'a word"] n by (simp add: unat_pow2 mask_eq_exp_minus_1)
  have "(0::nat) < 2 ^ n" by simp
  then have "unat v + (2 ^ n - 1) < 2 ^ LENGTH('a)" using assms(2) by linarith
  then have "unat (v + mask n) = unat v + (2 ^ n - 1)"
    using m by (simp add: unat_plus_nowrap)
  moreover have "round_up v (2 ^ n) = (v + mask n) AND NOT (mask n)"
    by (simp add: round_up_def mask_eq_exp_minus_1 algebra_simps)
  ultimately show ?thesis
    by (simp add: and_not_mask_unat minus_mod_eq_div_mult)
qed

lemma le_ceil_mult:
  fixes v b :: nat
  assumes "0 < b" shows "v \<le> (v + (b - 1)) div b * b"
  using div_mult_mod_eq [of "v + (b - 1)" b] mod_less_divisor [OF assms, of "v + (b - 1)"] by linarith

lemma ceil_mult_least:
  fixes v b m :: nat
  assumes "0 < b" and "b dvd m" and "v \<le> m"
  shows "(v + (b - 1)) div b * b \<le> m"
proof -
  obtain q where m: "m = q * b" using assms(2) by (metis dvd_def mult.commute)
  have "v + (b - 1) < (q + 1) * b" using assms m by simp
  then have "(v + (b - 1)) div b < q + 1" by (simp add: div_less_iff_less_mult assms(1))
  then have "(v + (b - 1)) div b \<le> q" by linarith
  then show ?thesis unfolding m by (rule mult_le_mono1)
qed

section \<open>\<^verbatim>\<open>m3::getnextlog2\<close>\<close>

fun getnextlog2_from :: "u64 \<Rightarrow> nat \<Rightarrow> nat" where
  "getnextlog2_from sz shift =
     (if sz > push_bit shift 1 then shift + 1
      else if shift = 0 then 0 else getnextlog2_from sz (shift - 1))"

declare getnextlog2_from.simps [simp del]

definition getnextlog2 :: "u64 \<Rightarrow> nat" where
  "getnextlog2 sz = getnextlog2_from sz 62"

lemma unat_push_bit_1: "shift < 64 \<Longrightarrow> unat (push_bit shift 1 :: u64) = 2 ^ shift"
  by (simp add: push_bit_eq_mult unat_pow2)

lemma getnextlog2_from_correct:
  assumes "shift \<le> 62" and "unat sz \<le> 2 ^ (shift + 1)"
  shows "unat sz \<le> 2 ^ getnextlog2_from sz shift \<and>
    (0 < getnextlog2_from sz shift \<longrightarrow> 2 ^ (getnextlog2_from sz shift - 1) < unat sz)"
  using assms
proof (induction sz shift rule: getnextlog2_from.induct)
  case (1 sz shift)
  have gt: "sz > push_bit shift 1 \<longleftrightarrow> 2 ^ shift < unat sz"
    using "1.prems"(1) by (simp only: word_less_nat_alt unat_push_bit_1)
  consider "2 ^ shift < unat sz" | "unat sz \<le> 2 ^ shift" "shift = 0"
    | "unat sz \<le> 2 ^ shift" "0 < shift" by linarith
  then show ?case
  proof cases
    case 3
    then have "getnextlog2_from sz shift = getnextlog2_from sz (shift - 1)"
      using gt by (simp add: getnextlog2_from.simps [of sz shift])
    then show ?thesis using 1 3 gt by simp
  qed (use gt "1.prems" in \<open>simp_all add: getnextlog2_from.simps [of sz shift]
      getnextlog2_from.simps [of sz 0]\<close>)
qed

section \<open>\<^verbatim>\<open>m3::Random\<close>\<close>

text \<open>The state is \<^verbatim>\<open>_last\<close>; \<^verbatim>\<open>_randa\<close> and \<^verbatim>\<open>_randc\<close> are the constants of \<^verbatim>\<open>Random.cc\<close>.\<close>

definition random_init :: "u32 \<Rightarrow> u32" where
  "random_init seed = seed"

definition random_next :: "u32 \<Rightarrow> u32" where
  "random_next seed0 = 1103515245 * seed0 + 12345"

definition random_get :: "u32 \<Rightarrow> u32 \<times> u32" where
  "random_get seed0 = (let l = random_next seed0 in ((l div 65536) mod 32768, l))"

lemma random_get_bound: "unat (fst (random_get seed0)) < 32768"
  by (simp add: random_get_def Let_def unat_mod)

text \<open>The generator iterated \<open>2 ^ k\<close> times is again affine; these are its coefficients.\<close>

fun lcg_coeffs :: "nat \<Rightarrow> nat \<times> nat" where
  "lcg_coeffs 0 = (1103515245, 12345)"
| "lcg_coeffs (Suc k) = (case lcg_coeffs k of (a, c) \<Rightarrow> (a * a mod 2 ^ 32, (a + 1) * c mod 2 ^ 32))"

lemma word_of_nat_mod32: "(word_of_nat (n mod 2 ^ 32) :: u32) = word_of_nat n"
  by (simp add: word_of_nat_eq_iff take_bit_eq_mod)

lemma random_next_pow2:
  "(random_next ^^ (2 ^ k)) x = word_of_nat (fst (lcg_coeffs k)) * x + word_of_nat (snd (lcg_coeffs k))"
proof (induction k arbitrary: x)
  case 0
  then show ?case by (simp add: random_next_def)
next
  case (Suc k)
  obtain a c where k: "lcg_coeffs k = (a, c)" by fastforce
  have "(random_next ^^ (2 ^ Suc k)) x = (random_next ^^ (2 ^ k)) ((random_next ^^ (2 ^ k)) x)"
    by (simp add: mult_2 funpow_add)
  also have "\<dots> = word_of_nat a * (word_of_nat a * x + word_of_nat c) + word_of_nat c"
    by (simp only: Suc.IH k fst_conv snd_conv)
  also have "\<dots> = word_of_nat (a * a) * x + word_of_nat ((a + 1) * c)"
    by (simp add: algebra_simps)
  finally show ?case by (simp only: lcg_coeffs.simps k prod.case fst_conv snd_conv word_of_nat_mod32)
qed

lemma lcg_coeffs_step:
  "lcg_coeffs k = (a, c) \<Longrightarrow> lcg_coeffs (Suc k) = (a * a mod 2 ^ 32, (a + 1) * c mod 2 ^ 32)"
  by simp

declare lcg_coeffs.simps [simp del]

lemma lcg_coeffs_16: "lcg_coeffs 16 = (3752067073, 556990464)"
proof -
  note s4 = lcg_coeffs.simps(1) [THEN lcg_coeffs_step, simplified, THEN lcg_coeffs_step, simplified,
      THEN lcg_coeffs_step, simplified, THEN lcg_coeffs_step, simplified]
  note s8 = s4 [THEN lcg_coeffs_step, simplified, THEN lcg_coeffs_step, simplified,
      THEN lcg_coeffs_step, simplified, THEN lcg_coeffs_step, simplified]
  note s12 = s8 [THEN lcg_coeffs_step, simplified, THEN lcg_coeffs_step, simplified,
      THEN lcg_coeffs_step, simplified, THEN lcg_coeffs_step, simplified]
  note s16 = s12 [THEN lcg_coeffs_step, simplified, THEN lcg_coeffs_step, simplified,
      THEN lcg_coeffs_step, simplified, THEN lcg_coeffs_step, simplified]
  have "16 = Suc (Suc (Suc (Suc (Suc (Suc (Suc (Suc (Suc (Suc (Suc (Suc (Suc (Suc (Suc (Suc 0)))))))))))))))" by simp
  then show ?thesis using s16 by (simp only:)
qed

lemma odd_div_flip:
  assumes "y mod 131072 = (x + 65536) mod (131072 :: nat)"
  shows "odd (y div 65536) \<longleftrightarrow> even (x div 65536)"
proof -
  have bit: "v mod 131072 div 65536 = v div 65536 mod 2" for v :: nat
    using mod_mult2_eq [of v 65536 2] by simp
  have "y div 65536 mod 2 = (x + 65536) div 65536 mod 2"
    using assms by (simp only: bit [symmetric])
  moreover have "(x + 65536) div 65536 = x div 65536 + 1"
    by (rule div_add_self2) simp
  moreover have "odd a \<longleftrightarrow> even b" if "a mod 2 = (b + 1) mod 2" for a b :: nat
    using that by presburger
  ultimately show ?thesis by metis
qed

lemma random_next_flips: "odd (unat ((random_next ^^ 65536) x) div 65536) \<longleftrightarrow> even (unat x div 65536)"
proof (rule odd_div_flip)
  define z :: u32 where "z = 28626 * x + 4249"
  have "(random_next ^^ 65536) x = 3752067073 * x + 556990464"
    using random_next_pow2 [of 16 x] lcg_coeffs_16 by simp
  also have "\<dots> = x + 65536 + 131072 * z"
    by (simp add: z_def algebra_simps)
  finally have eq: "(random_next ^^ 65536) x = x + 65536 + 131072 * z" .
  show "unat ((random_next ^^ 65536) x) mod 131072 = (unat x + 65536) mod 131072"
    unfolding eq by (simp add: unat_word_ariths mod_mod_cancel mod_simps) 
qed

text \<open>So the generator cannot return zero forever.\<close>

lemma random_get_not_0: "odd (unat (random_next s) div 65536) \<Longrightarrow> fst (random_get s) \<noteq> 0"
proof -
  assume o: "odd (unat (random_next s) div 65536)"
  have "unat (fst (random_get s)) = unat (random_next s) div 65536 mod 32768"
    by (simp add: random_get_def Let_def unat_mod unat_div)
  moreover have "odd (unat (random_next s) div 65536 mod 32768)" using o by (subst dvd_mod_iff) simp_all
  ultimately show ?thesis by force
qed

lemma random_get_eventually: "\<exists>n. fst (random_get ((random_next ^^ n) s)) \<noteq> 0"
proof (cases "odd (unat (random_next s) div 65536)")
  case True
  then show ?thesis using random_get_not_0 [of s] by (intro exI [of _ 0]) simp
next
  case False
  have "random_next ((random_next ^^ 65536) s) = (random_next ^^ 65536) (random_next s)"
    by (simp only: funpow_swap1)
  then have "odd (unat (random_next ((random_next ^^ 65536) s)) div 65536)"
    using random_next_flips [of "random_next s"] False by (simp only: not_not)
  then show ?thesis using random_get_not_0 by blast
qed

section \<open>Properties\<close>

text \<open>\<^verbatim>\<open>Math::overlap\<close> holds of two non-empty half-open address ranges exactly when some
  address lies in both.\<close>

theorem overlap_correct:
  assumes "start1 < end1" and "start2 < end2"
  shows "overlap start1 end1 start2 end2 \<longleftrightarrow> {start1..<end1} \<inter> {start2..<end2} \<noteq> {}"
  unfolding overlap_iff_intersect [OF assms] by (auto simp only: disjoint_iff atLeastLessThan_iff)

theorem overlap_correct_witness: "{4..<8} \<inter> {6..<7::u64} \<noteq> {}"
  using overlap_correct [of 4 8 6 7] by (simp add: overlap_def)

text \<open>For a power-of-two alignment, \<^verbatim>\<open>round_up\<close> yields the least multiple of the alignment that
  is not below the value, whenever adding the alignment stays inside the machine word.\<close>

theorem round_up_least_multiple:
  fixes v :: u64
  assumes "n < 64" and "unat v + 2 ^ n \<le> 2 ^ 64"
  shows "2 ^ n dvd unat (round_up v (2 ^ n)) \<and> v \<le> round_up v (2 ^ n) \<and>
    (\<forall>m. 2 ^ n dvd m \<longrightarrow> unat v \<le> m \<longrightarrow> unat (round_up v (2 ^ n)) \<le> m)"
proof -
  have u: "unat (round_up v (2 ^ n)) = (unat v + (2 ^ n - 1)) div 2 ^ n * 2 ^ n"
    using assms by (intro round_up_pow2) simp_all
  show ?thesis
    unfolding word_le_nat_alt u by (intro conjI allI impI le_ceil_mult ceil_mult_least) simp_all
qed

theorem round_up_least_multiple_witness: "(2::nat) ^ 3 dvd unat (round_up (13 :: u64) (2 ^ 3))"
  using round_up_least_multiple [of 3 13] by simp

text \<open>\<^verbatim>\<open>getnextlog2\<close> returns the least exponent whose power of two is at least the size, for every
  size up to \<open>2 ^ 63\<close>.\<close>

theorem getnextlog2_correct:
  assumes "unat sz \<le> 2 ^ 63"
  shows "unat sz \<le> 2 ^ getnextlog2 sz \<and> (\<forall>x. unat sz \<le> 2 ^ x \<longrightarrow> getnextlog2 sz \<le> x)"
proof (intro conjI allI impI)
  have c: "unat sz \<le> 2 ^ getnextlog2 sz \<and> (0 < getnextlog2 sz \<longrightarrow> 2 ^ (getnextlog2 sz - 1) < unat sz)"
    using getnextlog2_from_correct [of 62 sz] assms by (simp add: getnextlog2_def)
  then show "unat sz \<le> 2 ^ getnextlog2 sz" by simp
  fix x assume "unat sz \<le> 2 ^ x"
  show "getnextlog2 sz \<le> x"
  proof (rule ccontr)
    assume "\<not> getnextlog2 sz \<le> x"
    then have "(2::nat) ^ x \<le> 2 ^ (getnextlog2 sz - 1)" "0 < getnextlog2 sz"
      by (auto intro: power_increasing)
    then show False using c \<open>unat sz \<le> 2 ^ x\<close> by linarith
  qed
qed

theorem getnextlog2_correct_witness: "unat (100 :: u64) \<le> 2 ^ getnextlog2 100"
  using getnextlog2_correct [of 100] by simp

end
