(* ===== verification/Base_Treap.thy ===== *)
theory Base_Treap
  imports Kernel_Prelude "HOL-Library.Tree"
begin

text \<open>
  The treap of \<^verbatim>\<open>src/src/include/base/col/Treap.h\<close>, in which every capability table
  keeps its capabilities. A node carries its key, its priority and the object that
  inherits from \<^verbatim>\<open>TreapNode\<close>; sub-trees are the \<^verbatim>\<open>_left\<close> and \<^verbatim>\<open>_right\<close> pointers.
  Priorities are 32 bit signed integers that wrap.
\<close>

section \<open>Nodes and the treap\<close>

record ('k, 'v) treap_node =
  n_key :: 'k
  n_prio :: u32
  n_obj :: 'v

type_synonym ('k, 'v) node_tree = "('k, 'v) treap_node tree"

record ('k, 'v) treap =
  t_prio :: u32
  t_root :: "('k, 'v) node_tree"

text \<open>\<^verbatim>\<open>_prio\<close> is an \<^verbatim>\<open>int\<close>; priorities are compared as signed numbers.\<close>

definition prio_val :: "u32 \<Rightarrow> int" where
  "prio_val a = sint a"

definition prio_less :: "u32 \<Rightarrow> u32 \<Rightarrow> bool" where
  "prio_less a b \<longleftrightarrow> prio_val a < prio_val b"

definition treap_new :: "('k, 'v) treap" where
  "treap_new = \<lparr>t_prio = 314159265, t_root = Leaf\<rparr>"

definition treap_empty :: "('k, 'v) treap \<Rightarrow> bool" where
  "treap_empty t \<longleftrightarrow> (case t_root t of Leaf \<Rightarrow> True | Node _ _ _ \<Rightarrow> False)"

definition treap_clear :: "('k, 'v) treap \<Rightarrow> ('k, 'v) treap" where
  "treap_clear t = t\<lparr>t_prio := 314159265, t_root := Leaf\<rparr>"

section \<open>Operations\<close>

fun find_node :: "'k::linorder \<Rightarrow> ('k, 'v) node_tree \<Rightarrow> 'v option" where
  "find_node key Leaf = None"
| "find_node key (Node l p r) =
     (if n_key p = key then Some (n_obj p)
      else if key < n_key p then find_node key l
      else find_node key r)"

definition treap_find :: "('k::linorder, 'v) treap \<Rightarrow> 'k \<Rightarrow> 'v option" where
  "treap_find t key = find_node key (t_root t)"

text \<open>The \<^verbatim>\<open>while(p)\<close> loop of \<^verbatim>\<open>insert\<close>: the sub-tree \<open>p\<close> is split at the new key; the first
  component is what the loop hangs below \<^verbatim>\<open>l\<close>, the second what it hangs below \<^verbatim>\<open>r\<close>.\<close>

fun split_at :: "'k::linorder \<Rightarrow> ('k, 'v) node_tree \<Rightarrow> ('k, 'v) node_tree \<times> ('k, 'v) node_tree" where
  "split_at key Leaf = (Leaf, Leaf)"
| "split_at key (Node l p r) =
     (if key < n_key p
      then (let (a, b) = split_at key l in (a, Node b p r))
      else (let (a, b) = split_at key r in (Node l p a, b)))"

text \<open>The \<^verbatim>\<open>for\<close> loop of \<^verbatim>\<open>insert\<close> walks down while the priority of the visited node is smaller
  than the next priority, then the new node takes the place of the node it stopped at.\<close>

fun insert_node :: "('k::linorder, 'v) treap_node \<Rightarrow> ('k, 'v) node_tree \<Rightarrow> ('k, 'v) node_tree" where
  "insert_node node Leaf = Node Leaf node Leaf"
| "insert_node node (Node l p r) =
     (if prio_less (n_prio p) (n_prio node)
      then (if n_key node < n_key p
            then Node (insert_node node l) p r
            else Node l p (insert_node node r))
      else (let (a, b) = split_at (n_key node) (Node l p r) in Node a node b))"

definition treap_insert :: "'k::linorder \<Rightarrow> 'v \<Rightarrow> ('k, 'v) treap \<Rightarrow> ('k, 'v) treap" where
  "treap_insert key obj t =
     t\<lparr>t_root := insert_node \<lparr>n_key = key, n_prio = t_prio t, n_obj = obj\<rparr> (t_root t),
       t_prio := t_prio t + 0x9e3779b9\<rparr>"

text \<open>\<^verbatim>\<open>remove_from\<close>: the node at the root of the argument is rotated down, past the child
  with the smaller priority, until it has at most one child, which replaces it.\<close>

function remove_from :: "('k, 'v) node_tree \<Rightarrow> ('k, 'v) node_tree" where
  "remove_from Leaf = Leaf"
| "remove_from (Node Leaf node Leaf) = Leaf"
| "remove_from (Node (Node ll lp lr) node Leaf) = Node ll lp lr"
| "remove_from (Node Leaf node (Node rl rp rr)) = Node rl rp rr"
| "remove_from (Node (Node ll lp lr) node (Node rl rp rr)) =
     (if prio_less (n_prio lp) (n_prio rp)
      then Node ll lp (remove_from (Node lr node (Node rl rp rr)))
      else Node (remove_from (Node (Node ll lp lr) node rl)) rp rr)"
  by pat_completeness auto
termination
  by (relation "measure size") auto

text \<open>\<^verbatim>\<open>remove\<close> walks to the node, asserts that it found it, and takes it out.\<close>

fun remove_node :: "'k::linorder \<Rightarrow> ('k, 'v) node_tree \<Rightarrow> ('k, 'v) node_tree result" where
  "remove_node key Leaf = Inl Assert_failed"
| "remove_node key (Node l p r) =
     (if n_key p = key then Inr (remove_from (Node l p r))
      else if key < n_key p then rbind (remove_node key l) (\<lambda>l'. Inr (Node l' p r))
      else rbind (remove_node key r) (\<lambda>r'. Inr (Node l p r')))"

definition treap_remove :: "'k::linorder \<Rightarrow> ('k, 'v) treap \<Rightarrow> ('k, 'v) treap result" where
  "treap_remove key t = rbind (remove_node key (t_root t)) (\<lambda>r. Inr (t\<lparr>t_root := r\<rparr>))"

definition treap_remove_root :: "('k::linorder, 'v) treap \<Rightarrow> (('k \<times> 'v) option \<times> ('k, 'v) treap) result" where
  "treap_remove_root t =
     (case t_root t of
        Leaf \<Rightarrow> Inr (None, t)
      | Node _ p _ \<Rightarrow> rbind (treap_remove (n_key p) t) (\<lambda>t'. Inr (Some (n_key p, n_obj p), t')))"

text \<open>Changing the object behind a \<^verbatim>\<open>find\<close> result in place: keys, priorities and the shape stay.\<close>

fun modify_node :: "'k::linorder \<Rightarrow> ('v \<Rightarrow> 'v) \<Rightarrow> ('k, 'v) node_tree \<Rightarrow> ('k, 'v) node_tree" where
  "modify_node key f Leaf = Leaf"
| "modify_node key f (Node l p r) =
     (if n_key p = key then Node l (p\<lparr>n_obj := f (n_obj p)\<rparr>) r
      else if key < n_key p then Node (modify_node key f l) p r
      else Node l p (modify_node key f r))"

definition treap_modify :: "'k::linorder \<Rightarrow> ('v \<Rightarrow> 'v) \<Rightarrow> ('k, 'v) treap \<Rightarrow> ('k, 'v) treap" where
  "treap_modify key f t = t\<lparr>t_root := modify_node key f (t_root t)\<rparr>"

section \<open>Invariant: search order on keys, heap order on priorities\<close>

fun tree_keys :: "('k, 'v) node_tree \<Rightarrow> 'k set" where
  "tree_keys Leaf = {}"
| "tree_keys (Node l p r) = insert (n_key p) (tree_keys l \<union> tree_keys r)"

fun tree_prios :: "('k, 'v) node_tree \<Rightarrow> int set" where
  "tree_prios Leaf = {}"
| "tree_prios (Node l p r) = insert (prio_val (n_prio p)) (tree_prios l \<union> tree_prios r)"

fun tree_entries :: "('k, 'v) node_tree \<Rightarrow> ('k \<times> 'v) set" where
  "tree_entries Leaf = {}"
| "tree_entries (Node l p r) = insert (n_key p, n_obj p) (tree_entries l \<union> tree_entries r)"

fun search_ordered :: "('k::linorder, 'v) node_tree \<Rightarrow> bool" where
  "search_ordered Leaf = True"
| "search_ordered (Node l p r) =
     ((\<forall>k\<in>tree_keys l. k < n_key p) \<and> (\<forall>k\<in>tree_keys r. n_key p < k) \<and>
      search_ordered l \<and> search_ordered r)"

fun heap_ordered :: "('k, 'v) node_tree \<Rightarrow> bool" where
  "heap_ordered Leaf = True"
| "heap_ordered (Node l p r) =
     ((\<forall>q\<in>tree_prios l \<union> tree_prios r. prio_val (n_prio p) \<le> q) \<and> heap_ordered l \<and> heap_ordered r)"

definition treap_inv :: "('k::linorder, 'v) treap \<Rightarrow> bool" where
  "treap_inv t \<longleftrightarrow> search_ordered (t_root t) \<and> heap_ordered (t_root t)"

lemma treap_inv_new [simp]: "treap_inv treap_new"
  by (simp add: treap_inv_def treap_new_def)

lemma treap_find_new [simp]: "treap_find treap_new k = None"
  by (simp add: treap_find_def treap_new_def)

lemma find_node_None: "search_ordered t \<Longrightarrow> find_node k t = None \<longleftrightarrow> k \<notin> tree_keys t"
  by (induction t) auto

lemma entries_keys: "(k, v) \<in> tree_entries t \<Longrightarrow> k \<in> tree_keys t"
  by (induction t) auto

lemma find_node_Some: "search_ordered t \<Longrightarrow> find_node k t = Some v \<longleftrightarrow> (k, v) \<in> tree_entries t"
proof (induction t)
  case (Node l p r)
  have "(k, v) \<notin> tree_entries r" if "k < n_key p"
    using that Node.prems by (auto dest!: entries_keys dest: less_asym)
  moreover have "(k, v) \<notin> tree_entries l" if "n_key p < k"
    using that Node.prems by (auto dest!: entries_keys dest: less_asym)
  moreover have "(n_key p, v) \<notin> tree_entries l \<union> tree_entries r"
    using Node.prems by (auto dest!: entries_keys)
  ultimately show ?case using Node by (cases k "n_key p" rule: linorder_cases) auto
qed simp

text \<open>A search tree is determined as a map by its entries.\<close>

lemma find_node_eqI:
  "search_ordered t \<Longrightarrow> (\<And>v. (k, v) \<in> tree_entries t \<longleftrightarrow> m = Some v) \<Longrightarrow> find_node k t = m"
  by (cases m; cases "find_node k t") (auto simp flip: find_node_Some)

subsection \<open>Splitting\<close>

lemma split_at_keys:
  "split_at k t = (a, b) \<Longrightarrow> search_ordered t \<Longrightarrow> k \<notin> tree_keys t \<Longrightarrow>
   tree_keys a = {x \<in> tree_keys t. x < k} \<and> tree_keys b = {x \<in> tree_keys t. k < x}"
proof (induction k t arbitrary: a b rule: split_at.induct)
  case (2 key l p r)
  show ?case
  proof (cases "key < n_key p")
    case True
    then obtain a' b' where s: "split_at key l = (a', b')" "a = a'" "b = Node b' p r"
      using "2.prems"(1) by (auto split: prod.splits)
    have "tree_keys a' = {x \<in> tree_keys l. x < key} \<and> tree_keys b' = {x \<in> tree_keys l. key < x}"
      using "2.IH"(1) [OF True s(1)] "2.prems"(2,3) by simp
    then show ?thesis using True s(2,3) "2.prems"(2,3) by auto
  next
    case False
    then obtain a' b' where s: "split_at key r = (a', b')" "a = Node l p a'" "b = b'"
      using "2.prems"(1) by (auto split: prod.splits)
    have "tree_keys a' = {x \<in> tree_keys r. x < key} \<and> tree_keys b' = {x \<in> tree_keys r. key < x}"
      using "2.IH"(2) [OF False s(1)] "2.prems"(2,3) by simp
    moreover have "n_key p < key" using False "2.prems"(3) by auto
    ultimately show ?thesis using s(2,3) "2.prems"(2,3) by auto
  qed
qed auto

lemma split_at_ordered:
  "split_at k t = (a, b) \<Longrightarrow> search_ordered t \<Longrightarrow> k \<notin> tree_keys t \<Longrightarrow>
   search_ordered a \<and> search_ordered b"
proof (induction k t arbitrary: a b rule: split_at.induct)
  case (2 key l p r)
  then show ?case
    by (auto split: if_splits prod.splits dest: split_at_keys)
qed auto

lemma split_at_prios: "split_at k t = (a, b) \<Longrightarrow> tree_prios a \<union> tree_prios b = tree_prios t"
  by (induction k t arbitrary: a b rule: split_at.induct)
    (fastforce split: if_splits prod.splits)+

lemma split_at_heap:
  "split_at k t = (a, b) \<Longrightarrow> heap_ordered t \<Longrightarrow> heap_ordered a \<and> heap_ordered b"
proof (induction k t arbitrary: a b rule: split_at.induct)
  case (2 key l p r)
  then show ?case
    by (auto split: if_splits prod.splits) (use split_at_prios in blast)+
qed auto

lemma split_at_entries: "split_at k t = (a, b) \<Longrightarrow> tree_entries a \<union> tree_entries b = tree_entries t"
  by (induction k t arbitrary: a b rule: split_at.induct)
    (fastforce split: if_splits prod.splits)+

subsection \<open>Insertion\<close>

declare split_at.simps(2) [simp del]

lemma insert_node_cases:
  obtains (descend_left) "prio_less (n_prio p) (n_prio node)" "n_key node < n_key p"
      "insert_node node (Node l p r) = Node (insert_node node l) p r"
    | (descend_right) "prio_less (n_prio p) (n_prio node)" "\<not> n_key node < n_key p"
      "insert_node node (Node l p r) = Node l p (insert_node node r)"
    | (here) a b where "\<not> prio_less (n_prio p) (n_prio node)"
      "split_at (n_key node) (Node l p r) = (a, b)"
      "insert_node node (Node l p r) = Node a node b"
proof (cases "prio_less (n_prio p) (n_prio node)")
  case True
  then show ?thesis using descend_left descend_right by (cases "n_key node < n_key p") simp_all
next
  case False
  then show ?thesis by (cases "split_at (n_key node) (Node l p r)") (rule here, simp_all)
qed

lemma insert_node_keys:
  "search_ordered t \<Longrightarrow> n_key node \<notin> tree_keys t \<Longrightarrow>
   tree_keys (insert_node node t) = insert (n_key node) (tree_keys t)"
proof (induction t)
  case (Node l p r)
  show ?case
  proof (cases rule: insert_node_cases [of p node l r])
    case (here a b)
    have "tree_keys a \<union> tree_keys b = tree_keys (Node l p r)"
      using split_at_keys [OF here(2) Node.prems] Node.prems(2) neq_iff by blast
    then show ?thesis using here(3) by simp
  qed (use Node in auto)
qed simp

lemma insert_node_prios: "tree_prios (insert_node node t) = insert (prio_val (n_prio node)) (tree_prios t)"
proof (induction t)
  case (Node l p r)
  show ?case
    by (cases rule: insert_node_cases [of p node l r]) (use Node in \<open>auto simp: split_at_prios\<close>)
qed simp

lemma insert_node_ordered:
  "search_ordered t \<Longrightarrow> n_key node \<notin> tree_keys t \<Longrightarrow> search_ordered (insert_node node t)"
proof (induction t)
  case (Node l p r)
  show ?case
  proof (cases rule: insert_node_cases [of p node l r])
    case (here a b)
    then show ?thesis
      using split_at_ordered [OF here(2) Node.prems] split_at_keys [OF here(2) Node.prems] by simp
  qed (use Node in \<open>auto simp: insert_node_keys\<close>)
qed simp

lemma insert_node_heap: "heap_ordered t \<Longrightarrow> heap_ordered (insert_node node t)"
proof (induction t)
  case (Node l p r)
  show ?case
  proof (cases rule: insert_node_cases [of p node l r])
    case (here a b)
    have le: "prio_val (n_prio node) \<le> prio_val (n_prio p)" using here(1) by (simp add: prio_less_def)
    have "prio_val (n_prio node) \<le> q" if "q \<in> tree_prios (Node l p r)" for q
      using that Node.prems by (auto intro: order_trans [OF le] simp: le)
    then have "\<forall>q\<in>tree_prios a \<union> tree_prios b. prio_val (n_prio node) \<le> q"
      by (simp only: split_at_prios [OF here(2)]) blast
    then show ?thesis using here(3) split_at_heap [OF here(2) Node.prems] by simp
  qed (use Node in \<open>auto simp: insert_node_prios prio_less_def\<close>)
qed simp

lemma insert_node_entries:
  "tree_entries (insert_node node t) = insert (n_key node, n_obj node) (tree_entries t)"
proof (induction t)
  case (Node l p r)
  show ?case
    by (cases rule: insert_node_cases [of p node l r]) (use Node in \<open>auto simp: split_at_entries\<close>)
qed simp

lemma insert_node_find:
  assumes "search_ordered t" and "n_key node \<notin> tree_keys t"
  shows "find_node x (insert_node node t) = (if x = n_key node then Some (n_obj node) else find_node x t)"
  using assms insert_node_ordered [OF assms]
  by (intro find_node_eqI) (auto simp: insert_node_entries find_node_Some dest: entries_keys)

subsection \<open>Removal\<close>

lemma remove_from_keys: "tree_keys (remove_from t) = tree_keys (left t) \<union> tree_keys (right t)"
  by (induction t rule: remove_from.induct) auto

lemma remove_from_prios: "tree_prios (remove_from t) = tree_prios (left t) \<union> tree_prios (right t)"
  by (induction t rule: remove_from.induct) auto

lemma remove_from_ordered: "search_ordered t \<Longrightarrow> search_ordered (remove_from t)"
proof (induction t rule: remove_from.induct)
  case (5 ll lp lr node rl rp rr)
  have "\<forall>x\<in>tree_keys (Node rl rp rr). n_key lp < x" "\<forall>x\<in>tree_keys (Node ll lp lr). x < n_key rp"
    using "5.prems" by (auto intro: less_trans [of _ "n_key node"])
  then show ?case
    using 5 by (simp add: remove_from_keys ball_Un)
qed auto

lemma remove_from_heap:
  "heap_ordered (left t) \<Longrightarrow> heap_ordered (right t) \<Longrightarrow> heap_ordered (remove_from t)"
proof (induction t rule: remove_from.induct)
  case (5 ll lp lr node rl rp rr)
  show ?case
  proof (cases "prio_less (n_prio lp) (n_prio rp)")
    case True
    then have le: "prio_val (n_prio lp) \<le> prio_val (n_prio rp)" by (simp add: prio_less_def)
    have "\<forall>q\<in>tree_prios (Node rl rp rr). prio_val (n_prio lp) \<le> q"
      using "5.prems" by (auto intro: order_trans [OF le] simp: le)
    then show ?thesis using True 5 by (simp add: remove_from_prios ball_Un)
  next
    case False
    then have le: "prio_val (n_prio rp) \<le> prio_val (n_prio lp)" by (simp add: prio_less_def)
    have "\<forall>q\<in>tree_prios (Node ll lp lr). prio_val (n_prio rp) \<le> q"
      using "5.prems" by (auto intro: order_trans [OF le] simp: le)
    then show ?thesis using False 5 by (simp add: remove_from_prios ball_Un)
  qed
qed auto

lemma remove_from_entries:
  "tree_entries (remove_from t) = tree_entries (left t) \<union> tree_entries (right t)"
  by (induction t rule: remove_from.induct) auto

lemma remove_node_facts:
  assumes "remove_node k t = Inr t'" and "search_ordered t"
  shows "tree_keys t' = tree_keys t - {k} \<and> tree_prios t' \<subseteq> tree_prios t \<and>
    tree_entries t' = {e \<in> tree_entries t. fst e \<noteq> k} \<and> search_ordered t'"
  using assms
proof (induction t arbitrary: t')
  case (Node l p r)
  have nin: "n_key p \<notin> tree_keys l" "n_key p \<notin> tree_keys r" using Node.prems(2) by auto
  consider "n_key p = k" | l' where "k < n_key p" "n_key p \<noteq> k" "remove_node k l = Inr l'" "t' = Node l' p r"
    | r' where "n_key p < k" "remove_node k r = Inr r'" "t' = Node l p r'"
    using Node.prems(1) by (auto split: if_splits)
  then show ?case
  proof cases
    case 1
    then have "t' = remove_from (Node l p r)" using Node.prems(1) by simp
    then show ?thesis
      using 1 nin Node.prems(2) remove_from_ordered [OF Node.prems(2)]
      by (auto simp: remove_from_keys remove_from_prios remove_from_entries dest: entries_keys)
  next
    case 2
    have "k \<notin> tree_keys r" using 2(1) Node.prems(2) by (auto dest: less_asym)
    then show ?thesis using 2 Node.IH(1) [OF 2(3)] Node.prems(2) by (auto dest: entries_keys)
  next
    case 3
    have "k \<notin> tree_keys l" using 3(1) Node.prems(2) by (auto dest: less_asym)
    then show ?thesis using 3 Node.IH(2) [OF 3(2)] Node.prems(2) by (auto dest: entries_keys)
  qed
qed simp

lemma remove_node_heap: "remove_node k t = Inr t' \<Longrightarrow> heap_ordered t \<Longrightarrow> search_ordered t \<Longrightarrow> heap_ordered t'"
proof (induction t arbitrary: t')
  case (Node l p r)
  show ?case
  proof (cases "n_key p = k")
    case True
    then show ?thesis using Node.prems remove_from_heap [of "Node l p r"] by auto
  next
    case False
    then show ?thesis
      using Node by (fastforce split: if_splits dest: remove_node_facts)
  qed
qed simp

lemma remove_node_total: "search_ordered t \<Longrightarrow> k \<in> tree_keys t \<Longrightarrow> \<exists>t'. remove_node k t = Inr t'"
  by (induction t) auto

lemma remove_node_find:
  assumes "remove_node k t = Inr t'" and "search_ordered t"
  shows "find_node x t' = (if x = k then None else find_node x t)"
  using remove_node_facts [OF assms] assms(2)
  by (intro find_node_eqI) (auto simp: find_node_Some)

subsection \<open>Modification in place\<close>

lemma modify_node_keys [simp]: "tree_keys (modify_node k f t) = tree_keys t"
  by (induction t) auto

lemma modify_node_prios [simp]: "tree_prios (modify_node k f t) = tree_prios t"
  by (induction t) auto

lemma modify_node_ordered [simp]: "search_ordered (modify_node k f t) = search_ordered t"
  by (induction t) auto

lemma modify_node_heap [simp]: "heap_ordered (modify_node k f t) = heap_ordered t"
  by (induction t) auto

lemma modify_node_find:
  "find_node x (modify_node k f t) = (if x = k then map_option f (find_node k t) else find_node x t)"
  by (induction t) auto

section \<open>The treap as a keyed store\<close>

lemma treap_find_insert:
  assumes "treap_inv t" and "treap_find t k = None"
  shows "treap_find (treap_insert k v t) = (treap_find t)(k \<mapsto> v)"
proof
  fix x
  have "k \<notin> tree_keys (t_root t)"
    using assms find_node_None by (auto simp: treap_inv_def treap_find_def)
  then show "treap_find (treap_insert k v t) x = ((treap_find t)(k \<mapsto> v)) x"
    using assms(1) by (simp add: treap_find_def treap_insert_def treap_inv_def insert_node_find)
qed

lemma treap_inv_insert:
  assumes "treap_inv t" and "treap_find t k = None"
  shows "treap_inv (treap_insert k v t)"
proof -
  have "k \<notin> tree_keys (t_root t)"
    using assms find_node_None by (auto simp: treap_inv_def treap_find_def)
  then show ?thesis
    using assms(1) by (simp add: treap_insert_def treap_inv_def insert_node_ordered insert_node_heap)
qed

lemma treap_remove_present:
  assumes "treap_inv t" and "treap_find t k = Some v"
  obtains t' where "treap_remove k t = Inr t'" "treap_inv t'" "treap_find t' = (treap_find t)(k := None)"
proof -
  have so: "search_ordered (t_root t)" and ho: "heap_ordered (t_root t)"
    using assms(1) by (simp_all add: treap_inv_def)
  have "k \<in> tree_keys (t_root t)"
    using assms(2) so by (auto simp: treap_find_def find_node_Some dest: entries_keys)
  then obtain r where r: "remove_node k (t_root t) = Inr r" using remove_node_total [OF so] by blast
  show ?thesis
  proof (rule that [of "t\<lparr>t_root := r\<rparr>"])
    show "treap_remove k t = Inr (t\<lparr>t_root := r\<rparr>)" using r by (simp add: treap_remove_def)
    show "treap_inv (t\<lparr>t_root := r\<rparr>)"
      using remove_node_facts [OF r so] remove_node_heap [OF r ho so] by (simp add: treap_inv_def)
    show "treap_find (t\<lparr>t_root := r\<rparr>) = (treap_find t)(k := None)"
      by (rule ext) (simp add: treap_find_def remove_node_find [OF r so])
  qed
qed

lemma treap_remove_absent: "treap_inv t \<Longrightarrow> treap_find t k = None \<Longrightarrow> treap_remove k t = Inl Assert_failed"
proof -
  have "k \<notin> tree_keys r \<Longrightarrow> remove_node k r = Inl Assert_failed" for r :: "('a, 'b) node_tree"
    by (induction r) auto
  then show "treap_inv t \<Longrightarrow> treap_find t k = None \<Longrightarrow> treap_remove k t = Inl Assert_failed"
    by (simp add: treap_remove_def treap_find_def treap_inv_def find_node_None)
qed

text \<open>The tree after a removal that is known to succeed.\<close>

definition treap_without :: "'k::linorder \<Rightarrow> ('k, 'v) treap \<Rightarrow> ('k, 'v) treap" where
  "treap_without k t = (case treap_remove k t of Inr t' \<Rightarrow> t' | Inl _ \<Rightarrow> t)"

lemma treap_find_modify:
  "treap_find (treap_modify k f t) x = (if x = k then map_option f (treap_find t k) else treap_find t x)"
  by (simp add: treap_find_def treap_modify_def modify_node_find)

lemma treap_inv_modify [simp]: "treap_inv (treap_modify k f t) = treap_inv t"
  by (simp add: treap_inv_def treap_modify_def)

interpretation tr: keyed_store treap_find treap_insert treap_without treap_inv
proof unfold_locales
  fix t :: "('a, 'b) treap" and k v
  assume t: "treap_inv t" "treap_find t k = Some v"
  obtain t' where "treap_remove k t = Inr t'" "treap_inv t'" "treap_find t' = (treap_find t)(k := None)"
    by (rule treap_remove_present [OF t])
  then show "treap_find (treap_without k t) = (treap_find t)(k := None)" "treap_inv (treap_without k t)"
    by (simp_all add: treap_without_def)
qed (simp_all add: treap_find_insert treap_inv_insert)

section \<open>Properties\<close>

text \<open>C9. Inserting a fresh key into a well-formed treap keeps the search order of the keys and the
  heap order of the priorities, makes the key find the new object, and changes the result of
  \<^verbatim>\<open>find\<close> for no other key; removing that key again gives back the old lookup function.\<close>

theorem treap_insert_refines_map:
  assumes "treap_inv t" and "treap_find t k = None"
  shows "treap_inv (treap_insert k v t) \<and>
    treap_find (treap_insert k v t) = (treap_find t)(k \<mapsto> v) \<and>
    treap_find (treap_without k (treap_insert k v t)) = treap_find t"
  using assms by (simp add: tr.invar_ins tr.lookup_ins tr.del_ins_roundtrip)

theorem treap_insert_refines_map_witness:
  "treap_find (treap_insert (5::nat) ''b'' (treap_insert 3 ''a'' treap_new)) =
     (treap_find (treap_insert 3 ''a'' treap_new))(5 \<mapsto> ''b'')"
  using treap_insert_refines_map [of "treap_insert (3::nat) ''a'' treap_new" 5 "''b''"]
  by (simp add: treap_inv_insert treap_find_insert)

text \<open>C18. \<^verbatim>\<open>remove\<close> on a well-formed treap succeeds exactly when the key is present; it then yields a
  well-formed treap in which exactly that key is gone, and otherwise the assertion of the code fails.\<close>

theorem treap_remove_total:
  assumes "treap_inv t"
  shows "case treap_find t k of
      None \<Rightarrow> treap_remove k t = Inl Assert_failed
    | Some v \<Rightarrow> \<exists>t'. treap_remove k t = Inr t' \<and> treap_inv t' \<and> treap_find t' = (treap_find t)(k := None)"
proof (cases "treap_find t k")
  case None
  then show ?thesis using assms by (simp add: treap_remove_absent)
next
  case (Some v)
  then show ?thesis using assms by (auto elim: treap_remove_present)
qed

theorem treap_remove_total_witness:
  "\<exists>t'. treap_remove (3::nat) (treap_insert 3 ''a'' treap_new) = Inr t' \<and> treap_inv t' \<and>
     treap_find t' = (treap_find (treap_insert 3 ''a'' treap_new))(3 := None)"
  using treap_remove_total [of "treap_insert (3::nat) ''a'' treap_new" 3]
  by (simp add: treap_inv_insert treap_find_insert)

text \<open>The loop that empties a treap, \<^verbatim>\<open>remove_root\<close>, never fails: on a well-formed treap it
  returns nothing exactly for the empty treap, and otherwise an entry that was in the treap and is
  the only one missing afterwards.\<close>

theorem treap_remove_root_total:
  assumes "treap_inv t"
  shows "if treap_empty t then treap_remove_root t = Inr (None, t)
    else \<exists>k v t'. treap_remove_root t = Inr (Some (k, v), t') \<and> treap_find t k = Some v \<and>
      treap_inv t' \<and> treap_find t' = (treap_find t)(k := None)"
proof (cases "t_root t")
  case (Node l p r)
  then have f: "treap_find t (n_key p) = Some (n_obj p)" by (simp add: treap_find_def)
  obtain t' where "treap_remove (n_key p) t = Inr t'" "treap_inv t'"
      "treap_find t' = (treap_find t)(n_key p := None)"
    by (rule treap_remove_present [OF assms f])
  then show ?thesis using Node f by (auto simp: treap_empty_def treap_remove_root_def)
qed (simp add: treap_empty_def treap_remove_root_def)

theorem treap_remove_root_total_witness:
  "\<exists>k v t'. treap_remove_root (treap_insert (3::nat) ''a'' treap_new) = Inr (Some (k, v), t') \<and>
     treap_find (treap_insert 3 ''a'' treap_new) k = Some v \<and> treap_inv t' \<and>
     treap_find t' = (treap_find (treap_insert 3 ''a'' treap_new))(k := None)"
  using treap_remove_root_total [of "treap_insert (3::nat) ''a'' treap_new"]
  by (simp add: treap_empty_def treap_insert_def treap_new_def treap_inv_def)

end
