(* ===== verification/KV_Store.thy ===== *)
theory KV_Store
  imports Kernel_Prelude
begin

text \<open>
  The key-value store of \<^verbatim>\<open>src/src/apps/kernel/KVStore.h\<close>, which the coordinator uses for
  its table of kernels and a kernel PE for its callbacks: a singly linked list of
  entries, searched from the front.
\<close>

record ('k, 'v) kv_entry =
  kv_id :: 'k
  kv_val :: 'v

type_synonym ('k, 'v) kvstore = "('k, 'v) kv_entry list"

definition kv_put :: "'k \<Rightarrow> 'v \<Rightarrow> ('k, 'v) kvstore \<Rightarrow> ('k, 'v) kvstore" where
  "kv_put key v store =
     (case List.find (\<lambda>e. kv_id e = key) store of
        Some _ \<Rightarrow> update_first (\<lambda>e. kv_id e = key) (\<lambda>e. e\<lparr>kv_val := v\<rparr>) store
      | None \<Rightarrow> store @ [\<lparr>kv_id = key, kv_val = v\<rparr>])"

definition kv_get :: "('k, 'v) kvstore \<Rightarrow> 'k \<Rightarrow> 'v result" where
  "kv_get store key =
     (case List.find (\<lambda>e. kv_id e = key) store of
        None \<Rightarrow> Inl Panic
      | Some e \<Rightarrow> Inr (kv_val e))"

definition kv_exists :: "('k, 'v) kvstore \<Rightarrow> 'k \<Rightarrow> bool" where
  "kv_exists store key = (List.find (\<lambda>e. kv_id e = key) store \<noteq> None)"

definition kv_remove :: "'k \<Rightarrow> ('k, 'v) kvstore \<Rightarrow> bool \<times> ('k, 'v) kvstore" where
  "kv_remove key store =
     (case List.find (\<lambda>e. kv_id e = key) store of
        None \<Rightarrow> (False, store)
      | Some _ \<Rightarrow> (True, remove_first (\<lambda>e. kv_id e = key) store))"

definition kv_size :: "('k, 'v) kvstore \<Rightarrow> nat" where
  "kv_size store = length store"

section \<open>The store as a map\<close>

definition kv_lookup :: "('k, 'v) kvstore \<Rightarrow> 'k \<Rightarrow> 'v option" where
  "kv_lookup store key = map_option kv_val (List.find (\<lambda>e. kv_id e = key) store)"

definition kv_inv :: "('k, 'v) kvstore \<Rightarrow> bool" where
  "kv_inv store \<longleftrightarrow> distinct (map kv_id store)"

lemma kv_get_lookup: "kv_get s k = (case kv_lookup s k of None \<Rightarrow> Inl Panic | Some v \<Rightarrow> Inr v)"
  by (auto simp: kv_get_def kv_lookup_def split: option.splits)

lemma kv_exists_lookup: "kv_exists s k \<longleftrightarrow> kv_lookup s k \<noteq> None"
  by (auto simp: kv_exists_def kv_lookup_def)

lemma kv_lookup_put: "kv_lookup (kv_put k v s) = (kv_lookup s)(k \<mapsto> v)"
proof
  fix x
  show "kv_lookup (kv_put k v s) x = ((kv_lookup s)(k \<mapsto> v)) x"
    by (cases "x = k")
      (auto simp: kv_lookup_def kv_put_def find_append find_key_update_first split: option.splits)
qed

lemma kv_inv_put: "kv_inv s \<Longrightarrow> kv_inv (kv_put k v s)"
  by (auto simp: kv_inv_def kv_put_def map_update_first find_key_None split: option.splits)

lemma kv_lookup_remove:
  assumes "kv_inv s" shows "kv_lookup (snd (kv_remove k s)) = (kv_lookup s)(k := None)"
proof
  fix x
  show "kv_lookup (snd (kv_remove k s)) x = ((kv_lookup s)(k := None)) x"
    using assms
    by (cases "x = k")
      (auto simp: kv_lookup_def kv_remove_def kv_inv_def find_key_remove_first split: option.splits)
qed

lemma kv_inv_remove: "kv_inv s \<Longrightarrow> kv_inv (snd (kv_remove k s))"
  by (auto simp: kv_inv_def kv_remove_def distinct_map_remove_first split: option.splits)

interpretation kv: overwriting_store kv_lookup kv_put "\<lambda>k s. snd (kv_remove k s)" kv_inv
  by unfold_locales (simp_all add: kv_lookup_put kv_inv_put kv_lookup_remove kv_inv_remove)

lemma kv_remove_result: "fst (kv_remove k s) \<longleftrightarrow> kv_exists s k"
  by (auto simp: kv_remove_def kv_exists_def split: option.splits)

lemma kv_size_put: "kv_size (kv_put k v s) = kv_size s + (if kv_exists s k then 0 else 1)"
  by (auto simp: kv_size_def kv_put_def kv_exists_def split: option.splits)

section \<open>Properties\<close>



end
