(* ===== verification/Memory_Map.thy ===== *)
theory Memory_Map
  imports Base_Math
begin

unbundle bit_operations_syntax

text \<open>
  The map of free physical memory, \<^verbatim>\<open>kernel::MemoryMap\<close>
  (\<^verbatim>\<open>src/src/apps/kernel/mem/MemoryMap.cc\<close>): a linked list of free areas in the order of their
  addresses. Allocation is first fit from the front of an area, releasing merges the region with
  its neighbours, and \<^verbatim>\<open>detach\<close> cuts page-aligned memory off the rear for another kernel.
  Addresses and sizes are 64 bit words that wrap.
\<close>

section \<open>Areas and operations\<close>

record area =
  a_addr :: u64
  a_size :: u64

type_synonym memory_map = "area list"

definition PAGE_SIZE :: u64 where "PAGE_SIZE = 0x1000"
definition PAGE_MASK :: u64 where "PAGE_MASK = PAGE_SIZE - 1"

definition mm_new :: "u64 \<Rightarrow> u64 \<Rightarrow> memory_map" where
  "mm_new addr sz = [\<lparr>a_addr = addr, a_size = sz\<rparr>]"

fun mm_allocate :: "u64 \<Rightarrow> memory_map \<Rightarrow> u64 \<times> memory_map" where
  "mm_allocate sz [] = (-1, [])"
| "mm_allocate sz (a # as) =
     (if a_size a \<ge> sz
      then (let a' = a\<lparr>a_size := a_size a - sz, a_addr := a_addr a + sz\<rparr>
            in (a_addr a, if a_size a' = 0 then as else a' # as))
      else (let (res, as') = mm_allocate sz as in (res, a # as')))"

text \<open>\<^verbatim>\<open>free\<close> walks to the first area \<^verbatim>\<open>n\<close> that does not start below the address; \<^verbatim>\<open>p\<close> is the one
  before it.\<close>

definition mm_free :: "u64 \<Rightarrow> u64 \<Rightarrow> memory_map \<Rightarrow> memory_map" where
  "mm_free addr sz as =
     (let before = takeWhile (\<lambda>n. addr > a_addr n) as;
          behind = dropWhile (\<lambda>n. addr > a_addr n) as;
          p = last before; n = hd behind;
          touches_p = (before \<noteq> [] \<and> a_addr p + a_size p = addr);
          touches_n = (behind \<noteq> [] \<and> addr + sz = a_addr n)
      in if touches_p \<and> touches_n
         then butlast before @ p\<lparr>a_size := a_size p + (sz + a_size n)\<rparr> # tl behind
         else if touches_p
         then butlast before @ p\<lparr>a_size := a_size p + sz\<rparr> # behind
         else if touches_n
         then before @ n\<lparr>a_addr := a_addr n - sz, a_size := a_size n + sz\<rparr> # tl behind
         else before @ \<lparr>a_addr = addr, a_size = sz\<rparr> # behind)"

definition detach_fits :: "u64 \<Rightarrow> area \<Rightarrow> bool" where
  "detach_fits sz a \<longleftrightarrow> a_size a - (round_up (a_addr a) PAGE_SIZE - a_addr a) \<ge> sz"

text \<open>The search of \<^verbatim>\<open>detach\<close> for the rearmost fitting area, with the loop variable \<^verbatim>\<open>i\<close> and the
  pointer \<^verbatim>\<open>p\<close> (as a position). The inner loop leaves \<^verbatim>\<open>a\<close> at position \<open>i - 1\<close> and \<^verbatim>\<open>p\<close> before it,
  except that for \<open>i \<le> 1\<close> it does not run and \<^verbatim>\<open>p\<close> keeps the value of the previous round.\<close>

fun detach_search :: "u64 \<Rightarrow> memory_map \<Rightarrow> nat \<Rightarrow> nat option \<Rightarrow> (nat \<times> nat option) option" where
  "detach_search sz as 0 p = (if detach_fits sz (as ! 0) then Some (0, p) else None)"
| "detach_search sz as (Suc j) p =
     (let p' = (if j = 0 then p else Some (j - 1))
      in if detach_fits sz (as ! j) then Some (j, p') else detach_search sz as j p')"

text \<open>Taking the memory from the end of the area at position \<open>i\<close>. The area is unlinked through
  \<^verbatim>\<open>p\<close>; when \<^verbatim>\<open>p\<close> is the area itself, the deleted area stays in the list.\<close>

definition detach_at :: "u64 \<Rightarrow> memory_map \<Rightarrow> nat \<Rightarrow> nat option \<Rightarrow> (u64 \<times> memory_map) result" where
  "detach_at sz as i p =
     (let a = as ! i;
          unaligned = ((a_addr a + a_size a) AND PAGE_MASK \<noteq> 0);
          res = (if unaligned then round_dn (a_addr a + a_size a) PAGE_SIZE - sz
                 else a_addr a + a_size a - sz);
          t = \<lparr>a_addr = res + sz, a_size = (a_addr a + a_size a) - (res + sz)\<rparr>;
          a' = a\<lparr>a_size := a_size a - (if unaligned then sz + a_size t else sz)\<rparr>;
          rest = (if unaligned then t # drop (Suc i) as else drop (Suc i) as)
      in if a_size a' \<noteq> 0 then Inr (res, take i as @ a' # rest)
         else case p of
           None \<Rightarrow> Inr (res, rest)
         | Some j \<Rightarrow> if j = i then Inl Use_after_free else Inr (res, take (Suc j) as @ rest))"

definition mm_detach :: "u64 \<Rightarrow> memory_map \<Rightarrow> (u64 \<times> memory_map) result" where
  "mm_detach sz as =
     (if sz AND PAGE_MASK \<noteq> 0 then Inl Assert_failed
      else if length as = 0 then Inr (-1, as)
      else case detach_search sz as (length as) None of
        None \<Rightarrow> Inr (-1, as)
      | Some (i, p) \<Rightarrow> detach_at sz as i p)"

definition mm_get_size :: "memory_map \<Rightarrow> u64 \<times> u64" where
  "mm_get_size as = foldl (\<lambda>(total, areas) a. (total + a_size a, areas + 1)) (0, 0) as"

section \<open>Invariant and free bytes\<close>

definition area_end :: "area \<Rightarrow> nat" where
  "area_end a = unat (a_addr a) + unat (a_size a)"

definition area_ok :: "area \<Rightarrow> bool" where
  "area_ok a \<longleftrightarrow> 0 < unat (a_size a) \<and> area_end a < 2 ^ 64"

definition mm_inv :: "memory_map \<Rightarrow> bool" where
  "mm_inv as \<longleftrightarrow> (\<forall>a\<in>set as. area_ok a) \<and> sorted_wrt (\<lambda>a b. area_end a < unat (a_addr b)) as"

definition area_bytes :: "area \<Rightarrow> nat set" where
  "area_bytes a = {unat (a_addr a) ..< area_end a}"

definition free_bytes :: "memory_map \<Rightarrow> nat set" where
  "free_bytes as = (\<Union>a\<in>set as. area_bytes a)"

lemma mm_inv_Nil [simp]: "mm_inv []"
  by (simp add: mm_inv_def)

lemma mm_inv_Cons:
  "mm_inv (a # as) \<longleftrightarrow> area_ok a \<and> (\<forall>b\<in>set as. area_end a < unat (a_addr b)) \<and> mm_inv as"
  by (auto simp: mm_inv_def)

lemma mm_inv_append:
  "mm_inv (as @ bs) \<longleftrightarrow> mm_inv as \<and> mm_inv bs \<and> (\<forall>a\<in>set as. \<forall>b\<in>set bs. area_end a < unat (a_addr b))"
  by (auto simp: mm_inv_def sorted_wrt_append)

lemma free_bytes_simps [simp]:
  "free_bytes [] = {}" "free_bytes (a # as) = area_bytes a \<union> free_bytes as"
  "free_bytes (as @ bs) = free_bytes as \<union> free_bytes bs"
  by (auto simp: free_bytes_def)

lemmas mm_simps = mm_inv_Cons mm_inv_append area_ok_def

text \<open>Taking a prefix of an area.\<close>

lemma area_front:
  assumes "area_ok a" and "sz \<le> a_size a"
  shows "unat (a_size a - sz) = unat (a_size a) - unat sz" "unat (a_addr a + sz) = unat (a_addr a) + unat sz"
proof -
  have le: "unat sz \<le> unat (a_size a)" using assms(2) by (simp add: word_le_nat_alt)
  then show "unat (a_size a - sz) = unat (a_size a) - unat sz" by (rule unat_minus_nowrap)
  show "unat (a_addr a + sz) = unat (a_addr a) + unat sz"
    using assms(1) le by (intro unat_plus_nowrap) (simp add: area_ok_def area_end_def)
qed

section \<open>First fit\<close>

lemma mm_allocate_none: "\<forall>a\<in>set as. a_size a < sz \<Longrightarrow> mm_allocate sz as = (-1, as)"
  by (induction as) (auto simp: not_le)

lemma mm_allocate_first:
  "\<forall>b\<in>set pre. a_size b < sz \<Longrightarrow> sz \<le> a_size a \<Longrightarrow>
   mm_allocate sz (pre @ a # post) =
     (a_addr a, pre @ (if a_size a = sz then post
        else a\<lparr>a_size := a_size a - sz, a_addr := a_addr a + sz\<rparr> # post))"
  by (induction pre) (auto simp: not_le Let_def)

lemma mm_allocate_cases:
  assumes "mm_inv as"
  obtains (full) "\<forall>a\<in>set as. a_size a < sz" "mm_allocate sz as = (-1, as)"
  | (fit) pre a post where "as = pre @ a # post" "\<forall>b\<in>set pre. a_size b < sz" "sz \<le> a_size a" "area_ok a"
      "mm_allocate sz as = (a_addr a, pre @ (if a_size a = sz then post
        else a\<lparr>a_size := a_size a - sz, a_addr := a_addr a + sz\<rparr> # post))"
proof (cases "\<exists>a\<in>set as. sz \<le> a_size a")
  case True
  then obtain pre a post where as: "as = pre @ a # post" "sz \<le> a_size a" "\<forall>b\<in>set pre. \<not> sz \<le> a_size b"
    using split_list_first_prop [of as "\<lambda>a. sz \<le> a_size a"] by auto
  then have "\<forall>b\<in>set pre. a_size b < sz" by (simp add: not_le)
  moreover have "area_ok a" using assms as by (simp add: mm_simps)
  ultimately show ?thesis using as mm_allocate_first [of pre sz a post] by (intro fit) simp_all
next
  case False
  then have "\<forall>a\<in>set as. a_size a < sz" by (simp add: not_le)
  then show ?thesis using mm_allocate_none by (intro full) blast+
qed

lemma area_bytes_front:
  assumes "area_ok a" and "sz \<le> a_size a" and "a_size a \<noteq> sz"
  defines "a' \<equiv> a\<lparr>a_size := a_size a - sz, a_addr := a_addr a + sz\<rparr>"
  shows "area_ok a'" "area_end a' = area_end a" "unat (a_addr a) \<le> unat (a_addr a')"
    "area_bytes a' = area_bytes a - region_bytes (a_addr a, sz)"
proof -
  note f = area_front [OF assms(1,2)]
  have "unat sz \<noteq> unat (a_size a)" using assms(3) by (metis word_unat_eq_iff)
  then have lt: "unat sz < unat (a_size a)" using assms(2) by (simp add: word_le_nat_alt)
  then show e: "area_end a' = area_end a" using f by (simp add: a'_def area_end_def)
  show "area_ok a'" using e lt f assms(1) by (simp add: area_ok_def a'_def)
  show "unat (a_addr a) \<le> unat (a_addr a')" using f by (simp add: a'_def)
  show "area_bytes a' = area_bytes a - region_bytes (a_addr a, sz)"
    unfolding area_bytes_def e using f by (auto simp: a'_def)
qed

lemma area_bytes_all: "area_bytes a = region_bytes (a_addr a, a_size a)"
  by (simp add: area_bytes_def area_end_def)

lemma areas_disjoint:
  assumes "mm_inv (pre @ a # post)"
  shows "free_bytes pre \<inter> area_bytes a = {}" "free_bytes post \<inter> area_bytes a = {}"
proof -
  have "\<forall>b\<in>set pre. area_end b < unat (a_addr a)" "\<forall>b\<in>set post. area_end a < unat (a_addr b)"
    using assms by (auto simp: mm_simps)
  then show "free_bytes pre \<inter> area_bytes a = {}" "free_bytes post \<inter> area_bytes a = {}"
    by (fastforce simp: free_bytes_def area_bytes_def)+
qed

lemma area_ok_region: "area_ok a \<Longrightarrow> sz \<le> a_size a \<Longrightarrow>
    a_addr a \<noteq> -1 \<and> unat (a_addr a) + unat sz < 2 ^ 64 \<and> region_bytes (a_addr a, sz) \<subseteq> area_bytes a"
proof -
  assume a: "area_ok a" "sz \<le> a_size a"
  then have "unat sz \<le> unat (a_size a)" by (simp add: word_le_nat_alt)
  moreover have "unat (a_addr a) \<noteq> unat (-1 :: u64)" using a(1)
    by (auto simp: area_ok_def area_end_def unat_minus_one)
  ultimately show ?thesis using a(1) by (auto simp: area_ok_def area_end_def area_bytes_def)
qed

lemma mm_allocate_ok:
  assumes inv: "mm_inv as" and sz: "0 < sz" and al: "mm_allocate sz as = (res, as')" and res: "res \<noteq> -1"
  shows "mm_inv as' \<and> unat res + unat sz < 2 ^ 64 \<and> region_bytes (res, sz) \<subseteq> free_bytes as \<and>
    free_bytes as' = free_bytes as - region_bytes (res, sz)"
  using inv
proof (cases rule: mm_allocate_cases [where sz = sz, case_names full fit])
  case full
  then show ?thesis using al res by simp
next
  case (fit pre a post)
  note [simp] = fit(1)
  note d = areas_disjoint [OF inv [unfolded fit(1)]] and r = area_ok_region [OF fit(4,3)]
  have res': "res = a_addr a" using fit(5) al by simp
  show ?thesis
  proof (cases "a_size a = sz")
    case True
    then have "as' = pre @ post" using fit(5) al by simp
    moreover have "mm_inv (pre @ post)" using inv by (auto simp: mm_simps)
    ultimately show ?thesis using True d r res' by (auto simp: area_bytes_all)
  next
    case False
    note fr = area_bytes_front [OF fit(4,3) False]
    have "as' = pre @ a\<lparr>a_size := a_size a - sz, a_addr := a_addr a + sz\<rparr> # post"
      using False fit(5) al by auto
    moreover have "mm_inv \<dots>" using inv fr(1-3) by (fastforce simp: mm_inv_Cons mm_inv_append)
    ultimately show ?thesis using d r fr(4) res' by auto
  qed
qed

lemma mm_allocate_fail: "mm_inv as \<Longrightarrow> mm_allocate sz as = (-1, as') \<Longrightarrow> as' = as"
  by (rule mm_allocate_cases [of as sz]) (auto dest: area_ok_region)

section \<open>Releasing\<close>

text \<open>The areas a released region falls between.\<close>

lemma released_between:
  assumes inv: "mm_inv (before @ behind)"
    and before: "\<forall>b\<in>set before. a_addr b < addr" and behind: "behind \<noteq> [] \<longrightarrow> addr \<le> a_addr (hd behind)"
    and sz: "0 < sz" and dis: "region_bytes (addr, sz) \<inter> free_bytes (before @ behind) = {}"
  shows "\<forall>b\<in>set before. area_end b \<le> unat addr" "\<forall>b\<in>set behind. unat addr + unat sz \<le> unat (a_addr b)"
proof -
  have 0: "0 < unat sz" using sz by (simp add: word_less_nat_alt)
  have sep: "area_end b \<le> unat addr \<or> unat addr + unat sz \<le> unat (a_addr b)"
    if "b \<in> set (before @ behind)" for b
  proof -
    have "area_ok b" using inv that by (auto simp: mm_inv_def)
    moreover have "{unat addr..<unat addr + unat sz} \<inter> {unat (a_addr b)..<area_end b} = {}"
      using dis that unfolding free_bytes_def area_bytes_def region_bytes.simps by blast
    ultimately show ?thesis using 0 by (intro intervals_apart) (auto simp: area_ok_def area_end_def)
  qed
  show "\<forall>b\<in>set before. area_end b \<le> unat addr"
    using sep before by (fastforce simp: word_less_nat_alt)
  have "unat addr \<le> unat (a_addr b)" if "b \<in> set behind" for b
  proof (cases behind)
    case (Cons n post)
    then have "unat addr \<le> unat (a_addr n)" using behind by (simp add: word_le_nat_alt)
    moreover have "b = n \<or> area_end n < unat (a_addr b)"
      using inv Cons that by (auto simp: mm_simps)
    ultimately show ?thesis by (auto simp: area_end_def)
  qed (use that in simp)
  moreover have "unat (a_addr b) < area_end b" if "b \<in> set behind" for b
    using inv that by (auto simp: mm_inv_def area_ok_def area_end_def)
  ultimately show "\<forall>b\<in>set behind. unat addr + unat sz \<le> unat (a_addr b)"
    using sep by fastforce
qed

lemma area_end_word: "area_ok a \<Longrightarrow> unat (a_addr a + a_size a) = area_end a"
  by (simp add: area_ok_def area_end_def unat_plus_nowrap)

lemma mm_free_split:
  assumes "as = before @ behind" "\<forall>b\<in>set before. a_addr b < addr"
    "behind \<noteq> [] \<longrightarrow> addr \<le> a_addr (hd behind)"
  shows "takeWhile (\<lambda>n. addr > a_addr n) as = before" "dropWhile (\<lambda>n. addr > a_addr n) as = behind"
  using assms by (cases behind; auto simp: takeWhile_append dropWhile_append not_less)+

text \<open>The neighbours of the released region: \<open>p\<close> in front of it, \<open>n\<close> behind it.\<close>

lemma front_neighbour:
  assumes "mm_inv (before @ behind)" and "\<forall>b\<in>set before. area_end b \<le> unat addr"
  shows "if before \<noteq> [] \<and> a_addr (last before) + a_size (last before) = addr
    then area_end (last before) = unat addr else \<forall>b\<in>set before. area_end b < unat addr"
proof (cases before rule: rev_cases)
  case (snoc pre p)
  have p: "area_ok p" and pre: "\<forall>b\<in>set pre. area_end b < unat (a_addr p)"
    using assms(1) snoc by (auto simp: mm_simps)
  have "unat (a_addr p) < area_end p" using p by (simp add: area_ok_def area_end_def)
  moreover have "a_addr p + a_size p = addr \<longleftrightarrow> area_end p = unat addr"
    using area_end_word [OF p] by (metis word_unat_eq_iff)
  ultimately show ?thesis using assms(2) pre snoc by force
qed simp

lemma rear_neighbour:
  assumes "mm_inv behind" and "\<forall>b\<in>set behind. unat addr + unat sz \<le> unat (a_addr b)"
    and "unat addr + unat sz < 2 ^ 64"
  shows "if behind \<noteq> [] \<and> addr + sz = a_addr (hd behind)
    then unat (a_addr (hd behind)) = unat addr + unat sz
    else \<forall>b\<in>set behind. unat addr + unat sz < unat (a_addr b)"
proof (cases behind)
  case (Cons n post)
  have "\<forall>b\<in>set post. unat (a_addr n) < unat (a_addr b)"
    using assms(1) Cons by (force simp: mm_simps area_end_def)
  moreover have "addr + sz = a_addr n \<longleftrightarrow> unat addr + unat sz = unat (a_addr n)"
    using unat_plus_nowrap [of addr sz] assms(3) by (simp add: word_unat_eq_iff)
  ultimately show ?thesis using assms(2) Cons by force
qed simp

text \<open>Replacing the areas \<open>mid\<close> by one area \<open>m\<close> that covers them and the region.\<close>

lemma merge_areas:
  assumes inv: "mm_inv (pre @ mid @ post)" and m: "area_ok m"
    and gaps: "\<forall>b\<in>set pre. area_end b < unat (a_addr m)" "\<forall>b\<in>set post. area_end m < unat (a_addr b)"
    and bytes: "area_bytes m = free_bytes mid \<union> r"
  shows "mm_inv (pre @ m # post) \<and> free_bytes (pre @ m # post) = free_bytes (pre @ mid @ post) \<union> r"
  using assms by (auto simp: mm_inv_append mm_inv_Cons)

lemma area_grow:
  assumes "area_ok p" and "area_end p + unat k < 2 ^ 64"
  defines "m \<equiv> p\<lparr>a_size := a_size p + k\<rparr>"
  shows "area_ok m" "a_addr m = a_addr p" "area_end m = area_end p + unat k"
    "area_bytes m = area_bytes p \<union> {area_end p ..< area_end p + unat k}"
proof -
  have "unat (a_size p + k) = unat (a_size p) + unat k"
    using assms(2) by (intro unat_plus_nowrap) (simp add: area_end_def)
  then show e: "area_end m = area_end p + unat k" and "area_ok m" and "a_addr m = a_addr p"
    using assms(1,2) by (simp_all add: m_def area_end_def area_ok_def)
  then show "area_bytes m = area_bytes p \<union> {area_end p ..< area_end p + unat k}"
    by (auto simp: area_bytes_def area_end_def)
qed

lemma area_grow_front:
  assumes "area_ok n" and "unat (a_addr n) = unat addr + unat sz"
  defines "m \<equiv> n\<lparr>a_addr := a_addr n - sz, a_size := a_size n + sz\<rparr>"
  shows "area_ok m" "unat (a_addr m) = unat addr" "area_end m = area_end n"
    "area_bytes m = region_bytes (addr, sz) \<union> area_bytes n"
proof -
  have "unat (a_addr n - sz) = unat addr"
    using assms(2) unat_minus_nowrap [of sz "a_addr n"] by simp
  moreover have "unat (a_size n + sz) = unat (a_size n) + unat sz"
    using assms(1,2) by (intro unat_plus_nowrap) (simp add: area_end_def area_ok_def)
  ultimately show e: "area_end m = area_end n" "unat (a_addr m) = unat addr" and "area_ok m"
    using assms(1,2) by (simp_all add: m_def area_end_def area_ok_def)
  then show "area_bytes m = region_bytes (addr, sz) \<union> area_bytes n"
    using assms(2) by (auto simp: area_bytes_def area_end_def)
qed

text \<open>The four ways \<^verbatim>\<open>free\<close> links the region in.\<close>

lemma link_both:
  assumes inv: "mm_inv (pre @ [p, n] @ post)" and "area_end p = unat addr" "unat (a_addr n) = unat addr + unat sz"
  defines "m \<equiv> p\<lparr>a_size := a_size p + (sz + a_size n)\<rparr>"
  shows "mm_inv (pre @ m # post) \<and>
    free_bytes (pre @ m # post) = free_bytes (pre @ [p, n] @ post) \<union> region_bytes (addr, sz)"
proof -
  have n: "unat addr + unat sz + unat (a_size n) < 2 ^ 64" and p: "area_ok p"
    using inv assms(3) by (auto simp: mm_simps area_end_def)
  then have k: "unat (sz + a_size n) = unat sz + unat (a_size n)" by (intro unat_plus_nowrap) simp
  have e: "area_end n = unat addr + unat (sz + a_size n)" using assms(3) k by (simp add: area_end_def)
  have "area_end p + unat (sz + a_size n) < 2 ^ 64" using n k assms(2) by linarith
  note g = area_grow [OF p this, folded m_def]
  have em: "area_end m = area_end n" using g(3) e assms(2) by simp
  have "{unat addr..<unat addr + (unat sz + unat (a_size n))} = region_bytes (addr, sz) \<union> area_bytes n"
    using e k assms(3) by (auto simp: area_bytes_def)
  then have b: "area_bytes m = free_bytes [p, n] \<union> region_bytes (addr, sz)"
    using g(4) k assms(2) by (simp add: Un_ac)
  show ?thesis
    by (rule merge_areas [OF inv g(1) _ _ b]) (use inv g(2) em in \<open>auto simp: mm_inv_append mm_inv_Cons\<close>)
qed

lemma link_front:
  assumes inv: "mm_inv (pre @ [p] @ behind)" and "area_end p = unat addr" "unat addr + unat sz < 2 ^ 64"
    and behind: "\<forall>b\<in>set behind. unat addr + unat sz < unat (a_addr b)"
  defines "m \<equiv> p\<lparr>a_size := a_size p + sz\<rparr>"
  shows "mm_inv (pre @ m # behind) \<and>
    free_bytes (pre @ m # behind) = free_bytes (pre @ [p] @ behind) \<union> region_bytes (addr, sz)"
proof -
  have p: "area_ok p" using inv by (simp add: mm_inv_append mm_inv_Cons)
  note g = area_grow [OF p, of sz, folded m_def]
  show ?thesis
    by (rule merge_areas [OF inv]) (use inv g assms(2-4) in \<open>auto simp: mm_inv_append mm_inv_Cons\<close>)
qed

lemma link_rear:
  assumes inv: "mm_inv (before @ [n] @ post)" and "unat (a_addr n) = unat addr + unat sz"
    and before: "\<forall>b\<in>set before. area_end b < unat addr"
  defines "m \<equiv> n\<lparr>a_addr := a_addr n - sz, a_size := a_size n + sz\<rparr>"
  shows "mm_inv (before @ m # post) \<and>
    free_bytes (before @ m # post) = free_bytes (before @ [n] @ post) \<union> region_bytes (addr, sz)"
proof -
  have n: "area_ok n" using inv by (simp add: mm_inv_append mm_inv_Cons)
  note g = area_grow_front [OF n assms(2), folded m_def]
  show ?thesis
    by (rule merge_areas [OF inv]) (use inv g before in \<open>auto simp: mm_inv_append mm_inv_Cons\<close>)
qed

lemma link_new:
  assumes inv: "mm_inv (before @ [] @ behind)" and "0 < unat sz" "unat addr + unat sz < 2 ^ 64"
    and before: "\<forall>b\<in>set before. area_end b < unat addr"
    and behind: "\<forall>b\<in>set behind. unat addr + unat sz < unat (a_addr b)"
  shows "mm_inv (before @ \<lparr>a_addr = addr, a_size = sz\<rparr> # behind) \<and>
    free_bytes (before @ \<lparr>a_addr = addr, a_size = sz\<rparr> # behind) =
      free_bytes (before @ [] @ behind) \<union> region_bytes (addr, sz)"
  by (rule merge_areas [OF inv]) (use assms in \<open>auto simp: area_ok_def area_end_def area_bytes_def\<close>)

lemma mm_free_ok:
  assumes inv: "mm_inv as" and sz: "0 < sz" and fits: "unat addr + unat sz < 2 ^ 64"
    and dis: "region_bytes (addr, sz) \<inter> free_bytes as = {}"
  shows "mm_inv (mm_free addr sz as) \<and> free_bytes (mm_free addr sz as) = free_bytes as \<union> region_bytes (addr, sz)"
proof -
  define before where "before = takeWhile (\<lambda>n. addr > a_addr n) as"
  define behind where "behind = dropWhile (\<lambda>n. addr > a_addr n) as"
  have as: "as = before @ behind" by (simp add: before_def behind_def)
  have b1: "\<forall>b\<in>set before. a_addr b < addr" by (auto simp: before_def dest: set_takeWhileD)
  have b2: "behind \<noteq> [] \<longrightarrow> addr \<le> a_addr (hd behind)"
    using hd_dropWhile [of "\<lambda>n. addr > a_addr n" as] by (auto simp: behind_def not_less)
  note inv' = inv [unfolded as]
  have behind_inv: "mm_inv behind" using inv' by (simp add: mm_inv_append)
  note btw = released_between [OF inv' b1 b2 sz dis [unfolded as]]
  note p = front_neighbour [OF inv' btw(1)] and n = rear_neighbour [OF behind_inv btw(2) fits]
  let ?p = "before \<noteq> [] \<and> a_addr (last before) + a_size (last before) = addr"
  let ?n = "behind \<noteq> [] \<and> addr + sz = a_addr (hd behind)"
  have 0: "0 < unat sz" using sz by (simp add: word_less_nat_alt)
  note free = mm_free_def [of addr sz as, unfolded Let_def, folded before_def behind_def]
  consider ?p ?n | ?p "\<not> ?n" | "\<not> ?p" ?n | "\<not> ?p" "\<not> ?n" by blast
  then show ?thesis
  proof cases
    case 1
    then have eq: "as = butlast before @ [last before, hd behind] @ tl behind" using as by simp
    show ?thesis using link_both [OF inv [unfolded eq], folded eq, of addr sz] 1 p n
      by (simp only: free if_True simp_thms)
  next
    case 2
    then have eq: "as = butlast before @ [last before] @ behind" using as by simp
    show ?thesis using link_front [OF inv [unfolded eq], folded eq, of addr sz] 2 p n fits
      by (simp only: free if_True if_False simp_thms)
  next
    case 3
    then have eq: "as = before @ [hd behind] @ tl behind" using as by simp
    show ?thesis using link_rear [OF inv [unfolded eq], folded eq, of addr sz] 3 p n
      by (simp only: free if_True if_False simp_thms)
  next
    case 4
    then show ?thesis using link_new [of before behind sz addr, simplified append_Nil, folded as] inv 0 p n fits
      by (simp only: free if_True if_False simp_thms)
  qed
qed

interpretation mmap: region_allocator mm_allocate mm_free free_bytes mm_inv
  by unfold_locales (rule mm_allocate_fail mm_allocate_ok mm_free_ok; assumption)+

section \<open>Counting\<close>

lemma mm_get_size_foldl:
  "foldl (\<lambda>(total, areas) a. (total + a_size a, areas + 1)) (t, c) as =
     (t + sum_list (map a_size as), c + of_nat (length as))"
  by (induction as arbitrary: t c) (simp_all add: algebra_simps)

lemma finite_free_bytes [simp]: "finite (free_bytes as)"
  by (simp add: free_bytes_def area_bytes_def)

lemma free_bytes_bound: "mm_inv as \<Longrightarrow> free_bytes as \<subseteq> {..<2 ^ 64}"
  by (auto simp: mm_inv_def free_bytes_def area_bytes_def area_ok_def)

lemma card_free_bytes: "mm_inv as \<Longrightarrow> card (free_bytes as) = sum_list (map (\<lambda>a. unat (a_size a)) as)"
proof (induction as)
  case (Cons a as)
  have "area_bytes a \<inter> free_bytes as = {}"
    using areas_disjoint(2) [of "[]" a as] Cons.prems by auto
  moreover have "card (area_bytes a) = unat (a_size a)" by (simp add: area_bytes_def area_end_def)
  moreover have "mm_inv as" using Cons.prems by (simp add: mm_inv_Cons)
  moreover have "finite (area_bytes a)" by (simp add: area_bytes_def)
  ultimately show ?case using Cons.IH by (simp add: card_Un_disjoint)
qed simp

lemma unat_sum_list_mod: "unat (sum_list ws :: u64) = sum_list (map unat ws) mod 2 ^ 64"
  by (induction ws) (simp_all add: unat_word_ariths mod_simps)

section \<open>Detaching memory from the rear\<close>

text \<open>An area from which \<^verbatim>\<open>detach\<close> computes without wrap-around: it reaches the next page boundary.\<close>

definition page_ceil :: "nat \<Rightarrow> nat" where
  "page_ceil n = (n + 4095) div 4096 * 4096"

definition reaches_page :: "area \<Rightarrow> bool" where
  "reaches_page a \<longleftrightarrow> page_ceil (unat (a_addr a)) \<le> area_end a"

lemma PAGE_SIZE_pow2: "PAGE_SIZE = 2 ^ 12"
  by (simp add: PAGE_SIZE_def)

lemma PAGE_MASK_mask: "PAGE_MASK = mask 12"
  by (simp add: PAGE_MASK_def PAGE_SIZE_def mask_eq_exp_minus_1)

lemma and_PAGE_MASK: "w AND PAGE_MASK = 0 \<longleftrightarrow> 4096 dvd unat w"
proof -
  have "unat (w AND PAGE_MASK) = unat w mod 2 ^ 12"
    by (simp only: PAGE_MASK_mask take_bit_eq_mask [symmetric] unsigned_take_bit_eq)
      (simp only: take_bit_eq_mod)
  moreover have "w AND PAGE_MASK = 0 \<longleftrightarrow> unat (w AND PAGE_MASK) = 0"
    by (simp add: unat_eq_zero)
  ultimately show ?thesis by (simp add: dvd_eq_mod_eq_0)
qed

lemma le_page_ceil: "n \<le> page_ceil n"
  using le_ceil_mult [of 4096 n] by (simp add: page_ceil_def)

lemma page_ceil_dvd [simp]: "4096 dvd page_ceil n"
  by (simp add: page_ceil_def)

lemma detach_fits_iff:
  assumes "area_ok a" and "reaches_page a"
  shows "detach_fits sz a \<longleftrightarrow> page_ceil (unat (a_addr a)) + unat sz \<le> area_end a"
proof -
  let ?A = "unat (a_addr a)" and ?R = "page_ceil (unat (a_addr a))"
  have "?R < 2 ^ 64" using assms by (simp add: area_ok_def reaches_page_def)
  then have "?A + 2 ^ 12 \<le> 2 ^ 64" by (simp add: page_ceil_def)
  then have up: "unat (round_up (a_addr a) PAGE_SIZE) = ?R"
    using round_up_pow2 [of 12 "a_addr a"] by (simp add: PAGE_SIZE_pow2 page_ceil_def)
  then have gap: "unat (round_up (a_addr a) PAGE_SIZE - a_addr a) = ?R - ?A"
    using unat_minus_nowrap [of "a_addr a" "round_up (a_addr a) PAGE_SIZE"] le_page_ceil [of ?A] by simp
  have "?R - ?A \<le> unat (a_size a)"
    using assms(2) le_page_ceil [of ?A] by (simp add: reaches_page_def area_end_def)
  then have "unat (a_size a - (round_up (a_addr a) PAGE_SIZE - a_addr a)) = unat (a_size a) - (?R - ?A)"
    using gap unat_minus_nowrap [of "round_up (a_addr a) PAGE_SIZE - a_addr a" "a_size a"] by simp
  then show ?thesis
    using le_page_ceil [of ?A] \<open>?R - ?A \<le> unat (a_size a)\<close>
    by (simp add: detach_fits_def word_le_nat_alt area_end_def) linarith
qed

lemma detach_search_Some:
  "detach_search sz as k p = Some (i, q) \<Longrightarrow> 0 < k \<Longrightarrow>
     i < k \<and> detach_fits sz (as ! i) \<and> (\<forall>j. i < j \<longrightarrow> j < k \<longrightarrow> \<not> detach_fits sz (as ! j)) \<and>
     q = (if 0 < i then Some (i - 1) else if k = 1 then p else Some 0)"
proof (induction k arbitrary: p)
  case (Suc j)
  show ?case
  proof (cases "detach_fits sz (as ! j)")
    case True
    then show ?thesis using Suc.prems by (auto simp: Let_def split: if_splits)
  next
    case False
    then have s: "detach_search sz as j (if j = 0 then p else Some (j - 1)) = Some (i, q)"
      using Suc.prems by (simp add: Let_def)
    then have "0 < j" using False by (cases j) auto
    then show ?thesis using Suc.IH [OF s] False less_Suc_eq by auto
  qed
qed simp

lemma detach_search_None:
  "detach_search sz as k p = None \<Longrightarrow> 0 < k \<Longrightarrow> j < k \<Longrightarrow> \<not> detach_fits sz (as ! j)"
proof (induction k arbitrary: p)
  case (Suc i)
  then show ?case by (cases i) (auto simp: Let_def less_Suc_eq split: if_splits)
qed simp

definition page_floor :: "nat \<Rightarrow> nat" where
  "page_floor n = n - n mod 4096"

lemma page_floor_greatest: "4096 dvd m \<Longrightarrow> m \<le> n \<Longrightarrow> m \<le> page_floor n"
  by (auto simp: page_floor_def minus_mod_eq_div_mult div_le_mono mult.commute elim!: dvdE)

lemma page_floor_le: "page_floor n \<le> n"
  by (simp add: page_floor_def)

lemma page_floor_dvd [simp]: "4096 dvd page_floor n"
  by (simp add: page_floor_def minus_mod_eq_div_mult)

text \<open>What \<^verbatim>\<open>detach\<close> leaves of the area: the part in front of the detached pages and the tail behind
  the last page boundary.\<close>

definition detach_front :: "u64 \<Rightarrow> area \<Rightarrow> area" where
  "detach_front sz a = a\<lparr>a_size := word_of_nat (page_floor (area_end a) - unat sz - unat (a_addr a))\<rparr>"

definition detach_tail :: "area \<Rightarrow> area" where
  "detach_tail a = \<lparr>a_addr = word_of_nat (page_floor (area_end a)),
     a_size = word_of_nat (area_end a - page_floor (area_end a))\<rparr>"

definition detach_left :: "u64 \<Rightarrow> area \<Rightarrow> area list" where
  "detach_left sz a = filter (\<lambda>b. a_size b \<noteq> 0) [detach_front sz a, detach_tail a]"

lemma unat_eqI: "unat w = n \<Longrightarrow> w = word_of_nat n"
  by auto

lemma detach_at_words:
  assumes a: "area_ok a" "reaches_page a" "detach_fits sz a" and sz: "sz AND PAGE_MASK = 0"
  shows "round_dn (a_addr a + a_size a) PAGE_SIZE = word_of_nat (page_floor (area_end a))"
    and "page_ceil (unat (a_addr a)) + unat sz \<le> page_floor (area_end a)"
    and "unat (word_of_nat (page_floor (area_end a)) :: u64) = page_floor (area_end a)"
    and "(a_addr a + a_size a) AND PAGE_MASK \<noteq> 0 \<longleftrightarrow> page_floor (area_end a) < area_end a"
proof -
  let ?E = "area_end a"
  have e: "unat (a_addr a + a_size a) = ?E" using a(1) by (rule area_end_word)
  have lt: "?E < 2 ^ 64" using a(1) by (simp add: area_ok_def)
  show "round_dn (a_addr a + a_size a) PAGE_SIZE = word_of_nat (page_floor ?E)"
    by (rule unat_eqI) (simp only: PAGE_SIZE_pow2 round_dn_pow2 e, simp add: page_floor_def)
  have d: "4096 dvd unat sz" using sz by (simp only: and_PAGE_MASK)
  have "page_ceil (unat (a_addr a)) + unat sz \<le> ?E" using a detach_fits_iff by blast
  then show "page_ceil (unat (a_addr a)) + unat sz \<le> page_floor ?E"
    using d by (intro page_floor_greatest dvd_add) simp_all
  show "unat (word_of_nat (page_floor ?E) :: u64) = page_floor ?E"
    using lt page_floor_le [of ?E] by (simp add: unat_of_nat)
  show "(a_addr a + a_size a) AND PAGE_MASK \<noteq> 0 \<longleftrightarrow> page_floor ?E < ?E"
    using mod_less_eq_dividend [of ?E 4096]
    by (simp add: and_PAGE_MASK e page_floor_def dvd_eq_mod_eq_0) linarith
qed

lemma detach_at_sizes:
  assumes a: "area_ok a" "reaches_page a" "detach_fits sz a" and sz: "sz AND PAGE_MASK = 0"
  defines "w \<equiv> a_addr a + a_size a" and "F \<equiv> word_of_nat (page_floor (area_end a)) :: u64"
  shows "F - sz = word_of_nat (page_floor (area_end a) - unat sz)"
    and "w - F = word_of_nat (area_end a - page_floor (area_end a))"
    and "a_size a - (sz + (w - F)) = word_of_nat (page_floor (area_end a) - unat sz - unat (a_addr a))"
    and "page_floor (area_end a) = area_end a \<Longrightarrow> w = F"
proof -
  let ?E = "area_end a" and ?pf = "page_floor (area_end a)"
  note dw = detach_at_words [OF a sz]
  have w: "unat w = ?E" unfolding w_def using a(1) by (rule area_end_word)
  have F: "unat F = ?pf" unfolding F_def by (rule dw(3))
  have le: "unat (a_addr a) + unat sz \<le> ?pf" using dw(2) le_page_ceil [of "unat (a_addr a)"] by linarith
  have pE: "?pf \<le> ?E" by (rule page_floor_le)
  have lt: "?E < 2 ^ 64" and E: "?E = unat (a_addr a) + unat (a_size a)"
    using a(1) by (simp_all add: area_ok_def area_end_def)
  show "F - sz = word_of_nat (?pf - unat sz)"
    using F le unat_minus_nowrap [of sz F] by (intro unat_eqI) linarith
  have wF: "unat (w - F) = ?E - ?pf" using F w pE unat_minus_nowrap [of F w] by simp
  then show "w - F = word_of_nat (?E - ?pf)" by (rule unat_eqI)
  have s: "unat (sz + (w - F)) = unat sz + (?E - ?pf)"
    using wF le pE lt unat_plus_nowrap [of sz "w - F"] by simp
  then have "unat (sz + (w - F)) \<le> unat (a_size a)" using le pE E by linarith
  then have "unat (a_size a - (sz + (w - F))) = ?pf - unat sz - unat (a_addr a)"
    using s le pE E unat_minus_nowrap [of "sz + (w - F)" "a_size a"] by linarith
  then show "a_size a - (sz + (w - F)) = word_of_nat (?pf - unat sz - unat (a_addr a))" by (rule unat_eqI)
  show "w = F" if "?pf = ?E" using that w F by (simp add: word_unat_eq_iff)
qed

lemma detach_at_eq:
  assumes a: "area_ok a" "reaches_page a" "detach_fits sz a" and sz: "sz AND PAGE_MASK = 0"
    and q: "q = (if pre \<noteq> [] then Some (length pre - 1) else if post = [] then None else Some 0)"
  shows "detach_at sz (pre @ a # post) (length pre) q =
    (if a_size (detach_front sz a) = 0 \<and> pre = [] \<and> post \<noteq> [] then Inl Use_after_free
     else Inr (word_of_nat (page_floor (area_end a) - unat sz), pre @ detach_left sz a @ post))"
proof -
  let ?pf = "page_floor (area_end a)"
  define F :: u64 where "F = word_of_nat ?pf"
  note dw = detach_at_words [OF a sz, folded F_def] and ds = detach_at_sizes [OF a sz, folded F_def]
  let ?w = "a_addr a + a_size a"
  have front: "detach_front sz a = a\<lparr>a_size := a_size a - (sz + (?w - F))\<rparr>"
    unfolding detach_front_def ds(3) ..
  have tail: "detach_tail a = \<lparr>a_addr = F, a_size = ?w - F\<rparr>"
    by (simp add: detach_tail_def ds(2) F_def [symmetric])
  have take: "take (Suc (length pre - 1)) (pre @ a # post) = pre" if "pre \<noteq> []"
    using that by (cases pre) simp_all
  have pred: "length pre - Suc 0 \<noteq> length pre" if "pre \<noteq> []" using that by (cases pre) simp_all
  have drop: "drop (Suc (length pre)) (pre @ a # post) = post" by simp
  have unaligned: "?w AND PAGE_MASK \<noteq> 0 \<longleftrightarrow> ?w \<noteq> F"
    using dw(3,4) ds(4) page_floor_le [of "area_end a"] area_end_word [OF a(1)] by force
  show ?thesis
    unfolding detach_at_def Let_def nth_append_length drop unaligned dw(1) ds(1) [symmetric]
    using q take pred by (cases "?w = F") (auto simp: front tail detach_left_def)
qed

lemma detach_left_ok:
  assumes a: "area_ok a" "reaches_page a" "detach_fits sz a" and sz: "sz AND PAGE_MASK = 0" "0 < sz"
  defines "res \<equiv> word_of_nat (page_floor (area_end a) - unat sz) :: u64"
  shows "unat res = page_floor (area_end a) - unat sz" "mm_inv (detach_left sz a)"
    "region_bytes (res, sz) \<subseteq> area_bytes a"
    "free_bytes (detach_left sz a) = area_bytes a - region_bytes (res, sz)"
    "\<forall>b\<in>set (detach_left sz a). unat (a_addr a) \<le> unat (a_addr b) \<and> area_end b \<le> area_end a"
proof -
  let ?E = "area_end a" and ?pf = "page_floor (area_end a)" and ?A = "unat (a_addr a)"
  have le: "?A + unat sz \<le> ?pf" "?pf \<le> ?E"
    using detach_at_words(2) [OF a sz(1)] le_page_ceil [of ?A] page_floor_le [of ?E] by linarith+
  have lt: "?E < 2 ^ 64" and 0: "0 < unat sz"
    using a(1) sz(2) by (simp_all add: area_ok_def word_less_nat_alt)
  have small: "unat (word_of_nat n :: u64) = n" if "n \<le> ?E" for n
    using lt that by (simp add: unat_of_nat)
  have zero: "(word_of_nat n :: u64) = 0 \<longleftrightarrow> n = 0" if "n \<le> ?E" for n
    by (simp only: unat_eq_zero [symmetric] small [OF that])
  show r: "unat res = ?pf - unat sz" unfolding res_def by (rule small) (use le in linarith)
  have reg: "region_bytes (res, sz) = {?pf - unat sz..<?pf}" using r le by simp
  then show "region_bytes (res, sz) \<subseteq> area_bytes a" using le by (auto simp: area_bytes_def)
  have f: "unat (a_size (detach_front sz a)) = ?pf - unat sz - ?A" "a_addr (detach_front sz a) = a_addr a"
      "a_size (detach_front sz a) = 0 \<longleftrightarrow> ?pf - unat sz - ?A = 0"
    using small le zero by (simp_all add: detach_front_def del: of_nat_diff)
  have t: "unat (a_size (detach_tail a)) = ?E - ?pf" "unat (a_addr (detach_tail a)) = ?pf"
      "a_size (detach_tail a) = 0 \<longleftrightarrow> ?E - ?pf = 0"
    using small le zero by (simp_all add: detach_tail_def del: of_nat_diff)
  have ends: "area_end (detach_front sz a) = ?pf - unat sz" "area_end (detach_tail a) = ?E"
    using f t le by (simp_all add: area_end_def)
  show "mm_inv (detach_left sz a)"
    using le lt 0 f t ends less_imp_diff_less [of ?pf "2 ^ 64" "unat sz"]
    by (simp add: detach_left_def mm_simps)
  show "free_bytes (detach_left sz a) = area_bytes a - region_bytes (res, sz)"
    unfolding reg using le f t ends by (auto simp: detach_left_def area_bytes_def)
  show "\<forall>b\<in>set (detach_left sz a). ?A \<le> unat (a_addr b) \<and> area_end b \<le> ?E"
    using le f t ends by (auto simp: detach_left_def)
qed

lemma detach_front_zero:
  assumes a: "area_ok a" "reaches_page a" "detach_fits sz a" and sz: "sz AND PAGE_MASK = 0"
    and "a_size (detach_front sz a) = 0"
  shows "page_floor (area_end a) = unat (a_addr a) + unat sz"
proof -
  let ?n = "page_floor (area_end a) - unat sz - unat (a_addr a)"
  have le: "unat (a_addr a) + unat sz \<le> page_floor (area_end a)"
    using detach_at_words(2) [OF a sz] le_page_ceil [of "unat (a_addr a)"] by linarith
  have "area_end a < 2 ^ 64" using a(1) by (simp add: area_ok_def)
  then have "?n < 2 ^ 64" using page_floor_le [of "area_end a"] by linarith
  then have "unat (a_size (detach_front sz a)) = ?n"
    by (simp add: detach_front_def unat_of_nat del: of_nat_diff)
  then show ?thesis using assms(5) le by simp
qed

text \<open>Cutting an area in place.\<close>

lemma cut_area:
  assumes inv: "mm_inv (pre @ a # post)" and l: "mm_inv l"
    "\<forall>b\<in>set l. unat (a_addr a) \<le> unat (a_addr b) \<and> area_end b \<le> area_end a"
    and r: "r \<subseteq> area_bytes a" "free_bytes l = area_bytes a - r"
  shows "mm_inv (pre @ l @ post) \<and> r \<subseteq> free_bytes (pre @ a # post) \<and>
    free_bytes (pre @ l @ post) = free_bytes (pre @ a # post) - r"
proof -
  have "mm_inv (pre @ l @ post)" using inv l by (fastforce simp: mm_inv_append mm_inv_Cons)
  then show ?thesis using areas_disjoint [OF inv] r by auto
qed

lemma mm_detach_cases:
  assumes inv: "mm_inv as" and pages: "\<forall>a\<in>set as. reaches_page a"
    and sz: "sz AND PAGE_MASK = 0" "0 < sz"
  obtains (none) "\<forall>a\<in>set as. \<not> detach_fits sz a" "mm_detach sz as = Inr (-1, as)"
  | (cut) pre a post where "as = pre @ a # post" "detach_fits sz a" "\<forall>b\<in>set post. \<not> detach_fits sz b"
      "mm_detach sz as = (if a_size (detach_front sz a) = 0 \<and> pre = [] \<and> post \<noteq> [] then Inl Use_after_free
        else Inr (word_of_nat (page_floor (area_end a) - unat sz), pre @ detach_left sz a @ post))"
proof (cases "detach_search sz as (length as) None")
  case None
  then have "\<forall>a\<in>set as. \<not> detach_fits sz a"
    using detach_search_None [OF None] by (metis in_set_conv_nth length_pos_if_in_set)
  then show ?thesis using None sz by (intro none) (auto simp: mm_detach_def)
next
  case (Some r)
  then obtain i q where s: "detach_search sz as (length as) None = Some (i, q)" by (cases r) auto
  show ?thesis
  proof (cases "as = []")
    case True
    then show ?thesis using sz by (intro none) (auto simp: mm_detach_def)
  next
    case False
    note f = detach_search_Some [OF s]
    define pre a post where "pre = take i as" and "a = as ! i" and "post = drop (Suc i) as"
    have i: "i < length as" using f False by simp
    then have as: "as = pre @ a # post" by (simp add: pre_def a_def post_def id_take_nth_drop)
    have lp: "length pre = i" using i by (simp add: pre_def)
    have q: "q = (if pre \<noteq> [] then Some (length pre - 1) else if post = [] then None else Some 0)"
      using f False lp as by (auto simp: Suc_le_eq)
    have fit: "detach_fits sz a" using f False by (simp add: a_def)
    have "\<forall>b\<in>set post. \<not> detach_fits sz b"
      using f False by (auto simp: post_def in_set_conv_nth)
    moreover have "area_ok a" "reaches_page a" using inv pages as by (simp_all add: mm_inv_append mm_inv_Cons)
    ultimately show ?thesis
      using detach_at_eq [OF _ _ fit sz(1) q, folded as] s sz lp fit False as
      by (intro cut) (simp_all add: mm_detach_def)
  qed
qed

section \<open>The free list is determined by the free bytes\<close>

lemma head_addr_least: "mm_inv (a # as) \<Longrightarrow> unat (a_addr a) \<in> free_bytes (a # as) \<and> (\<forall>x\<in>free_bytes (a # as). unat (a_addr a) \<le> x)"
  by (fastforce simp: mm_inv_Cons area_ok_def area_end_def free_bytes_def area_bytes_def)

lemma head_end_not_free: "mm_inv (a # as) \<Longrightarrow> area_end a \<notin> free_bytes (a # as)"
  by (fastforce simp: mm_inv_Cons free_bytes_def area_bytes_def)

lemma head_end_le:
  assumes "mm_inv (a # as)" "mm_inv (b # bs)" "free_bytes (a # as) = free_bytes (b # bs)" "a_addr a = a_addr b"
  shows "area_end b \<le> area_end a"
proof (rule ccontr)
  assume "\<not> area_end b \<le> area_end a"
  then have "area_end a \<in> area_bytes b" using assms(4) by (simp add: area_bytes_def area_end_def)
  then show False using head_end_not_free [OF assms(1)] unfolding assms(3) by simp
qed

lemma free_bytes_unique: "mm_inv as \<Longrightarrow> mm_inv bs \<Longrightarrow> free_bytes as = free_bytes bs \<Longrightarrow> as = bs"
proof (induction as arbitrary: bs)
  case Nil
  then show ?case using head_addr_least by (cases bs) fastforce+
next
  case (Cons a as)
  then obtain b bs' where bs: "bs = b # bs'" using head_addr_least by (cases bs) fastforce+
  have "unat (a_addr a) = unat (a_addr b)"
    using head_addr_least [OF Cons.prems(1)] head_addr_least [of b bs'] Cons.prems bs by (metis le_antisym)
  then have addr: "a_addr a = a_addr b" by (simp add: word_unat_eq_iff)
  have "area_end a = area_end b"
    using head_end_le [of a as b bs'] head_end_le [of b bs' a as] Cons.prems bs addr by simp
  then have "a_size a = a_size b" using addr by (simp add: area_end_def word_unat_eq_iff)
  then have ab: "a = b" using addr by simp
  have "free_bytes as = free_bytes bs'"
    using areas_disjoint(2) [of "[]" a as] areas_disjoint(2) [of "[]" b bs'] Cons.prems bs ab by auto
  then show ?case using Cons bs ab by (simp add: mm_inv_Cons)
qed

lemma mm_new_ok: "0 < sz \<Longrightarrow> unat addr + unat sz < 2 ^ 64 \<Longrightarrow>
    mm_inv (mm_new addr sz) \<and> free_bytes (mm_new addr sz) = region_bytes (addr, sz)"
  by (simp add: mm_new_def mm_simps area_end_def area_bytes_def word_less_nat_alt)

section \<open>Properties\<close>

text \<open>C5. In every sequence of allocations and releases on a memory map, the regions handed out are
  pairwise disjoint and disjoint from the free list, together they are exactly the managed memory,
  and the free list stays ordered, coalesced and inside the address space.\<close>

theorem mm_session_safe:
  assumes "alloc_session mm_allocate mm_free (mm_new addr sz) as held"
    and "0 < sz" and "unat addr + unat sz < 2 ^ 64"
  shows "mm_inv as \<and> disjoint_regions held \<and> free_bytes as \<inter> held_bytes held = {} \<and>
    free_bytes as \<union> held_bytes held = region_bytes (addr, sz)"
  using mmap.session_partition [OF assms(1)] mm_new_ok [OF assms(2,3)] by simp

theorem mm_session_safe_witness:
  "mm_inv [\<lparr>a_addr = 0x3000, a_size = 0x2000\<rparr>] \<and> disjoint_regions [(0x1000, 0x2000)]"
proof -
  have "alloc_session mm_allocate mm_free (mm_new 0x1000 0x4000) [\<lparr>a_addr = 0x3000, a_size = 0x2000\<rparr>] [(0x1000, 0x2000)]"
    by (rule session_alloc [OF session_start]) (simp_all add: mm_new_def Let_def)
  then show ?thesis using mm_session_safe [where addr = "0x1000" and sz = "0x4000"] by fastforce
qed

text \<open>C22. Once every region has been released, in whatever order, the free list is again the single
  area the map was created with: nothing is lost and no fragment remains.\<close>

theorem mm_session_restores:
  assumes "alloc_session mm_allocate mm_free (mm_new addr sz) as []"
    and "0 < sz" and "unat addr + unat sz < 2 ^ 64"
  shows "as = mm_new addr sz"
  using mmap.session_partition [OF assms(1)] mm_new_ok [OF assms(2,3)]
  by (intro free_bytes_unique) simp_all

theorem mm_session_restores_witness:
  "mm_free 0x1000 0x2000 [\<lparr>a_addr = 0x3000, a_size = 0x2000\<rparr>] = mm_new 0x1000 0x4000"
proof -
  have "alloc_session mm_allocate mm_free (mm_new 0x1000 0x4000) [\<lparr>a_addr = 0x3000, a_size = 0x2000\<rparr>] [(0x1000, 0x2000)]"
    by (rule session_alloc [OF session_start]) (simp_all add: mm_new_def Let_def)
  then have "alloc_session mm_allocate mm_free (mm_new 0x1000 0x4000)
      (mm_free 0x1000 0x2000 [\<lparr>a_addr = 0x3000, a_size = 0x2000\<rparr>]) []"
    using session_release [of _ _ _ _ "[]" "0x1000" "0x2000" "[]"] by simp
  then show ?thesis by (rule mm_session_restores) simp_all
qed

text \<open>Allocation is first fit and complete: it fails with -1 and without a change exactly when no
  free area is large enough, and otherwise returns the start of the first area that is.\<close>

theorem mm_allocate_first_fit:
  assumes "mm_inv as"
  shows "if \<exists>a\<in>set as. sz \<le> a_size a
    then \<exists>pre a post. as = pre @ a # post \<and> (\<forall>b\<in>set pre. a_size b < sz) \<and> sz \<le> a_size a \<and>
      fst (mm_allocate sz as) = a_addr a \<and> a_addr a \<noteq> -1
    else mm_allocate sz as = (-1, as)"
  using assms
proof (cases rule: mm_allocate_cases [where sz = sz, case_names full fit])
  case full
  then have "\<not> (\<exists>a\<in>set as. sz \<le> a_size a)" by (auto simp: not_le)
  then show ?thesis using full by simp
next
  case (fit pre a post)
  then have "a_addr a \<noteq> -1" using area_ok_region by blast
  then show ?thesis using fit by auto
qed

theorem mm_allocate_first_fit_witness:
  "fst (mm_allocate 0x20 [\<lparr>a_addr = 0x1000, a_size = 0x10\<rparr>]) = -1"
  using mm_allocate_first_fit [of "[\<lparr>a_addr = 0x1000, a_size = 0x10\<rparr>]" "0x20"]
  by (simp add: mm_simps area_end_def)

text \<open>\<^verbatim>\<open>get_size\<close> returns the exact number of free bytes and of free areas, without wrap-around.\<close>

theorem mm_get_size_exact:
  assumes "mm_inv as"
  shows "unat (fst (mm_get_size as)) = card (free_bytes as) \<and> snd (mm_get_size as) = of_nat (length as)"
proof -
  have "card (free_bytes as) \<le> card {..<(2::nat) ^ 64 - 1}"
    using assms by (intro card_mono) (fastforce simp: mm_inv_def free_bytes_def area_bytes_def area_ok_def)+
  then show ?thesis
    using assms card_free_bytes
    by (simp add: mm_get_size_def mm_get_size_foldl unat_sum_list_mod comp_def)
qed

theorem mm_get_size_exact_witness:
  "unat (fst (mm_get_size [\<lparr>a_addr = 0x1000, a_size = 0x10\<rparr>])) = card (free_bytes [\<lparr>a_addr = 0x1000, a_size = 0x10\<rparr>])"
  using mm_get_size_exact [of "[\<lparr>a_addr = 0x1000, a_size = 0x10\<rparr>]"] by (simp add: mm_simps area_end_def)



text \<open>Without that precondition the size check of \<^verbatim>\<open>detach\<close> wraps around: from a map whose only
  area is smaller than its distance to the next page boundary, a page is detached that was never
  free, and the area is left with a size near the top of the word.\<close>

theorem mm_detach_underflow:
  "mm_detach 0x1000 [\<lparr>a_addr = 0x3001, a_size = 0x10\<rparr>] =
     Inr (0x2000, [\<lparr>a_addr = 0x3001, a_size = 0xFFFFFFFFFFFFEFFF\<rparr>, \<lparr>a_addr = 0x3000, a_size = 0x11\<rparr>]) \<and>
   region_bytes (0x2000, 0x1000) \<inter> free_bytes [\<lparr>a_addr = 0x3001, a_size = 0x10\<rparr>] = {}"
  by (auto simp: mm_detach_def detach_fits_def detach_at_def PAGE_MASK_def PAGE_SIZE_def round_up_def
      round_dn_def area_bytes_def area_end_def)

end
