(* ===== verification/Main_Memory.thy ===== *)
theory Main_Memory
  imports Memory_Map
begin

text \<open>
  The memory modules of the machine, \<^verbatim>\<open>kernel::MainMemory\<close> and \<^verbatim>\<open>kernel::MemoryModule\<close>
  (\<^verbatim>\<open>src/src/apps/kernel/mem\<close>). The array \<^verbatim>\<open>_mods\<close> with its counter \<^verbatim>\<open>_count\<close> is the list of the
  modules that were added; every module has a memory map of its own.
\<close>

section \<open>Modules and operations\<close>

record mem_module =
  mod_avail :: bool
  mod_pe :: u64
  mod_addr :: u64
  mod_size :: u64
  mod_map :: memory_map

type_synonym main_memory = "mem_module list"

record allocation =
  al_mod :: nat
  al_addr :: u64
  al_size :: u64

definition MAX_MODS :: nat where "MAX_MODS = 4"

definition new_module :: "bool \<Rightarrow> u64 \<Rightarrow> u64 \<Rightarrow> u64 \<Rightarrow> mem_module" where
  "new_module avail pe addr sz =
     \<lparr>mod_avail = avail, mod_pe = pe, mod_addr = addr, mod_size = sz, mod_map = mm_new addr sz\<rparr>"

definition no_allocation :: allocation where
  "no_allocation = \<lparr>al_mod = 0, al_addr = 0, al_size = 0\<rparr>"

definition alloc_valid :: "allocation \<Rightarrow> bool" where
  "alloc_valid al \<longleftrightarrow> al_size al > 0"

definition main_add :: "mem_module \<Rightarrow> main_memory \<Rightarrow> main_memory result" where
  "main_add m mods = (if length mods = MAX_MODS then Inl Panic else Inr (mods @ [m]))"

definition main_module :: "main_memory \<Rightarrow> nat \<Rightarrow> mem_module result" where
  "main_module mods i =
     (if i < length mods then Inr (mods ! i)
      else if i < MAX_MODS then Inl Assert_failed else Inl Out_of_bounds)"

definition alloc_pe :: "main_memory \<Rightarrow> allocation \<Rightarrow> u64 result" where
  "alloc_pe mods al = rbind (main_module mods (al_mod al)) (\<lambda>m. Inr (mod_pe m))"

text \<open>The loop of \<^verbatim>\<open>allocate\<close> from index \<open>i\<close> on: only a null address makes it try the next module.\<close>

fun allocate_from :: "u64 \<Rightarrow> nat \<Rightarrow> main_memory \<Rightarrow> allocation \<times> main_memory" where
  "allocate_from sz i [] = (no_allocation, [])"
| "allocate_from sz i (m # ms) =
     (if \<not> mod_avail m
      then (let (al, ms') = allocate_from sz (i + 1) ms in (al, m # ms'))
      else (let (res, map') = mm_allocate sz (mod_map m); m' = m\<lparr>mod_map := map'\<rparr>
            in if res \<noteq> 0 then (\<lparr>al_mod = i, al_addr = res, al_size = sz\<rparr>, m' # ms)
               else (let (al, ms') = allocate_from sz (i + 1) ms in (al, m' # ms'))))"

definition main_allocate :: "u64 \<Rightarrow> main_memory \<Rightarrow> allocation \<times> main_memory" where
  "main_allocate sz mods = allocate_from sz 0 mods"

fun allocate_at_from :: "u64 \<Rightarrow> u64 \<Rightarrow> nat \<Rightarrow> main_memory \<Rightarrow> allocation" where
  "allocate_at_from off sz i [] = no_allocation"
| "allocate_at_from off sz i (m # ms) =
     (if \<not> mod_avail m then \<lparr>al_mod = i, al_addr = mod_addr m + off, al_size = sz\<rparr>
      else allocate_at_from off sz (i + 1) ms)"

definition main_allocate_at :: "u64 \<Rightarrow> u64 \<Rightarrow> main_memory \<Rightarrow> allocation" where
  "main_allocate_at off sz mods = allocate_at_from off sz 0 mods"

definition main_free_pe :: "u64 \<Rightarrow> u64 \<Rightarrow> u64 \<Rightarrow> main_memory \<Rightarrow> main_memory" where
  "main_free_pe pe addr sz mods =
     update_first (\<lambda>m. mod_pe m = pe) (\<lambda>m. m\<lparr>mod_map := mm_free addr sz (mod_map m)\<rparr>) mods"

definition main_free :: "allocation \<Rightarrow> main_memory \<Rightarrow> main_memory result" where
  "main_free al mods =
     rbind (main_module mods (al_mod al))
       (\<lambda>m. Inr (mods[al_mod al := m\<lparr>mod_map := mm_free (al_addr al) (al_size al) (mod_map m)\<rparr>]))"

text \<open>\<^verbatim>\<open>detach\<close> tries the modules from the last one down.\<close>

fun detach_from :: "u64 \<Rightarrow> nat \<Rightarrow> main_memory \<Rightarrow> (mem_module \<times> main_memory) result" where
  "detach_from sz 0 mods = Inr (new_module False 0 0 0, mods)"
| "detach_from sz (Suc i) mods =
     (if mod_avail (mods ! i)
      then rbind (mm_detach sz (mod_map (mods ! i)))
        (\<lambda>(addr, map'). let mods' = mods[i := (mods ! i)\<lparr>mod_map := map'\<rparr>]
           in if addr = -1 then detach_from sz i mods'
              else Inr (new_module True (mod_pe (mods ! i)) addr sz, mods'))
      else detach_from sz i mods)"

definition main_detach :: "u64 \<Rightarrow> main_memory \<Rightarrow> (mem_module \<times> main_memory) result" where
  "main_detach sz mods = detach_from sz (length mods) mods"

definition main_size :: "main_memory \<Rightarrow> u64" where
  "main_size mods = foldl (\<lambda>total m. if mod_avail m then total + mod_size m else total) 0 mods"

definition main_available :: "main_memory \<Rightarrow> u64" where
  "main_available mods =
     foldl (\<lambda>total m. if mod_avail m then total + fst (mm_get_size (mod_map m)) else total) 0 mods"

section \<open>Invariant\<close>

text \<open>The first page of every module belongs to the kernel, so that address 0 is never handed out.\<close>

definition module_ok :: "mem_module \<Rightarrow> bool" where
  "module_ok m \<longleftrightarrow> mm_inv (mod_map m) \<and> 0 \<notin> free_bytes (mod_map m)"

definition main_inv :: "main_memory \<Rightarrow> bool" where
  "main_inv mods \<longleftrightarrow> length mods \<le> MAX_MODS \<and> (\<forall>m\<in>set mods. module_ok m)"

lemma allocate_from_skip:
  "\<forall>m\<in>set pre. \<not> mod_avail m \<Longrightarrow>
   allocate_from sz i (pre @ ms) =
     (let (al, ms') = allocate_from sz (i + length pre) ms in (al, pre @ ms'))"
  by (induction pre arbitrary: i) (auto simp: split: prod.splits)

lemma module_addr_not_0:
  assumes "module_ok m" and "0 < sz" and "mm_allocate sz (mod_map m) = (res, map')"
  shows "res \<noteq> 0"
proof (cases "res = -1")
  case False
  then have "region_bytes (res, sz) \<subseteq> free_bytes (mod_map m)"
    using assms mm_allocate_ok by (auto simp: module_ok_def)
  then show ?thesis using assms(1,2) by (auto simp: module_ok_def word_less_nat_alt)
qed simp

text \<open>What \<^verbatim>\<open>allocate\<close> returns: the answer of the first available module, whatever it is.\<close>

lemma main_allocate_first:
  assumes "module_ok m" and "0 < sz" and "mod_avail m" and "\<forall>n\<in>set pre. \<not> mod_avail n"
    and "mm_allocate sz (mod_map m) = (res, map')"
  shows "main_allocate sz (pre @ m # post) =
    (\<lparr>al_mod = length pre, al_addr = res, al_size = sz\<rparr>, pre @ m\<lparr>mod_map := map'\<rparr> # post)"
  using module_addr_not_0 [OF assms(1,2,5)] assms(3-5) by (simp add: main_allocate_def allocate_from_skip)

lemma main_allocate_none: "\<forall>n\<in>set mods. \<not> mod_avail n \<Longrightarrow> main_allocate sz mods = (no_allocation, mods)"
  using allocate_from_skip [of mods sz 0 "[]"] by (simp add: main_allocate_def)

lemma main_allocate_cases:
  assumes "main_inv mods" and "0 < sz"
  obtains (none) "\<forall>n\<in>set mods. \<not> mod_avail n" "main_allocate sz mods = (no_allocation, mods)"
  | (first) pre m post res map' where "mods = pre @ m # post" "\<forall>n\<in>set pre. \<not> mod_avail n" "mod_avail m"
      "module_ok m" "mm_allocate sz (mod_map m) = (res, map')"
      "main_allocate sz mods = (\<lparr>al_mod = length pre, al_addr = res, al_size = sz\<rparr>, pre @ m\<lparr>mod_map := map'\<rparr> # post)"
proof (cases "\<exists>m\<in>set mods. mod_avail m")
  case True
  then obtain pre m post where ms: "mods = pre @ m # post" "mod_avail m" "\<forall>n\<in>set pre. \<not> mod_avail n"
    using split_list_first_prop [of mods mod_avail] by auto
  obtain res map' where al: "mm_allocate sz (mod_map m) = (res, map')" by fastforce
  have "module_ok m" using assms(1) ms by (simp add: main_inv_def)
  then show ?thesis using ms al main_allocate_first [of m sz pre res map' post] assms(2) by (intro first) auto
next
  case False
  then show ?thesis using main_allocate_none by (intro none) auto
qed

lemma main_free_at:
  "main_free \<lparr>al_mod = length pre, al_addr = addr, al_size = sz\<rparr> (pre @ m # post) =
     Inr (pre @ m\<lparr>mod_map := mm_free addr sz (mod_map m)\<rparr> # post)"
  by (simp add: main_free_def main_module_def)

lemma mm_free_allocate:
  assumes "mm_inv as" and "0 < sz" and "mm_allocate sz as = (addr, as')" and "addr \<noteq> -1"
  shows "mm_free addr sz as' = as"
  using mmap.release_alloc [OF assms] assms(1) by (intro free_bytes_unique) simp_all

section \<open>Properties\<close>

text \<open>C28. When the first available module has a large enough free area, \<^verbatim>\<open>MainMemory::allocate\<close> returns
  a region of that module's free memory, takes exactly that region out of the module's map, and
  \<^verbatim>\<open>free\<close> of the allocation gives back the very same modules.\<close>

theorem main_allocate_correct:
  assumes "main_inv mods" and "0 < sz" and "mods = pre @ m # post" and "\<forall>n\<in>set pre. \<not> mod_avail n"
    and "mod_avail m" and "\<exists>a\<in>set (mod_map m). sz \<le> a_size a"
  shows "\<exists>addr map'. main_allocate sz mods =
      (\<lparr>al_mod = length pre, al_addr = addr, al_size = sz\<rparr>, pre @ m\<lparr>mod_map := map'\<rparr> # post) \<and>
    mm_inv map' \<and> region_bytes (addr, sz) \<subseteq> free_bytes (mod_map m) \<and>
    free_bytes map' = free_bytes (mod_map m) - region_bytes (addr, sz) \<and>
    main_free \<lparr>al_mod = length pre, al_addr = addr, al_size = sz\<rparr> (pre @ m\<lparr>mod_map := map'\<rparr> # post) = Inr mods"
proof -
  obtain addr map' where al: "mm_allocate sz (mod_map m) = (addr, map')" by fastforce
  have ok: "module_ok m" using assms(1,3) by (simp add: main_inv_def)
  then have inv: "mm_inv (mod_map m)" by (simp add: module_ok_def)
  have "addr \<noteq> -1"
    by (rule mm_allocate_cases [OF inv, of sz]) (use assms(6) al in \<open>auto simp: not_le dest: area_ok_region\<close>)
  then show ?thesis
    using main_allocate_first [OF ok assms(2,5,4) al] mm_allocate_ok [OF inv assms(2) al] assms(3)
      mm_free_allocate [OF inv assms(2) al] main_free_at by auto
qed

theorem main_allocate_correct_witness:
  "\<exists>addr map'. main_allocate 0x1000 [new_module True 3 0x4000 0x8000] =
     (\<lparr>al_mod = 0, al_addr = addr, al_size = 0x1000\<rparr>, [(new_module True 3 0x4000 0x8000)\<lparr>mod_map := map'\<rparr>]) \<and>
     region_bytes (addr, 0x1000) \<subseteq> free_bytes (mm_new 0x4000 0x8000)"
  using main_allocate_correct [of "[new_module True 3 0x4000 0x8000]" "0x1000" "[]"
      "new_module True 3 0x4000 0x8000" "[]"]
  by (auto simp: main_inv_def module_ok_def new_module_def mm_new_def MAX_MODS_def mm_simps area_end_def area_bytes_def)

text \<open>C31. \<^verbatim>\<open>MainMemory::allocate\<close> cannot report that memory is exhausted: as soon as one module is
  available, it returns an allocation that tests as valid. When the first available module has no
  large enough area, that allocation has the address -1, nothing is taken from any module, and the
  remaining modules are not tried.\<close>

theorem main_allocate_exhausted:
  assumes "main_inv mods" and "0 < sz" and "mods = pre @ m # post" and "\<forall>n\<in>set pre. \<not> mod_avail n"
    and "mod_avail m" and "\<forall>a\<in>set (mod_map m). a_size a < sz"
  shows "main_allocate sz mods = (\<lparr>al_mod = length pre, al_addr = -1, al_size = sz\<rparr>, mods) \<and>
    alloc_valid (fst (main_allocate sz mods))"
proof -
  have ok: "module_ok m" using assms(1,3) by (simp add: main_inv_def)
  show ?thesis
    using main_allocate_first [OF ok assms(2,5,4) mm_allocate_none [OF assms(6)], of post] assms(2,3)
    by (simp add: alloc_valid_def)
qed

theorem main_allocate_exhausted_witness:
  "alloc_valid (fst (main_allocate 0x9000 [new_module True 3 0x4000 0x8000, new_module True 4 0x4000 0x10000])) \<and>
   al_addr (fst (main_allocate 0x9000 [new_module True 3 0x4000 0x8000, new_module True 4 0x4000 0x10000])) = -1"
  using main_allocate_exhausted [of "[new_module True 3 0x4000 0x8000, new_module True 4 0x4000 0x10000]" "0x9000" "[]"
      "new_module True 3 0x4000 0x8000" "[new_module True 4 0x4000 0x10000]"]
  by (auto simp: main_inv_def module_ok_def new_module_def mm_new_def MAX_MODS_def mm_simps area_end_def area_bytes_def)

end
