(* ===== verification/DDL_Keys.thy ===== *)
theory DDL_Keys
  imports Kernel_Prelude
begin

unbundle bit_operations_syntax

text \<open>
  The key space of the distributed data layer, \<^verbatim>\<open>kernel::HashUtil\<close> and the enumerations of
  \<^verbatim>\<open>src/src/apps/kernel/ddl/MHTTypes.h\<close>. A 64 bit key is divided into the PE, the VPE, the type
  and the object identifier; \<^verbatim>\<open>Platform::MAX_PES\<close> is 1024, which gives 10 bits for the PE.
\<close>

section \<open>Enumerations and bit widths\<close>

definition ID_BITS :: nat where "ID_BITS = 64"
definition PE_BITS :: nat where "PE_BITS = 10"
definition VPE_BITS :: nat where "VPE_BITS = 11"
definition TYPE_BITS :: nat where "TYPE_BITS = 7"
definition HASH_BITS :: nat where "HASH_BITS = ID_BITS - PE_BITS - VPE_BITS - TYPE_BITS"
definition KEY_MASK :: u64 where "KEY_MASK = 0xFFFFFFFFFFFFFFFF"
definition TYPE_MASK :: u64 where "TYPE_MASK = push_bit HASH_BITS (push_bit TYPE_BITS 1 - 1)"
definition MAX_PES :: nat where "MAX_PES = 1024"

type_synonym item_type = u8

definition NOTYPE :: item_type where "NOTYPE = 0"
definition MAPCAP :: item_type where "MAPCAP = 1"
definition MSGCAP :: item_type where "MSGCAP = 2"
definition SRVCAP :: item_type where "SRVCAP = 4"
definition SESSCAP :: item_type where "SESSCAP = 6"
definition VPECAP :: item_type where "VPECAP = 8"
definition MEMCAP :: item_type where "MEMCAP = 10"
definition GENERICOCAP :: item_type where "GENERICOCAP = 14"
definition SERVICE :: item_type where "SERVICE = 16"
definition MSGOBJ :: item_type where "MSGOBJ = 32"
definition MEMOBJ :: item_type where "MEMOBJ = 64"

lemmas item_type_defs = NOTYPE_def MAPCAP_def MSGCAP_def SRVCAP_def SESSCAP_def VPECAP_def MEMCAP_def
  GENERICOCAP_def SERVICE_def MSGOBJ_def MEMOBJ_def

lemmas ddl_bits = ID_BITS_def PE_BITS_def VPE_BITS_def TYPE_BITS_def HASH_BITS_def KEY_MASK_def TYPE_MASK_def

section \<open>Building and taking apart keys\<close>

definition structured_hash :: "pe_id_t \<Rightarrow> vpe_id_t \<Rightarrow> item_type \<Rightarrow> u32 \<Rightarrow> mht_key_t" where
  "structured_hash pe vpe type key =
     push_bit (ID_BITS - PE_BITS) (ucast pe) OR
     push_bit (ID_BITS - PE_BITS - VPE_BITS) (ucast vpe) OR
     push_bit HASH_BITS (ucast type) OR
     (ucast key AND drop_bit (ID_BITS - HASH_BITS) KEY_MASK)"

definition structured_hash_vpe :: "vpe_id_t \<Rightarrow> item_type \<Rightarrow> u32 \<Rightarrow> mht_key_t" where
  "structured_hash_vpe vpe type key = structured_hash (vpe mod of_nat MAX_PES) vpe type key"

definition hashToPeId :: "mht_key_t \<Rightarrow> pe_id_t" where
  "hashToPeId k = ucast (drop_bit (ID_BITS - PE_BITS) k)"

definition hashToVpeId :: "mht_key_t \<Rightarrow> vpe_id_t" where
  "hashToVpeId k = ucast (drop_bit (ID_BITS - PE_BITS - VPE_BITS) k AND (push_bit VPE_BITS 1 - 1))"

definition hashToType :: "mht_key_t \<Rightarrow> item_type" where
  "hashToType k = ucast (drop_bit HASH_BITS (k AND TYPE_MASK))"

definition hashToObjId :: "mht_key_t \<Rightarrow> u32" where
  "hashToObjId k = ucast (k AND NOT (push_bit HASH_BITS KEY_MASK))"

section \<open>The fields of a key\<close>

lemma bit_below: "unat (w :: 'a::len word) < 2 ^ k \<Longrightarrow> bit w n \<Longrightarrow> n < k"
proof (rule ccontr)
  assume w: "unat w < 2 ^ k" and "bit w n" and "\<not> n < k"
  then have "bit (unat w) n" by (simp add: bit_unsigned_iff bit_imp_le_length)
  then have "2 ^ n \<le> unat w" by (metis bit_iff_odd div_less even_zero not_le)
  moreover have "(2::nat) ^ k \<le> 2 ^ n" using \<open>\<not> n < k\<close> by (intro power_increasing) simp_all
  ultimately show False using w by linarith
qed

text \<open>Bit positions of the four fields.\<close>

lemma KEY_MASK_mask: "KEY_MASK = mask 64"
  by (simp add: KEY_MASK_def mask_eq_exp_minus_1)

lemma bit_structured_hash:
  "bit (structured_hash pe vpe type key) n \<longleftrightarrow>
     n < 64 \<and> (54 \<le> n \<and> bit pe (n - 54) \<or> 43 \<le> n \<and> bit vpe (n - 43) \<or>
       36 \<le> n \<and> bit type (n - 36) \<or> n < 36 \<and> bit key n)"
  unfolding structured_hash_def KEY_MASK_mask
  by (auto simp: ddl_bits bit_simps)

lemma bit_hash_fields:
  "bit (hashToPeId k) n \<longleftrightarrow> bit k (54 + n)"
  "bit (hashToVpeId k) n \<longleftrightarrow> n < 11 \<and> bit k (43 + n)"
  "bit (hashToType k) n \<longleftrightarrow> n < 7 \<and> bit k (36 + n)"
  "bit (hashToObjId k) n \<longleftrightarrow> n < 32 \<and> bit k n"
proof -
  have *: "54 + n < 64 \<Longrightarrow> n < 16" by simp
  show "bit (hashToPeId k) n \<longleftrightarrow> bit k (54 + n)"
    using * bit_imp_le_length [of k "54 + n"] by (auto simp: hashToPeId_def ddl_bits bit_simps)
  have m: "push_bit 11 1 - 1 = (mask 11 :: u64)" by (simp add: mask_eq_exp_minus_1)
  show "bit (hashToVpeId k) n \<longleftrightarrow> n < 11 \<and> bit k (43 + n)"
    unfolding hashToVpeId_def VPE_BITS_def m by (auto simp: ddl_bits bit_simps)
  have t: "TYPE_MASK = push_bit 36 (mask 7)" by (simp add: ddl_bits mask_eq_exp_minus_1)
  show "bit (hashToType k) n \<longleftrightarrow> n < 7 \<and> bit k (36 + n)"
    unfolding hashToType_def t by (auto simp: ddl_bits bit_simps)
  show "bit (hashToObjId k) n \<longleftrightarrow> n < 32 \<and> bit k n"
    unfolding hashToObjId_def KEY_MASK_mask
    by (auto simp: HASH_BITS_def ID_BITS_def PE_BITS_def VPE_BITS_def TYPE_BITS_def bit_simps)
qed

lemma hash_fields_structured:
  assumes "unat pe < 2 ^ PE_BITS" and "unat vpe < 2 ^ VPE_BITS" and "unat type < 2 ^ TYPE_BITS"
  shows "hashToPeId (structured_hash pe vpe type key) = pe"
    "hashToVpeId (structured_hash pe vpe type key) = vpe"
    "hashToType (structured_hash pe vpe type key) = type"
    "hashToObjId (structured_hash pe vpe type key) = key"
proof -
  have b: "bit pe n \<Longrightarrow> n < 10" "bit vpe n \<Longrightarrow> n < 11" "bit type n \<Longrightarrow> n < 7" "bit key n \<Longrightarrow> n < 32" for n
    using assms bit_below [of pe 10 n] bit_below [of vpe 11 n] bit_below [of type 7 n] bit_imp_le_length [of key n]
    by (auto simp: PE_BITS_def VPE_BITS_def TYPE_BITS_def)
  show "hashToPeId (structured_hash pe vpe type key) = pe"
    by (rule bit_eqI) (auto simp: bit_hash_fields bit_structured_hash dest: b)
  show "hashToVpeId (structured_hash pe vpe type key) = vpe"
    by (rule bit_eqI) (auto simp: bit_hash_fields bit_structured_hash dest: b)
  show "hashToType (structured_hash pe vpe type key) = type"
    by (rule bit_eqI) (auto simp: bit_hash_fields bit_structured_hash dest: b)
  show "hashToObjId (structured_hash pe vpe type key) = key"
    by (rule bit_eqI) (auto simp: bit_hash_fields bit_structured_hash dest: b)
qed

lemma hash_fields_bound: "unat (hashToPeId k) < 2 ^ PE_BITS" "unat (hashToVpeId k) < 2 ^ VPE_BITS"
  "unat (hashToType k) < 2 ^ TYPE_BITS"
proof -
  have bound: "unat w < 2 ^ b" if "\<And>n. bit w n \<Longrightarrow> n < b" "b < LENGTH('a)" for w :: "'a::len word" and b
  proof -
    have "take_bit b w = w" by (rule bit_eqI) (auto simp: bit_simps dest: that(1))
    then have "unat w = unat w mod 2 ^ b"
      by (metis unsigned_take_bit_eq take_bit_eq_mod)
    then show ?thesis by (metis mod_less_divisor zero_less_power zero_less_numeral)
  qed
  have "n < 10" if "bit (hashToPeId k) n" for n
    using that bit_imp_le_length [of k "54 + n"] by (simp add: bit_hash_fields)
  then show "unat (hashToPeId k) < 2 ^ PE_BITS" unfolding PE_BITS_def by (intro bound) simp_all
  show "unat (hashToVpeId k) < 2 ^ VPE_BITS" unfolding VPE_BITS_def
    by (intro bound) (simp_all add: bit_hash_fields)
  show "unat (hashToType k) < 2 ^ TYPE_BITS" unfolding TYPE_BITS_def
    by (intro bound) (simp_all add: bit_hash_fields)
qed

section \<open>Properties\<close>

text \<open>C24. Taking a key apart returns the four fields it was built from, for PE, VPE and type values that
  fit their widths; so distinct kernel objects never share a key.\<close>

theorem structured_hash_roundtrip:
  assumes "unat pe < 2 ^ PE_BITS" and "unat vpe < 2 ^ VPE_BITS" and "unat type < 2 ^ TYPE_BITS"
    and "unat pe' < 2 ^ PE_BITS" and "unat vpe' < 2 ^ VPE_BITS" and "unat type' < 2 ^ TYPE_BITS"
  shows "hashToPeId (structured_hash pe vpe type key) = pe \<and>
    hashToVpeId (structured_hash pe vpe type key) = vpe \<and>
    hashToType (structured_hash pe vpe type key) = type \<and>
    hashToObjId (structured_hash pe vpe type key) = key \<and>
    (structured_hash pe vpe type key = structured_hash pe' vpe' type' key' \<longleftrightarrow>
       pe = pe' \<and> vpe = vpe' \<and> type = type' \<and> key = key')"
  using hash_fields_structured [OF assms(1-3), of key] hash_fields_structured [OF assms(4-6), of key'] by metis

theorem structured_hash_roundtrip_witness:
  "hashToPeId (structured_hash 5 7 MEMCAP 42) = 5 \<and> hashToObjId (structured_hash 5 7 MEMCAP 42) = 42 \<and>
   structured_hash 5 7 MEMCAP 42 \<noteq> structured_hash 5 7 MSGCAP 42"
  using structured_hash_roundtrip [of 5 7 MEMCAP 5 7 MSGCAP 42 42]
  by (simp add: PE_BITS_def VPE_BITS_def TYPE_BITS_def MEMCAP_def MSGCAP_def)

text \<open>Every key whose object identifier fits in 32 bits is rebuilt from its fields, so the key
  space contains nothing that \<^verbatim>\<open>structured_hash\<close> cannot produce except for unused object bits.\<close>

theorem structured_hash_rebuild:
  assumes "drop_bit 32 (take_bit HASH_BITS k) = 0"
  shows "structured_hash (hashToPeId k) (hashToVpeId k) (hashToType k) (hashToObjId k) = k"
proof (rule bit_word_eqI)
  fix n assume "n < LENGTH(64)"
  have "\<not> bit k m" if "32 \<le> m" "m < 36" for m
  proof -
    have "\<not> bit (drop_bit 32 (take_bit HASH_BITS k)) (m - 32)" using assms by simp
    then show ?thesis using that by (simp add: bit_simps ddl_bits)
  qed
  then show "bit (structured_hash (hashToPeId k) (hashToVpeId k) (hashToType k) (hashToObjId k)) n \<longleftrightarrow> bit k n"
    using \<open>n < LENGTH(64)\<close> by (cases "n < 32"; cases "n < 36"; cases "n < 43"; cases "n < 54")
      (auto simp: bit_structured_hash bit_hash_fields)
qed

theorem structured_hash_rebuild_witness:
  "structured_hash (hashToPeId 0x12345670000000AB) (hashToVpeId 0x12345670000000AB)
     (hashToType 0x12345670000000AB) (hashToObjId 0x12345670000000AB) = 0x12345670000000AB"
  by (rule structured_hash_rebuild) (simp add: ddl_bits)

end
