(* ===== verification/MHT_Partition.thy ===== *)
theory MHT_Partition
  imports DDL_Keys Base_Math
begin

text \<open>
  Items and partitions of the distributed data layer, \<^verbatim>\<open>kernel::MHTItem\<close>
  (\<^verbatim>\<open>src/src/apps/kernel/ddl/MHTTypes.h\<close>) and \<^verbatim>\<open>kernel::MHTPartition\<close>
  (\<^verbatim>\<open>src/src/apps/kernel/ddl/MHTPartition.cc\<close>). A partition is a list of items; an item can be
  locked with a random handle, and threads that need a locked item leave a ticket and wait.
  Deleting objects that are still linked is part of the model: an item of the list carries
  whether it has been freed, an item carries whether its ticket list still links deleted tickets,
  and touching either is \<open>Use_after_free\<close>.
\<close>

section \<open>Items\<close>

record 'd mht_item =
  it_data :: "'d option"
  it_key :: mht_key_t
  it_length :: u32
  it_lock :: u32
  it_reservation :: bool
  it_tickets :: "int list"
  it_stale :: bool

definition item_locked_with :: "u32 \<Rightarrow> 'd mht_item" where
  "item_locked_with lockHndl = \<lparr>it_data = None, it_key = 0, it_length = 0, it_lock = lockHndl,
     it_reservation = False, it_tickets = [], it_stale = False\<rparr>"

definition item_new :: "'d option \<Rightarrow> u32 \<Rightarrow> mht_key_t \<Rightarrow> 'd mht_item" where
  "item_new d len key = \<lparr>it_data = d, it_key = key, it_length = len, it_lock = 0,
     it_reservation = False, it_tickets = [], it_stale = False\<rparr>"

definition item_isEmpty :: "'d mht_item \<Rightarrow> bool" where
  "item_isEmpty it \<longleftrightarrow> or (it_key it) (ucast (it_length it)) = 0"

definition item_islocked :: "'d mht_item \<Rightarrow> bool" where
  "item_islocked it \<longleftrightarrow> it_lock it \<noteq> 0"

text \<open>The \<^verbatim>\<open>do ... while(!lockHandle)\<close> loop of \<^verbatim>\<open>lock\<close>. The generator state is passed along.\<close>

function draw_handle :: "u32 \<Rightarrow> u32 \<times> u32" where
  "draw_handle seed = (case random_get seed of (h, seed') \<Rightarrow> if h \<noteq> 0 then (h, seed') else draw_handle seed')"
  by pat_completeness auto
termination
proof (relation "measure (\<lambda>s. LEAST n. fst (random_get ((random_next ^^ n) s)) \<noteq> 0)")
  fix seed h seed'
  assume x: "(h, seed') = random_get seed" and h: "\<not> h \<noteq> 0"
  let ?P = "\<lambda>s n. fst (random_get ((random_next ^^ n) s)) \<noteq> 0"
  obtain n where n: "?P seed n" using random_get_eventually by blast
  have "\<not> ?P seed 0" using x h by (metis eq_id_iff fst_conv funpow_0)
  then have "(LEAST n. ?P seed n) = Suc (LEAST n. ?P seed (Suc n))" using n by (rule Least_Suc [rotated])
  moreover have "seed' = random_next seed" using x by (auto simp: random_get_def Let_def)
  ultimately show "(seed', seed) \<in> measure (\<lambda>s. LEAST n. ?P s n)" by (simp add: funpow_swap1)
qed simp

declare draw_handle.simps [simp del]

lemma draw_handle_not_0: "fst (draw_handle seed) \<noteq> 0"
  by (induction seed rule: draw_handle.induct) (subst draw_handle.simps, auto split: prod.splits)

definition item_lock :: "'d mht_item \<Rightarrow> u32 \<Rightarrow> (u32 \<times> 'd mht_item \<times> u32) result" where
  "item_lock it seed =
     (if it_lock it \<noteq> 0 then Inl Panic
      else (let (h, seed') = draw_handle seed in Inr (h, it\<lparr>it_lock := h\<rparr>, seed')))"

text \<open>\<^verbatim>\<open>unlock\<close> returns whether it succeeded, the item and the threads it notified. The tickets are
  deleted but not taken off the list.\<close>

definition item_unlock :: "u32 \<Rightarrow> 'd mht_item \<Rightarrow> (bool \<times> 'd mht_item \<times> int list) result" where
  "item_unlock lockHdl it =
     (if it_lock it = 0 then Inr (True, it, [])
      else if lockHdl \<noteq> it_lock it then Inr (False, it, [])
      else if it_stale it then Inl Use_after_free
      else Inr (True, it\<lparr>it_lock := 0, it_stale := (it_tickets it \<noteq> [])\<rparr>, it_tickets it))"

definition item_enqueueTicket :: "int \<Rightarrow> 'd mht_item \<Rightarrow> 'd mht_item result" where
  "item_enqueueTicket tid it =
     (if it_stale it then Inl Use_after_free else Inr (it\<lparr>it_tickets := it_tickets it @ [tid]\<rparr>))"

definition item_transferData :: "'d mht_item \<Rightarrow> 'd mht_item \<Rightarrow> 'd mht_item \<times> 'd mht_item" where
  "item_transferData it src = (it\<lparr>it_data := it_data src\<rparr>, src\<lparr>it_data := None\<rparr>)"

section \<open>Partitions\<close>

record 'd storable =
  s_freed :: bool
  s_item :: "'d mht_item"

record 'd partition =
  p_id :: pe_id_t
  p_storage :: "'d storable list"

definition partition_new :: "pe_id_t \<Rightarrow> 'd partition" where
  "partition_new pe = \<lparr>p_id = pe, p_storage = []\<rparr>"

text \<open>The search loop every operation begins with: the position of the first item with the key.\<close>

fun walk :: "mht_key_t \<Rightarrow> 'd storable list \<Rightarrow> nat option result" where
  "walk key [] = Inr None"
| "walk key (s # ss) =
     (if s_freed s then Inl Use_after_free
      else if it_key (s_item s) = key then Inr (Some 0)
      else rbind (walk key ss) (\<lambda>r. Inr (map_option Suc r)))"

definition store :: "'d mht_item \<Rightarrow> 'd storable" where
  "store it = \<lparr>s_freed = False, s_item = it\<rparr>"

abbreviation item_at :: "'d partition \<Rightarrow> nat \<Rightarrow> 'd mht_item" where
  "item_at p i \<equiv> s_item (p_storage p ! i)"

definition put_item :: "nat \<Rightarrow> 'd mht_item \<Rightarrow> 'd partition \<Rightarrow> 'd partition" where
  "put_item i it p = p\<lparr>p_storage := (p_storage p)[i := store it]\<rparr>"

text \<open>\<^verbatim>\<open>put\<close>: replacing an item frees its data and then calls \<^verbatim>\<open>transferData\<close>, which frees it again.\<close>

definition part_put :: "'d mht_item \<Rightarrow> u32 \<Rightarrow> 'd partition \<Rightarrow> (code \<times> 'd partition) result" where
  "part_put kv lockHandle p =
     rbind (walk (it_key kv) (p_storage p)) (\<lambda>r.
       case r of
         Some i \<Rightarrow>
           (let it = item_at p i in
            if \<not> item_islocked it \<or> lockHandle = it_lock it
            then (let it' = (if lockHandle \<noteq> 0 then it\<lparr>it_lock := 0\<rparr> else it) in
                  if it_data it' \<noteq> None then Inl Use_after_free
                  else Inr (NO_ERROR, put_item i (fst (item_transferData it' kv)) p))
            else Inr (NO_PERM, p))
       | None \<Rightarrow> Inr (NO_ERROR, p\<lparr>p_storage := p_storage p @ [store kv]\<rparr>))"

text \<open>\<^verbatim>\<open>get\<close> up to the point where the thread has the item or waits for it to be unlocked.\<close>

datatype 'd get_outcome =
    Got "'d mht_item option"   \<comment> \<open>the item, or \<^verbatim>\<open>emptyIndicator\<close>\<close>
  | Waiting                    \<comment> \<open>the thread left a ticket and is blocked\<close>

definition part_get :: "mht_key_t \<Rightarrow> bool \<Rightarrow> int \<Rightarrow> 'd partition \<Rightarrow> u32 \<Rightarrow>
    ('d get_outcome \<times> 'd partition \<times> u32) result" where
  "part_get key locking tid p seed =
     rbind (walk key (p_storage p)) (\<lambda>r.
       case r of
         None \<Rightarrow> Inr (Got None, p, seed)
       | Some i \<Rightarrow>
           (let it = item_at p i in
            if item_islocked it
            then rbind (item_enqueueTicket tid it) (\<lambda>it'. Inr (Waiting, put_item i it' p, seed))
            else if locking
            then rbind (item_lock it seed) (\<lambda>(h, it', seed'). Inr (Got (Some it'), put_item i it' p, seed'))
            else Inr (Got (Some it), p, seed)))"

definition part_remove :: "mht_key_t \<Rightarrow> 'd partition \<Rightarrow> (bool \<times> 'd partition) result" where
  "part_remove key p =
     rbind (walk key (p_storage p)) (\<lambda>r.
       case r of
         Some i \<Rightarrow> Inr (True, p\<lparr>p_storage := take i (p_storage p) @ drop (Suc i) (p_storage p)\<rparr>)
       | None \<Rightarrow> Inr (False, p))"

definition part_lock :: "mht_key_t \<Rightarrow> 'd partition \<Rightarrow> u32 \<Rightarrow> (int \<times> 'd partition \<times> u32) result" where
  "part_lock key p seed =
     rbind (walk key (p_storage p)) (\<lambda>r.
       case r of
         Some i \<Rightarrow>
           (if item_islocked (item_at p i) then Inr (-1, p, seed)
            else rbind (item_lock (item_at p i) seed)
              (\<lambda>(h, it', seed'). Inr (uint h, put_item i it' p, seed')))
       | None \<Rightarrow> Inr (0, p, seed))"

definition part_unlock :: "mht_key_t \<Rightarrow> u32 \<Rightarrow> 'd partition \<Rightarrow> (bool \<times> 'd partition \<times> int list) result" where
  "part_unlock key lockHandle p =
     rbind (walk key (p_storage p)) (\<lambda>r.
       case r of
         Some i \<Rightarrow> rbind (item_unlock lockHandle (item_at p i)) (\<lambda>(ok, it', tids). Inr (ok, put_item i it' p, tids))
       | None \<Rightarrow> Inr (True, p, []))"

definition part_reserve :: "mht_key_t \<Rightarrow> 'd partition \<Rightarrow> u32 \<Rightarrow> (u32 \<times> 'd partition \<times> u32) result" where
  "part_reserve key p seed =
     rbind (walk key (p_storage p)) (\<lambda>r.
       case r of
         Some _ \<Rightarrow> Inr (0, p, seed)
       | None \<Rightarrow>
           rbind (item_lock ((item_new None 0 key)\<lparr>it_reservation := True\<rparr>) seed)
             (\<lambda>(nr, it, seed'). Inr (nr, p\<lparr>p_storage := p_storage p @ [store it]\<rparr>, seed')))"

text \<open>\<^verbatim>\<open>release\<close> deletes the unlocked item without unlinking it.\<close>

fun release_loop :: "mht_key_t \<Rightarrow> u32 \<Rightarrow> code \<Rightarrow> 'd storable list \<Rightarrow> (code \<times> 'd storable list \<times> int list) result" where
  "release_loop key reservation err [] = Inr (err, [], [])"
| "release_loop key reservation err (s # ss) =
     (if s_freed s then Inl Use_after_free
      else if it_key (s_item s) = key
      then rbind (item_unlock reservation (s_item s)) (\<lambda>(ok, it', tids).
        if ok then Inr (err, \<lparr>s_freed = True, s_item = it'\<rparr> # ss, tids)
        else rbind (release_loop key reservation NO_PERM ss) (\<lambda>(e, ss', ts). Inr (e, s # ss', ts)))
      else rbind (release_loop key reservation err ss) (\<lambda>(e, ss', ts). Inr (e, s # ss', ts)))"

definition part_release :: "mht_key_t \<Rightarrow> u32 \<Rightarrow> 'd partition \<Rightarrow> (code \<times> 'd partition \<times> int list) result" where
  "part_release key reservation p =
     rbind (release_loop key reservation NO_ERROR (p_storage p))
       (\<lambda>(err, ss, tids). Inr (err, p\<lparr>p_storage := ss\<rparr>, tids))"

text \<open>\<^verbatim>\<open>enqueueTicket\<close> on the item with the key; the thread then blocks.\<close>

definition part_enqueueTicket :: "mht_key_t \<Rightarrow> int \<Rightarrow> 'd partition \<Rightarrow> 'd partition result" where
  "part_enqueueTicket key tid p =
     rbind (walk key (p_storage p)) (\<lambda>r.
       case r of
         Some i \<Rightarrow> rbind (item_enqueueTicket tid (item_at p i)) (\<lambda>it'. Inr (put_item i it' p))
       | None \<Rightarrow> Inr p)"

section \<open>A partition as a map\<close>

definition part_keys :: "'d storable list \<Rightarrow> mht_key_t list" where
  "part_keys ss = map (\<lambda>s. it_key (s_item s)) ss"

definition part_inv :: "'d partition \<Rightarrow> bool" where
  "part_inv p \<longleftrightarrow> distinct (part_keys (p_storage p)) \<and> (\<forall>s\<in>set (p_storage p). \<not> s_freed s)"

definition part_lookup :: "'d partition \<Rightarrow> mht_key_t \<Rightarrow> 'd mht_item option" where
  "part_lookup p k = map_option s_item (List.find (\<lambda>s. it_key (s_item s) = k) (p_storage p))"

lemma part_inv_new [simp]: "part_inv (partition_new pe)"
  by (simp add: part_inv_def partition_new_def part_keys_def)

lemma part_lookup_new [simp]: "part_lookup (partition_new pe) k = None"
  by (simp add: part_lookup_def partition_new_def)

lemma walk_skip:
  "\<forall>s\<in>set pre. \<not> s_freed s \<Longrightarrow> k \<notin> set (part_keys pre) \<Longrightarrow>
   walk k (pre @ ss) = rbind (walk k ss) (\<lambda>r. Inr (map_option (\<lambda>i. length pre + i) r))"
proof (induction pre)
  case Nil
  then show ?case by (cases "walk k ss") (simp_all add: option.map_ident)
next
  case (Cons s pre)
  then show ?case by (cases "walk k ss") (auto simp: part_keys_def option.map_comp comp_def)
qed

lemma walk_absent: "\<forall>s\<in>set ss. \<not> s_freed s \<Longrightarrow> k \<notin> set (part_keys ss) \<Longrightarrow> walk k ss = Inr None"
  using walk_skip [of ss k "[]"] by simp

lemma part_lookup_None: "part_lookup p k = None \<longleftrightarrow> k \<notin> set (part_keys (p_storage p))"
  by (auto simp: part_lookup_def part_keys_def find_None_iff)

lemma part_lookup_split:
  "p_storage p = pre @ store it # post \<Longrightarrow> k \<notin> set (part_keys pre) \<Longrightarrow> k \<notin> set (part_keys post) \<Longrightarrow> it_key it = k \<Longrightarrow>
   part_lookup p x = (if x = k then Some it else part_lookup (p\<lparr>p_storage := pre @ post\<rparr>) x)"
proof -
  assume st: "p_storage p = pre @ store it # post" and k: "k \<notin> set (part_keys pre)" and it: "it_key it = k"
  have "List.find (\<lambda>s. it_key (s_item s) = k) pre = None"
    using k by (auto simp: part_keys_def find_None_iff)
  then show ?thesis
    using st it by (cases "x = k") (auto simp: part_lookup_def find_append store_def split: option.splits)
qed

text \<open>Where a key is found, and what the operations then do to the storage.\<close>

lemma walk_cases:
  assumes "part_inv p"
  obtains (absent) "walk k (p_storage p) = Inr None" "part_lookup p k = None" "k \<notin> set (part_keys (p_storage p))"
  | (present) pre it post where "p_storage p = pre @ store it # post" "it_key it = k"
      "k \<notin> set (part_keys pre)" "k \<notin> set (part_keys post)"
      "walk k (p_storage p) = Inr (Some (length pre))" "part_lookup p k = Some it"
proof (cases "k \<in> set (part_keys (p_storage p))")
  case False
  then show ?thesis using assms
    by (intro absent) (simp_all add: walk_absent part_inv_def part_lookup_None)
next
  case True
  then obtain s where "s \<in> set (p_storage p)" "it_key (s_item s) = k" by (auto simp: part_keys_def)
  then obtain pre post where st: "p_storage p = pre @ s # post" by (metis split_list)
  have s: "s = store (s_item s)" using assms st by (simp add: part_inv_def store_def)
  have k: "k \<notin> set (part_keys pre)" "k \<notin> set (part_keys post)"
    using assms st \<open>it_key (s_item s) = k\<close> by (auto simp: part_inv_def part_keys_def)
  have "walk k (p_storage p) = Inr (Some (length pre))"
    using assms st k \<open>it_key (s_item s) = k\<close> by (simp add: walk_skip part_inv_def)
  moreover have "part_lookup p k = Some (s_item s)"
    using part_lookup_split [of p pre "s_item s" post k k] st s k \<open>it_key (s_item s) = k\<close> by simp
  ultimately show ?thesis using st s k \<open>it_key (s_item s) = k\<close>
    by (intro present [of pre "s_item s" post]) simp_all
qed

lemma put_item_split:
  assumes inv: "part_inv p" and st: "p_storage p = pre @ store it # post" and "it_key it = k" "it_key it' = k"
    and k: "k \<notin> set (part_keys pre)" "k \<notin> set (part_keys post)"
  shows "part_inv (put_item (length pre) it' p)"
    "part_lookup (put_item (length pre) it' p) = (part_lookup p)(k \<mapsto> it')"
proof -
  have st': "p_storage (put_item (length pre) it' p) = pre @ store it' # post"
    using st by (simp add: put_item_def)
  show "part_inv (put_item (length pre) it' p)"
    using inv st assms(3,4) unfolding part_inv_def st' by (auto simp: part_keys_def store_def)
  have up: "(put_item (length pre) it' p)\<lparr>p_storage := q\<rparr> = p\<lparr>p_storage := q\<rparr>" for q
    by (simp add: put_item_def)
  show "part_lookup (put_item (length pre) it' p) = (part_lookup p)(k \<mapsto> it')"
    by (rule ext)
      (simp add: part_lookup_split [OF st' k assms(4)] part_lookup_split [OF st k assms(3)] up)
qed

lemma part_append:
  assumes "part_inv p" and "part_lookup p (it_key it) = None"
  shows "part_inv (p\<lparr>p_storage := p_storage p @ [store it]\<rparr>)"
    "part_lookup (p\<lparr>p_storage := p_storage p @ [store it]\<rparr>) = (part_lookup p)(it_key it \<mapsto> it)"
proof -
  show "part_inv (p\<lparr>p_storage := p_storage p @ [store it]\<rparr>)"
    using assms by (auto simp: part_inv_def part_lookup_None) (auto simp: part_keys_def store_def)
  show "part_lookup (p\<lparr>p_storage := p_storage p @ [store it]\<rparr>) = (part_lookup p)(it_key it \<mapsto> it)"
    using assms(2) by (auto simp: part_lookup_def find_append store_def split: option.splits)
qed

lemma part_delete:
  assumes inv: "part_inv p" and st: "p_storage p = pre @ store it # post" and k: "it_key it = k"
    "k \<notin> set (part_keys pre)" "k \<notin> set (part_keys post)"
  shows "part_inv (p\<lparr>p_storage := pre @ post\<rparr>)"
    "part_lookup (p\<lparr>p_storage := pre @ post\<rparr>) = (part_lookup p)(k := None)"
proof -
  show "part_inv (p\<lparr>p_storage := pre @ post\<rparr>)" using inv st by (auto simp: part_inv_def part_keys_def)
  have "part_lookup (p\<lparr>p_storage := pre @ post\<rparr>) k = None"
    using k by (simp add: part_lookup_None) (simp add: part_keys_def)
  then show "part_lookup (p\<lparr>p_storage := pre @ post\<rparr>) = (part_lookup p)(k := None)"
    by (auto simp: part_lookup_split [OF st k(2,3,1)])
qed

lemma item_lock_ok: "it_lock it = 0 \<Longrightarrow> item_lock it seed =
    Inr (fst (draw_handle seed), it\<lparr>it_lock := fst (draw_handle seed)\<rparr>, snd (draw_handle seed))"
  by (simp add: item_lock_def case_prod_beta Let_def)

text \<open>What each operation does, in terms of the item it finds.\<close>

lemma part_lock_found:
  assumes "part_inv p" and "part_lookup p k = Some it" and "\<not> item_islocked it"
  obtains p' where "part_lock k p seed = Inr (uint (fst (draw_handle seed)), p', snd (draw_handle seed))"
    "part_inv p'" "part_lookup p' = (part_lookup p)(k \<mapsto> it\<lparr>it_lock := fst (draw_handle seed)\<rparr>)"
  using assms(1)
proof (cases rule: walk_cases [where k = k, case_names absent present])
  case (present pre it' post)
  let ?it = "it\<lparr>it_lock := fst (draw_handle seed)\<rparr>"
  have "it' = it" using present assms(2) by simp
  then show ?thesis
    using present assms(3) put_item_split [OF assms(1) present(1,2), of ?it]
    by (intro that [of "put_item (length pre) ?it p"])
      (simp_all add: part_lock_def item_islocked_def item_lock_ok store_def)
qed (use assms in simp)

lemma part_lock_taken:
  assumes "part_inv p" and "part_lookup p k = Some it" and "item_islocked it"
  shows "part_lock k p seed = Inr (-1, p, seed)"
  using assms(1) by (rule walk_cases [of p k]) (use assms in \<open>auto simp: part_lock_def store_def\<close>)

lemma part_unlock_found:
  assumes "part_inv p" and "part_lookup p k = Some it" and "item_unlock h it = Inr (ok, it', tids)"
  obtains p' where "part_unlock k h p = Inr (ok, p', tids)" "part_inv p'" "part_lookup p' = (part_lookup p)(k \<mapsto> it')"
  using assms(1)
proof (cases rule: walk_cases [where k = k, case_names absent present])
  case (present pre it0 post)
  have it: "it0 = it" using present assms(2) by simp
  have "it_key it' = k" using assms(3) present(2) it by (auto simp: item_unlock_def split: if_splits)
  then show ?thesis
    using present assms(3) it put_item_split [OF assms(1) present(1,2), of it']
    by (intro that [of "put_item (length pre) it' p"]) (simp_all add: part_unlock_def store_def)
qed (use assms in simp)

lemma put_item_same: "p_storage p = pre @ store it # post \<Longrightarrow> put_item (length pre) it p = p"
  by (simp add: put_item_def list_update_append)

lemma part_unlock_denied:
  assumes "part_inv p" and "part_lookup p k = Some it" and "item_islocked it" and "h \<noteq> it_lock it"
  shows "part_unlock k h p = Inr (False, p, [])"
  using assms(1) by (rule walk_cases [of p k])
    (use assms in \<open>auto simp: part_unlock_def item_unlock_def item_islocked_def store_def put_item_same [unfolded store_def]\<close>)

lemma part_put_found:
  assumes "part_inv p" and "part_lookup p (it_key kv) = Some it"
    and "\<not> (item_islocked it \<and> h \<noteq> it_lock it)" and "it_data it = None"
  obtains p' where "part_put kv h p = Inr (NO_ERROR, p')" "part_inv p'"
    "part_lookup p' = (part_lookup p)(it_key kv \<mapsto> it\<lparr>it_data := it_data kv, it_lock := 0\<rparr>)"
  using assms(1)
proof (cases rule: walk_cases [where k = "it_key kv", case_names absent present])
  case (present pre it0 post)
  let ?new = "it\<lparr>it_data := it_data kv, it_lock := 0\<rparr>"
  have it: "it0 = it" using present assms(2) by simp
  have new: "(if h \<noteq> 0 then it\<lparr>it_lock := 0\<rparr> else it)\<lparr>it_data := it_data kv\<rparr> = ?new"
    using assms(3) by (auto simp: item_islocked_def)
  have "part_put kv h p = Inr (NO_ERROR, put_item (length pre) ?new p)"
    unfolding new [symmetric] using present it assms(3,4)
    by (simp add: part_put_def Let_def item_transferData_def store_def)
  then show ?thesis
    using put_item_split [OF assms(1) present(1,2), of ?new] present it by (intro that) auto
qed (use assms in simp)

lemma part_put_denied:
  assumes "part_inv p" and "part_lookup p (it_key kv) = Some it" and "item_islocked it" and "h \<noteq> it_lock it"
  shows "part_put kv h p = Inr (NO_PERM, p)"
  using assms(1) by (rule walk_cases [of p "it_key kv"])
    (use assms in \<open>auto simp: part_put_def Let_def store_def\<close>)

lemma release_loop_found:
  "\<forall>s\<in>set pre. \<not> s_freed s \<Longrightarrow> k \<notin> set (part_keys pre) \<Longrightarrow> it_key it = k \<Longrightarrow>
   item_unlock nr it = Inr (True, it', tids) \<Longrightarrow>
   release_loop k nr err (pre @ store it # post) = Inr (err, pre @ \<lparr>s_freed = True, s_item = it'\<rparr> # post, tids)"
  by (induction pre) (auto simp: part_keys_def store_def)

section \<open>Properties\<close>

text \<open>C23. \<^verbatim>\<open>MHTPartition::put\<close> on every branch: a new key is added and no other key changes; an item
  locked with another handle is refused and nothing changes; an item without data takes the new
  data, keeps its other fields and is unlocked when a handle was given; replacing an item that has
  data frees that data twice.\<close>

theorem part_put_refines:
  assumes "part_inv p"
  shows "case part_lookup p (it_key kv) of
      None \<Rightarrow> \<exists>p'. part_put kv h p = Inr (NO_ERROR, p') \<and> part_inv p' \<and>
        part_lookup p' = (part_lookup p)(it_key kv \<mapsto> kv)
    | Some it \<Rightarrow>
        if item_islocked it \<and> h \<noteq> it_lock it then part_put kv h p = Inr (NO_PERM, p)
        else if it_data it \<noteq> None then part_put kv h p = Inl Use_after_free
        else \<exists>p'. part_put kv h p = Inr (NO_ERROR, p') \<and> part_inv p' \<and>
          part_lookup p' = (part_lookup p)(it_key kv \<mapsto> it\<lparr>it_data := it_data kv, it_lock := 0\<rparr>)"
  using assms
proof (cases rule: walk_cases [where k = "it_key kv", case_names absent present])
  case absent
  then show ?thesis using part_append [OF assms, of kv] by (simp add: part_put_def)
next
  case (present pre it post)
  show ?thesis
  proof (cases "item_islocked it \<and> h \<noteq> it_lock it")
    case True
    then show ?thesis using part_put_denied [OF assms] present(6) by simp
  next
    case False
    show ?thesis
    proof (cases "it_data it")
      case None
      obtain p' where "part_put kv h p = Inr (NO_ERROR, p')" "part_inv p'"
          "part_lookup p' = (part_lookup p)(it_key kv \<mapsto> it\<lparr>it_data := it_data kv, it_lock := 0\<rparr>)"
        by (rule part_put_found [OF assms present(6) False None])
      then show ?thesis using False None present(6) by auto
    next
      case (Some d)
      then show ?thesis using False present by (auto simp: part_put_def Let_def store_def)
    qed
  qed
qed

theorem part_put_refines_witness:
  "\<exists>p'. part_put (item_new (Some ''x'') 1 7) 0 (partition_new 3) = Inr (NO_ERROR, p') \<and> part_inv p' \<and>
     part_lookup p' = (part_lookup (partition_new 3))(7 \<mapsto> item_new (Some ''x'') 1 7)"
  using part_put_refines [of "partition_new 3" "item_new (Some ''x'') 1 7" 0] by (simp add: item_new_def)

text \<open>C15. Locking an item gives its owner exclusive access: the handle is never zero, and until it is
  presented a second lock attempt reports -1, and unlocking and replacing are refused without a
  change. Unlocking with the handle wakes all waiting threads in the order of their tickets.\<close>

theorem part_lock_exclusive:
  assumes "part_inv p" and "part_lookup p k = Some it" and "\<not> item_islocked it" and "\<not> it_stale it"
  shows "\<exists>h p' seed'. part_lock k p seed = Inr (uint h, p', seed') \<and> h \<noteq> 0 \<and> part_inv p' \<and>
    part_lookup p' = (part_lookup p)(k \<mapsto> it\<lparr>it_lock := h\<rparr>) \<and>
    (\<forall>s. part_lock k p' s = Inr (-1, p', s)) \<and>
    (\<forall>g. g \<noteq> h \<longrightarrow> part_unlock k g p' = Inr (False, p', []) \<and>
      (\<forall>kv. it_key kv = k \<longrightarrow> part_put kv g p' = Inr (NO_PERM, p'))) \<and>
    (\<exists>p''. part_unlock k h p' = Inr (True, p'', it_tickets it) \<and>
      part_lookup p'' = (part_lookup p)(k \<mapsto> it\<lparr>it_stale := (it_tickets it \<noteq> [])\<rparr>))"
proof -
  define h where "h = fst (draw_handle seed)"
  have h: "h \<noteq> 0" unfolding h_def by (rule draw_handle_not_0)
  obtain p' where p': "part_lock k p seed = Inr (uint h, p', snd (draw_handle seed))" "part_inv p'"
      "part_lookup p' = (part_lookup p)(k \<mapsto> it\<lparr>it_lock := h\<rparr>)"
    unfolding h_def by (rule part_lock_found [OF assms(1-3)])
  then have k: "part_lookup p' k = Some (it\<lparr>it_lock := h\<rparr>)" by simp
  have l: "item_islocked (it\<lparr>it_lock := h\<rparr>)" using h by (simp add: item_islocked_def)
  have "item_unlock h (it\<lparr>it_lock := h\<rparr>) =
      Inr (True, it\<lparr>it_lock := 0, it_stale := (it_tickets it \<noteq> [])\<rparr>, it_tickets it)"
    using h assms(4) by (simp add: item_unlock_def)
  then obtain p'' where "part_unlock k h p' = Inr (True, p'', it_tickets it)"
      "part_lookup p'' = (part_lookup p')(k \<mapsto> it\<lparr>it_lock := 0, it_stale := (it_tickets it \<noteq> [])\<rparr>)"
    by (rule part_unlock_found [OF p'(2) k])
  moreover have "it\<lparr>it_lock := 0\<rparr> = it" using assms(3) by (simp add: item_islocked_def)
  ultimately show ?thesis
    using p' h part_lock_taken [OF p'(2) k l] part_unlock_denied [OF p'(2) k l] part_put_denied [OF p'(2) _ l] k
    by auto
qed

theorem part_lock_exclusive_witness:
  "\<exists>(h :: u32) p' seed'. part_lock 7 \<lparr>p_id = 3, p_storage = [store (item_new (Some ''x'') 1 7)]\<rparr> 1 = Inr (uint h, p', seed') \<and>
     h \<noteq> 0 \<and> (\<forall>s. part_lock 7 p' s = Inr (-1, p', s))"
proof -
  let ?p = "\<lparr>p_id = 3, p_storage = [store (item_new (Some ''x'') 1 7)]\<rparr>"
  have "part_inv ?p" "part_lookup ?p 7 = Some (item_new (Some ''x'') 1 7)"
    by (simp_all add: part_inv_def part_keys_def part_lookup_def store_def item_new_def)
  moreover have "\<not> item_islocked (item_new (Some ''x'') 1 7)" "\<not> it_stale (item_new (Some ''x'') 1 7)"
    by (simp_all add: item_islocked_def item_new_def)
  ultimately show ?thesis using part_lock_exclusive [of ?p 7 "item_new (Some ''x'') 1 7" 1] by blast
qed

text \<open>Reservations: reserving a free key yields a non-zero number and blocks the key, so that every
  other reservation of it returns zero and every \<^verbatim>\<open>put\<close> without the number is refused; a \<^verbatim>\<open>put\<close> with
  the number stores the data and unlocks the key.\<close>

theorem part_reservation:
  assumes "part_inv p" and "part_lookup p k = None"
  shows "\<exists>nr p' seed'. part_reserve k p seed = Inr (nr, p', seed') \<and> nr \<noteq> 0 \<and> part_inv p' \<and>
    (\<forall>s. part_reserve k p' s = Inr (0, p', s)) \<and>
    (\<forall>kv g. it_key kv = k \<longrightarrow> g \<noteq> nr \<longrightarrow> part_put kv g p' = Inr (NO_PERM, p')) \<and>
    (\<forall>kv. it_key kv = k \<longrightarrow> (\<exists>p'' it. part_put kv nr p' = Inr (NO_ERROR, p'') \<and> part_inv p'' \<and>
      part_lookup p'' = (part_lookup p)(k \<mapsto> it) \<and> it_data it = it_data kv \<and> \<not> item_islocked it))"
proof -
  define nr where "nr = fst (draw_handle seed)"
  define it :: "'a mht_item" where "it = (item_new None 0 k)\<lparr>it_reservation := True, it_lock := nr\<rparr>"
  let ?p = "p\<lparr>p_storage := p_storage p @ [store it]\<rparr>"
  have nr: "nr \<noteq> 0" unfolding nr_def by (rule draw_handle_not_0)
  have key: "it_key it = k" by (simp add: it_def item_new_def)
  have w: "walk k (p_storage p) = Inr None"
    by (rule walk_cases [OF assms(1), of k]) (use assms(2) in auto)
  have r: "part_reserve k p seed = Inr (nr, ?p, snd (draw_handle seed))"
    using w by (simp add: part_reserve_def item_lock_ok item_new_def it_def nr_def)
  have inv: "part_inv ?p" and lk: "part_lookup ?p = (part_lookup p)(k \<mapsto> it)"
    using part_append [OF assms(1), of it] assms(2) key by simp_all
  have l: "item_islocked it" "it_lock it = nr" "it_data it = None"
    using nr by (simp_all add: item_islocked_def it_def item_new_def)
  have again: "part_reserve k ?p s = Inr (0, ?p, s)" for s
    by (rule walk_cases [OF inv, of k]) (use lk in \<open>auto simp: part_reserve_def\<close>)
  have "\<exists>p'' it. part_put kv nr ?p = Inr (NO_ERROR, p'') \<and> part_inv p'' \<and>
      part_lookup p'' = (part_lookup p)(k \<mapsto> it) \<and> it_data it = it_data kv \<and> \<not> item_islocked it"
    if kv: "it_key kv = k" for kv
    by (rule part_put_found [OF inv, of kv it nr])
      (use kv lk l in \<open>auto simp: item_islocked_def\<close>)
  then show ?thesis using r nr inv again part_put_denied [OF inv _ l(1)] lk l(2) by auto
qed

theorem part_reservation_witness:
  "\<exists>nr (p' :: string partition) seed'. part_reserve 7 (partition_new 3) 1 = Inr (nr, p', seed') \<and> nr \<noteq> 0 \<and>
     (\<forall>s. part_reserve 7 p' s = Inr (0, p', s))"
  using part_reservation [of "partition_new 3 :: string partition" 7 1] by auto

text \<open>C32. Releasing a reservation with its number reports success but leaves the deleted item linked:
  afterwards every walk to that key touches freed memory, so it can be neither read, locked, put
  nor reserved again.\<close>

theorem part_release_dangling:
  assumes "part_inv p" and "part_lookup p k = Some it" and "it_lock it = nr" and "nr \<noteq> 0" and "\<not> it_stale it"
  shows "\<exists>p'. part_release k nr p = Inr (NO_ERROR, p', it_tickets it) \<and> walk k (p_storage p') = Inl Use_after_free \<and>
    (\<forall>s. part_reserve k p' s = Inl Use_after_free) \<and> (\<forall>s. part_lock k p' s = Inl Use_after_free) \<and>
    (\<forall>kv h. it_key kv = k \<longrightarrow> part_put kv h p' = Inl Use_after_free)"
  using assms(1)
proof (cases rule: walk_cases [where k = k, case_names absent present])
  case (present pre it0 post)
  let ?ss = "pre @ \<lparr>s_freed = True, s_item = it\<lparr>it_lock := 0, it_stale := (it_tickets it \<noteq> [])\<rparr>\<rparr> # post"
  have "it0 = it" using present assms(2) by simp
  have nf: "\<forall>s\<in>set pre. \<not> s_freed s" using assms(1) present(1) by (simp add: part_inv_def)
  have "item_unlock nr it = Inr (True, it\<lparr>it_lock := 0, it_stale := (it_tickets it \<noteq> [])\<rparr>, it_tickets it)"
    using assms(3-5) by (simp add: item_unlock_def)
  then have "release_loop k nr NO_ERROR (pre @ store it # post) = Inr (NO_ERROR, ?ss, it_tickets it)"
    using nf present(2,3) \<open>it0 = it\<close> by (intro release_loop_found) simp_all
  then have r: "part_release k nr p = Inr (NO_ERROR, p\<lparr>p_storage := ?ss\<rparr>, it_tickets it)"
    using present(1) \<open>it0 = it\<close> by (simp add: part_release_def)
  have w: "walk k ?ss = Inl Use_after_free"
    using nf present(3) by (simp add: walk_skip)
  show ?thesis
    by (rule exI [of _ "p\<lparr>p_storage := ?ss\<rparr>"])
      (simp add: r w part_reserve_def part_lock_def part_put_def)
qed (use assms in simp)

theorem part_release_dangling_witness:
  "\<exists>p'. part_release 7 9 \<lparr>p_id = 3, p_storage = [store ((item_new (None :: string option) 0 7)\<lparr>it_lock := 9\<rparr>)]\<rparr> =
       Inr (NO_ERROR, p', []) \<and> walk 7 (p_storage p') = Inl Use_after_free"
  using part_release_dangling [of "\<lparr>p_id = 3, p_storage = [store ((item_new (None :: string option) 0 7)\<lparr>it_lock := 9\<rparr>)]\<rparr>" 7
      "(item_new None 0 7)\<lparr>it_lock := 9\<rparr>" 9]
  by (auto simp: part_inv_def part_keys_def part_lookup_def store_def item_new_def)

text \<open>C33. Unlocking an item that threads wait for deletes their tickets but leaves them linked: from
  then on neither another thread can wait for the item nor can it be unlocked a second time
  without touching freed memory.\<close>

theorem item_unlock_contended:
  assumes "it_lock it = h" and "h \<noteq> 0" and "\<not> it_stale it" and "it_tickets it \<noteq> []"
  shows "\<exists>it'. item_unlock h it = Inr (True, it', it_tickets it) \<and> \<not> item_islocked it' \<and>
    (\<forall>tid. item_enqueueTicket tid it' = Inl Use_after_free) \<and>
    (\<forall>seed. \<exists>g it'' seed'. item_lock it' seed = Inr (g, it'', seed') \<and> item_unlock g it'' = Inl Use_after_free)"
  using assms
  by (auto simp: item_unlock_def item_islocked_def item_enqueueTicket_def item_lock_ok draw_handle_not_0)

theorem item_unlock_contended_witness:
  "\<exists>it'. item_unlock 9 ((item_new (None :: string option) 0 7)\<lparr>it_lock := 9, it_tickets := [4]\<rparr>) = Inr (True, it', [4]) \<and>
     (\<forall>tid. item_enqueueTicket tid it' = Inl Use_after_free)"
  using item_unlock_contended [of "(item_new (None :: string option) 0 7)\<lparr>it_lock := 9, it_tickets := [4]\<rparr>" 9]
  by (auto simp: item_new_def)

text \<open>C30. The loop that draws a lock handle ends for every state of the random number generator: the handle is the first number that is
  not 0 in the sequence the generator produces from that state on.\<close>

theorem lock_handle_loop_ends:
  "\<exists>n. draw_handle seed = random_get ((random_next ^^ n) seed) \<and> fst (draw_handle seed) \<noteq> 0 \<and>
     list_all (\<lambda>m. fst (random_get ((random_next ^^ m) seed)) = 0) [0..<n]"
proof (induction seed rule: draw_handle.induct)
  case (1 seed)
  obtain h seed' where r: "random_get seed = (h, seed')" by fastforce
  show ?case
  proof (cases "h = 0")
    case False
    then show ?thesis using r by (intro exI [of _ 0]) (simp add: draw_handle.simps [of seed])
  next
    case True
    have s': "seed' = random_next seed" using r by (auto simp: random_get_def Let_def)
    obtain n where n: "draw_handle seed' = random_get ((random_next ^^ n) seed')" "fst (draw_handle seed') \<noteq> 0"
        "list_all (\<lambda>m. fst (random_get ((random_next ^^ m) seed')) = 0) [0..<n]"
      using "1.IH" [OF r [symmetric]] True by auto
    have "draw_handle seed = draw_handle seed'" using r True by (simp add: draw_handle.simps [of seed])
    moreover have "fst (random_get ((random_next ^^ m) seed)) = 0" if "m < Suc n" for m
      using that n(3) r True s' by (cases m) (auto simp: list_all_iff funpow_swap1)
    ultimately show ?thesis using n(1,2) s'
      by (intro exI [of _ "Suc n"]) (simp add: list_all_iff funpow_swap1 del: funpow.simps upt_Suc, simp add: funpow_swap1)
  qed
qed

end
