(* ===== verification/MHT_Instance.thy ===== *)
theory MHT_Instance
  imports MHT_Partition KV_Store
begin

unbundle bit_operations_syntax

text \<open>
  One kernel's part of the distributed data layer, \<^verbatim>\<open>kernel::MHTInstance\<close>
  (\<^verbatim>\<open>src/src/apps/kernel/ddl/MHTInstance.cc\<close>): the membership table that names the responsible
  kernel of every PE, the partitions stored locally, and the routing of requests to other kernels.
  Requests to other kernels are the messages of \<^verbatim>\<open>Kernelcalls.cc\<close>; they are appended to an outbox
  together with the kernel they are sent to. A call that waits for a reply stops with \<open>Blocked\<close>.
\<close>

section \<open>State\<close>

definition MF_NONE :: u8 where "MF_NONE = 0"
definition MF_MIGRATING :: u8 where "MF_MIGRATING = 1"
definition MF_UNMANAGED :: u8 where "MF_UNMANAGED = 2"
definition MF_NOCHANGE :: u8 where "MF_NOCHANGE = 4"
definition MF_UNPOPULATED :: u8 where "MF_UNPOPULATED = 0xFF"

lemmas flag_defs = MF_NONE_def MF_MIGRATING_def MF_UNMANAGED_def MF_NOCHANGE_def MF_UNPOPULATED_def

record membership_entry =
  me_pe :: pe_id_t
  me_krnl :: krnl_id_t
  me_capacity :: u16
  me_flags :: u8

record migrating_partition =
  mg_partition :: pe_id_t
  mg_krnl :: krnl_id_t
  mg_core :: pe_id_t

text \<open>The messages of the data layer, by operation code and content.\<close>

datatype 'd mht_msg =
    MHTPUT "u32 option" "'d mht_item"
  | MHTGET int mht_key_t
  | MHTGETLOCKING int mht_key_t
  | MHTLOCK int mht_key_t
  | MHTUNLOCK mht_key_t u32
  | MHTRESERVE int mht_key_t
  | MHTRELEASE mht_key_t u32
  | MEMBERUPDATE krnl_id_t pe_id_t u8 "pe_id_t list"
  | PARTITIONMIG "(pe_id_t \<times> (mht_key_t \<times> u32 \<times> 'd option) list) list"

record 'd mht =
  mi_kid :: krnl_id_t
  mi_table :: "membership_entry list"
  mi_parts :: "'d partition list"
  mi_migrating :: "migrating_partition list"
  mi_kpes :: "(krnl_id_t, pe_id_t) kvstore"
  mi_seed :: u32
  mi_out :: "(krnl_id_t \<times> 'd mht_msg) list"

definition mht_new :: "krnl_id_t \<Rightarrow> nat \<Rightarrow> 'd mht" where
  "mht_new kid pe_count =
     \<lparr>mi_kid = kid,
      mi_table = map (\<lambda>i. \<lparr>me_pe = of_nat i, me_krnl = kid, me_capacity = 1, me_flags = MF_NONE\<rparr>) [0..<pe_count]
        @ map (\<lambda>i. \<lparr>me_pe = of_nat i, me_krnl = kid, me_capacity = 1, me_flags = MF_UNPOPULATED\<rparr>) [pe_count..<MAX_PES],
      mi_parts = map (\<lambda>i. partition_new (of_nat i)) ([0..<pe_count] @ [pe_count..<MAX_PES]),
      mi_migrating = [], mi_kpes = [], mi_seed = random_init 1, mi_out = []\<rparr>"

section \<open>Sending\<close>

definition send :: "krnl_id_t \<Rightarrow> 'd mht_msg \<Rightarrow> 'd mht \<Rightarrow> 'd mht" where
  "send dest msg s = s\<lparr>mi_out := mi_out s @ [(dest, msg)]\<rparr>"

definition kc_mhtput :: "krnl_id_t \<Rightarrow> 'd mht_item \<Rightarrow> 'd mht \<Rightarrow> 'd mht" where
  "kc_mhtput dest input s = send dest (MHTPUT None input) s"

definition kc_mhtputUnlocking :: "krnl_id_t \<Rightarrow> 'd mht_item \<Rightarrow> u32 \<Rightarrow> 'd mht \<Rightarrow> 'd mht" where
  "kc_mhtputUnlocking dest input lockHandle s = send dest (MHTPUT (Some lockHandle) input) s"

definition kc_mhtgetLocking :: "krnl_id_t \<Rightarrow> int \<Rightarrow> mht_key_t \<Rightarrow> 'd mht \<Rightarrow> 'd mht" where
  "kc_mhtgetLocking dest tid key s = send dest (MHTGETLOCKING tid key) s"

definition kc_mhtunlock :: "krnl_id_t \<Rightarrow> mht_key_t \<Rightarrow> u32 \<Rightarrow> 'd mht \<Rightarrow> 'd mht" where
  "kc_mhtunlock dest key lockHandle s = send dest (MHTUNLOCK key lockHandle) s"

definition kc_mhtRelease :: "krnl_id_t \<Rightarrow> mht_key_t \<Rightarrow> u32 \<Rightarrow> 'd mht \<Rightarrow> 'd mht" where
  "kc_mhtRelease dest key reservation s = send dest (MHTRELEASE key reservation) s"

text \<open>\<^verbatim>\<open>Coordinator::getKPE\<close> panics for an unknown kernel, \<^verbatim>\<open>tryGetKPE\<close> returns null.\<close>

definition getKPE :: "krnl_id_t \<Rightarrow> 'd mht \<Rightarrow> krnl_id_t result" where
  "getKPE kid s = rbind (kv_get (mi_kpes s) kid) (\<lambda>_. Inr kid)"

definition tryGetKPE :: "krnl_id_t \<Rightarrow> 'd mht \<Rightarrow> krnl_id_t option" where
  "tryGetKPE kid s = (if kv_exists (mi_kpes s) kid then Some kid else None)"

definition isKPE :: "pe_id_t \<Rightarrow> 'd mht \<Rightarrow> bool" where
  "isKPE pe s = list_ex (\<lambda>e. kv_val e = pe) (mi_kpes s)"

definition broadcastMemberUpdate :: "pe_id_t list \<Rightarrow> krnl_id_t \<Rightarrow> pe_id_t \<Rightarrow> u8 \<Rightarrow> 'd mht \<Rightarrow> 'd mht" where
  "broadcastMemberUpdate pes krnl krnlCore flags s =
     foldl (\<lambda>s e. send (kv_id e) (MEMBERUPDATE krnl krnlCore flags pes) s) s (mi_kpes s)"

section \<open>Routing\<close>

definition responsibleKrnl :: "'d mht \<Rightarrow> pe_id_t \<Rightarrow> krnl_id_t" where
  "responsibleKrnl s pe = me_krnl (mi_table s ! unat pe)"

definition responsibleMember :: "'d mht \<Rightarrow> mht_key_t \<Rightarrow> krnl_id_t" where
  "responsibleMember s key = responsibleKrnl s (hashToPeId key)"

definition keyLocality :: "'d mht \<Rightarrow> mht_key_t \<Rightarrow> bool" where
  "keyLocality s key =
     (if me_flags (mi_table s ! unat (hashToPeId key)) AND MF_MIGRATING = 0
      then responsibleMember s key = mi_kid s else False)"

definition findPartition :: "'d mht \<Rightarrow> mht_key_t \<Rightarrow> 'd partition option" where
  "findPartition s key =
     (if responsibleMember s key \<noteq> mi_kid s then None
      else List.find (\<lambda>p. p_id p = hashToPeId key) (mi_parts s))"

definition getMigrationDestination :: "pe_id_t \<Rightarrow> 'd mht \<Rightarrow> krnl_id_t option" where
  "getMigrationDestination part s = map_option mg_krnl (List.find (\<lambda>m. mg_partition m = part) (mi_migrating s))"

definition localPEs :: "'d mht \<Rightarrow> nat" where
  "localPEs s = length (filter (\<lambda>e. me_krnl e = mi_kid s \<and> me_flags e \<noteq> MF_UNPOPULATED \<and>
     me_flags e \<noteq> MF_UNMANAGED) (take MAX_PES (mi_table s)))"

text \<open>Storing the partition an operation worked on back into the list.\<close>

definition set_partition :: "'d partition \<Rightarrow> 'd mht \<Rightarrow> 'd mht" where
  "set_partition p s = s\<lparr>mi_parts := update_first (\<lambda>q. p_id q = p_id p) (\<lambda>_. p) (mi_parts s)\<rparr>"

section \<open>Operations\<close>

definition mht_put :: "'d mht_item \<Rightarrow> 'd mht \<Rightarrow> (code \<times> 'd mht) result" where
  "mht_put kv s =
     (case findPartition s (it_key kv) of
        Some part \<Rightarrow> rbind (part_put kv 0 part) (\<lambda>(err, part'). Inr (err, set_partition part' s))
      | None \<Rightarrow>
          (let krnlID = responsibleMember s (it_key kv);
               dest = (case tryGetKPE krnlID s of
                   Some k \<Rightarrow> Some k
                 | None \<Rightarrow> getMigrationDestination (hashToPeId (it_key kv)) s)
           in case dest of
                Some k \<Rightarrow> Inr (NO_ERROR, kc_mhtput k kv s)
              | None \<Rightarrow> Inr (INV_ARGS, s)))"

definition mht_putUnlocking :: "'d mht_item \<Rightarrow> u32 \<Rightarrow> 'd mht \<Rightarrow> (code \<times> 'd mht) result" where
  "mht_putUnlocking kv lockHandle s =
     (case findPartition s (it_key kv) of
        Some part \<Rightarrow> rbind (part_put kv lockHandle part) (\<lambda>(err, part'). Inr (err, set_partition part' s))
      | None \<Rightarrow> rbind (getKPE (responsibleMember s (it_key kv)) s)
          (\<lambda>k. Inr (NO_ERROR, kc_mhtputUnlocking k kv lockHandle s)))"

text \<open>A call that may have to wait: for an unlock by another thread, or for a reply.\<close>

datatype 'a outcome = Returns 'a | Blocked

definition mht_localGet :: "mht_key_t \<Rightarrow> bool \<Rightarrow> int \<Rightarrow> 'd mht \<Rightarrow> ('d get_outcome \<times> 'd mht) result" where
  "mht_localGet key locking tid s =
     (case findPartition s key of
        None \<Rightarrow> Inl Assert_failed
      | Some part \<Rightarrow> rbind (part_get key locking tid part (mi_seed s))
          (\<lambda>(r, part', seed). Inr (r, (set_partition part' s)\<lparr>mi_seed := seed\<rparr>)))"

definition mht_remoteGet :: "mht_key_t \<Rightarrow> bool \<Rightarrow> int \<Rightarrow> 'd mht \<Rightarrow> 'd mht result" where
  "mht_remoteGet key locking tid s =
     rbind (getKPE (responsibleMember s key) s)
       (\<lambda>k. Inr (if locking then kc_mhtgetLocking k tid key s else send k (MHTGET tid key) s))"

text \<open>\<^verbatim>\<open>lockLocal\<close> up to the first wait, and what it does once it is notified. The result is the
  \<^verbatim>\<open>int\<close> of the partition, returned as \<^verbatim>\<open>uint\<close>.\<close>

definition mht_lockLocal :: "mht_key_t \<Rightarrow> int \<Rightarrow> 'd mht \<Rightarrow> (u32 outcome \<times> 'd mht) result" where
  "mht_lockLocal key tid s =
     (case findPartition s key of
        None \<Rightarrow> Inl Null_deref
      | Some part \<Rightarrow> rbind (part_lock key part (mi_seed s)) (\<lambda>(h, part', seed).
          if h = -1 then rbind (part_enqueueTicket key tid part') (\<lambda>part''. Inr (Blocked, set_partition part'' s))
          else Inr (Returns (word_of_int h), (set_partition part' s)\<lparr>mi_seed := seed\<rparr>)))"

definition mht_lockLocal_resumed :: "mht_key_t \<Rightarrow> 'd mht \<Rightarrow> (u32 \<times> 'd mht) result" where
  "mht_lockLocal_resumed key s =
     (case findPartition s key of
        None \<Rightarrow> Inl Panic
      | Some part \<Rightarrow> rbind (part_lock key part (mi_seed s))
          (\<lambda>(h, part', seed). Inr (word_of_int h, (set_partition part' s)\<lparr>mi_seed := seed\<rparr>)))"

definition mht_lock :: "mht_key_t \<Rightarrow> int \<Rightarrow> 'd mht \<Rightarrow> (u32 outcome \<times> 'd mht) result" where
  "mht_lock key tid s =
     (case findPartition s key of
        Some _ \<Rightarrow> mht_lockLocal key tid s
      | None \<Rightarrow> rbind (getKPE (responsibleMember s key) s) (\<lambda>k. Inr (Blocked, send k (MHTLOCK tid key) s)))"

definition mht_unlockLocal :: "mht_key_t \<Rightarrow> u32 \<Rightarrow> 'd mht \<Rightarrow> (bool \<times> 'd mht \<times> int list) result" where
  "mht_unlockLocal key lockHandle s =
     (case findPartition s key of
        None \<Rightarrow> Inl Assert_failed
      | Some part \<Rightarrow> rbind (part_unlock key lockHandle part)
          (\<lambda>(ok, part', tids). Inr (ok, set_partition part' s, tids)))"

definition mht_unlock :: "mht_key_t \<Rightarrow> u32 \<Rightarrow> 'd mht \<Rightarrow> (bool \<times> 'd mht \<times> int list) result" where
  "mht_unlock key lockHandle s =
     (if responsibleMember s key = mi_kid s then mht_unlockLocal key lockHandle s
      else rbind (getKPE (responsibleMember s key) s) (\<lambda>k. Inr (True, kc_mhtunlock k key lockHandle s, [])))"

definition mht_reserve :: "mht_key_t \<Rightarrow> int \<Rightarrow> 'd mht \<Rightarrow> (u32 outcome \<times> 'd mht) result" where
  "mht_reserve key tid s =
     (case findPartition s key of
        Some part \<Rightarrow> rbind (part_reserve key part (mi_seed s))
          (\<lambda>(nr, part', seed). Inr (Returns nr, (set_partition part' s)\<lparr>mi_seed := seed\<rparr>))
      | None \<Rightarrow> rbind (getKPE (responsibleMember s key) s) (\<lambda>k. Inr (Blocked, send k (MHTRESERVE tid key) s)))"

definition mht_release :: "mht_key_t \<Rightarrow> u32 \<Rightarrow> 'd mht \<Rightarrow> (code \<times> 'd mht \<times> int list) result" where
  "mht_release key reservation s =
     (case findPartition s key of
        Some part \<Rightarrow> rbind (part_release key reservation part)
          (\<lambda>(err, part', tids). Inr (err, set_partition part' s, tids))
      | None \<Rightarrow> rbind (getKPE (responsibleMember s key) s)
          (\<lambda>k. Inr (NO_ERROR, kc_mhtRelease k key reservation s, [])))"

section \<open>Membership\<close>

definition drop_migrating :: "nat \<Rightarrow> 'd mht \<Rightarrow> 'd mht" where
  "drop_migrating idx s = s\<lparr>mi_migrating := filter (\<lambda>m. unat (mg_krnl m) \<noteq> idx) (mi_migrating s)\<rparr>"

text \<open>One round of the loop of \<^verbatim>\<open>updateMembership\<close>.\<close>

definition update_member :: "krnl_id_t \<Rightarrow> pe_id_t \<Rightarrow> u8 \<Rightarrow> pe_id_t \<Rightarrow> 'd mht \<Rightarrow> 'd mht" where
  "update_member krnl krnlCore flags pe s =
     (let idx = unat pe; e = (mi_table s ! idx)\<lparr>me_krnl := krnl\<rparr>;
          s = s\<lparr>mi_table := (mi_table s)[idx := e]\<rparr>
      in if flags = MF_NOCHANGE then s
         else (let s = (if me_flags e AND MF_MIGRATING \<noteq> 0 then drop_migrating idx s else s);
                   s = (if flags AND MF_MIGRATING \<noteq> 0
                        then s\<lparr>mi_migrating := mi_migrating s @
                          [\<lparr>mg_partition = pe, mg_krnl = krnl, mg_core = krnlCore\<rparr>]\<rparr> else s)
               in s\<lparr>mi_table := (mi_table s)[idx := e\<lparr>me_flags := flags\<rparr>]\<rparr>))"

text \<open>\<open>pes\<close> is the array of PE descriptors, given by their core ids, \<open>numPEs\<close> the length the caller passes.\<close>

definition updateMembership :: "pe_id_t list \<Rightarrow> nat \<Rightarrow> krnl_id_t \<Rightarrow> pe_id_t \<Rightarrow> u8 \<Rightarrow> bool \<Rightarrow> 'd mht \<Rightarrow> 'd mht result" where
  "updateMembership pes numPEs krnl krnlCore flags propagate s =
     (if \<not> numPEs \<le> MAX_PES then Inl Assert_failed
      else if length pes < numPEs then Inl Out_of_bounds
      else (let s = (if propagate \<and> flags AND MF_MIGRATING = 0
                     then broadcastMemberUpdate (take numPEs pes) krnl krnlCore flags s else s)
            in Inr (foldl (\<lambda>s pe. update_member krnl krnlCore flags pe s) s (take numPEs pes))))"

definition updateMembership_range ::
  "pe_id_t \<Rightarrow> krnl_id_t \<Rightarrow> pe_id_t \<Rightarrow> u16 \<Rightarrow> u8 \<Rightarrow> bool \<Rightarrow> 'd mht \<Rightarrow> 'd mht result" where
  "updateMembership_range start krnl krnlCore capacity flags propagate s =
     (if \<not> unat capacity \<le> MAX_PES then Inl Assert_failed
      else updateMembership (map of_nat [unat start ..< unat start + unat capacity])
        (unat start + unat capacity) krnl krnlCore flags propagate s)"

section \<open>Moving partitions to another kernel\<close>

definition is_cap_type :: "item_type \<Rightarrow> bool" where
  "is_cap_type t \<longleftrightarrow> t = MSGCAP \<or> t = SRVCAP \<or> t = SESSCAP \<or> t = VPECAP \<or> t = MEMCAP"

definition item_serialize :: "'d mht_item \<Rightarrow> (mht_key_t \<times> u32 \<times> 'd option) result" where
  "item_serialize it =
     (let t = hashToType (it_key it) in
      if is_cap_type t
      then (if it_data it = None then Inl Null_deref else Inr (it_key it, it_length it, it_data it))
      else if t = SERVICE \<or> t = MSGOBJ \<or> t = MEMOBJ then Inl Panic
      else Inr (it_key it, it_length it, it_data it))"

definition item_deserialize :: "mht_key_t \<times> u32 \<times> 'd option \<Rightarrow> 'd mht_item result" where
  "item_deserialize w =
     (case w of (key, len, d) \<Rightarrow>
        if is_cap_type (hashToType key) then Inr (item_new d len key) else Inl Panic)"

fun storage_serialize :: "'d storable list \<Rightarrow> (mht_key_t \<times> u32 \<times> 'd option) list result" where
  "storage_serialize [] = Inr []"
| "storage_serialize (s # ss) =
     (if s_freed s then Inl Use_after_free
      else rbind (item_serialize (s_item s)) (\<lambda>w. rbind (storage_serialize ss) (\<lambda>ws. Inr (w # ws))))"

definition part_serialize :: "'d partition \<Rightarrow> (pe_id_t \<times> (mht_key_t \<times> u32 \<times> 'd option) list) result" where
  "part_serialize p = rbind (storage_serialize (p_storage p)) (\<lambda>ws. Inr (p_id p, ws))"

fun storage_deserialize :: "(mht_key_t \<times> u32 \<times> 'd option) list \<Rightarrow> 'd storable list result" where
  "storage_deserialize [] = Inr []"
| "storage_deserialize (w # ws) =
     rbind (item_deserialize w) (\<lambda>it. rbind (storage_deserialize ws) (\<lambda>ss. Inr (store it # ss)))"

definition part_deserialize :: "pe_id_t \<times> (mht_key_t \<times> u32 \<times> 'd option) list \<Rightarrow> 'd partition result" where
  "part_deserialize w = rbind (storage_deserialize (snd w)) (\<lambda>ss. Inr \<lparr>p_id = fst w, p_storage = ss\<rparr>)"

fun collect_parts :: "'d mht \<Rightarrow> pe_id_t list \<Rightarrow> (pe_id_t \<times> (mht_key_t \<times> u32 \<times> 'd option) list) list result" where
  "collect_parts s [] = Inr []"
| "collect_parts s (pe # pes) =
     (case findPartition s (structured_hash pe 0 NOTYPE 0) of
        None \<Rightarrow> Inl Assert_failed
      | Some part \<Rightarrow> rbind (part_serialize part) (\<lambda>w. rbind (collect_parts s pes) (\<lambda>ws. Inr (w # ws))))"

definition migratePartitions :: "pe_id_t list \<Rightarrow> krnl_id_t \<Rightarrow> 'd mht \<Rightarrow> 'd mht result" where
  "migratePartitions pes receiver s =
     rbind (collect_parts s pes) (\<lambda>ws. rbind (getKPE receiver s) (\<lambda>k. Inr (send k (PARTITIONMIG ws) s)))"

fun receivePartitions :: "(pe_id_t \<times> (mht_key_t \<times> u32 \<times> 'd option) list) list \<Rightarrow> 'd mht \<Rightarrow> 'd mht result" where
  "receivePartitions [] s = Inr s"
| "receivePartitions (w # ws) s =
     rbind (part_deserialize w) (\<lambda>part.
       if findPartition s (structured_hash (p_id part) 0 NOTYPE 0) \<noteq> None then Inl Assert_failed
       else receivePartitions ws (s\<lparr>mi_parts := mi_parts s @ [part]\<rparr>))"

section \<open>Well-formed instances\<close>

definition mht_inv :: "'d mht \<Rightarrow> bool" where
  "mht_inv s \<longleftrightarrow> length (mi_table s) = MAX_PES \<and> distinct (map p_id (mi_parts s)) \<and>
     (\<forall>p\<in>set (mi_parts s). part_inv p) \<and>
     (\<forall>pe. unat pe < MAX_PES \<longrightarrow> responsibleKrnl s pe = mi_kid s \<longrightarrow> pe \<in> p_id ` set (mi_parts s))"

text \<open>The item a well-formed kernel stores under a key, if the key is its own.\<close>

definition mht_lookup :: "'d mht \<Rightarrow> mht_key_t \<Rightarrow> 'd mht_item option" where
  "mht_lookup s key = Option.bind (findPartition s key) (\<lambda>p. part_lookup p key)"

lemma hashToPeId_less: "unat (hashToPeId k) < MAX_PES"
  using hash_fields_bound(1) [of k] by (simp add: PE_BITS_def MAX_PES_def)

lemma findPartition_Some:
  "findPartition s k = Some p \<Longrightarrow> p \<in> set (mi_parts s) \<and> p_id p = hashToPeId k \<and> responsibleMember s k = mi_kid s"
  by (auto simp: findPartition_def dest: find_Some_memD split: if_splits)

lemma findPartition_None:
  assumes "mht_inv s" shows "findPartition s k = None \<longleftrightarrow> responsibleMember s k \<noteq> mi_kid s"
proof
  assume none: "findPartition s k = None"
  show "responsibleMember s k \<noteq> mi_kid s"
  proof
    assume r: "responsibleMember s k = mi_kid s"
    then have "hashToPeId k \<in> p_id ` set (mi_parts s)"
      using assms hashToPeId_less [of k] by (simp add: mht_inv_def responsibleMember_def)
    then show False using none r by (auto simp: findPartition_def find_None_iff)
  qed
qed (simp add: findPartition_def)

lemma mht_inv_new:
  assumes "n \<le> MAX_PES" shows "mht_inv (mht_new kid n :: 'd mht)"
proof -
  have upt: "[0..<n] @ [n..<MAX_PES] = [0..<MAX_PES]"
    using assms upt_add_eq_append [of 0 n "MAX_PES - n"] by simp
  have parts: "map p_id (mi_parts (mht_new kid n :: 'd mht)) = map of_nat [0..<MAX_PES]"
    using upt by (simp add: mht_new_def partition_new_def comp_def flip: map_append)
  have "inj_on (of_nat :: nat \<Rightarrow> pe_id_t) {0..<MAX_PES}"
    by (rule inj_onI) (auto simp: MAX_PES_def word_of_nat_eq_iff take_bit_nat_eq_self)
  then have d: "distinct (map p_id (mi_parts (mht_new kid n :: 'd mht)))"
    unfolding parts by (simp add: distinct_map)
  have "pe \<in> p_id ` set (mi_parts (mht_new kid n :: 'd mht))" if "unat pe < MAX_PES" for pe
  proof -
    have "pe = of_nat (unat pe)" by simp
    then have "pe \<in> set (map of_nat [0..<MAX_PES])" using that by (metis atLeastLessThan_upt imageI list.set_map lessThan_iff lessThan_atLeast0 image_eqI)
    then show ?thesis using parts by (metis list.set_map)
  qed
  then show ?thesis using d assms unfolding mht_inv_def by (auto simp: mht_new_def)
qed

lemma set_partition_simps [simp]:
  "mi_kid (set_partition p s) = mi_kid s" "mi_table (set_partition p s) = mi_table s"
  "mi_out (set_partition p s) = mi_out s" "mi_kpes (set_partition p s) = mi_kpes s"
  "mi_migrating (set_partition p s) = mi_migrating s" "mi_seed (set_partition p s) = mi_seed s"
  "responsibleKrnl (set_partition p s) = responsibleKrnl s"
  "responsibleMember (set_partition p s) = responsibleMember s"
  by (simp_all add: set_partition_def responsibleKrnl_def responsibleMember_def fun_eq_iff)

lemma set_partition_find:
  "p_id p \<in> p_id ` set (mi_parts s) \<Longrightarrow>
   List.find (\<lambda>q. p_id q = pe) (mi_parts (set_partition p s)) =
     (if pe = p_id p then Some p else List.find (\<lambda>q. p_id q = pe) (mi_parts s))"
  using find_key_None [of p_id "p_id p" "mi_parts s"]
  unfolding set_partition_def by (auto simp: find_key_update_first)

lemma set_partition_inv:
  assumes "mht_inv s" and "p_id p \<in> p_id ` set (mi_parts s)" and "part_inv p"
  shows "mht_inv (set_partition p s)"
proof -
  have ids: "map p_id (mi_parts (set_partition p s)) = map p_id (mi_parts s)"
    by (simp add: set_partition_def map_update_first)
  have "set (mi_parts (set_partition p s)) \<subseteq> insert p (set (mi_parts s))"
    using set_update_first [of "\<lambda>q. p_id q = p_id p" "\<lambda>_. p" "mi_parts s"] by (auto simp: set_partition_def)
  then show ?thesis
    using assms ids unfolding mht_inv_def by (metis (no_types, lifting) insertE list.set_map set_partition_simps(1,2,7) subsetD)
qed

lemma mht_lookup_set_partition:
  assumes "findPartition s k = Some p" and "p_id p' = p_id p"
    and "part_lookup p' = (part_lookup p)(k := v)"
  shows "mht_lookup (set_partition p' s) = (mht_lookup s)(k := v)"
proof
  fix x
  note p = findPartition_Some [OF assms(1)]
  have mem: "p_id p' \<in> p_id ` set (mi_parts s)" using p assms(2) by (auto intro: image_eqI [of _ _ p])
  have f: "findPartition (set_partition p' s) x =
      (if hashToPeId x = p_id p' \<and> responsibleMember s x = mi_kid s then Some p' else findPartition s x)"
    by (simp add: findPartition_def set_partition_find [OF mem])
  have same: "findPartition s x = Some p" if "hashToPeId x = p_id p'" "responsibleMember s x = mi_kid s"
    using that assms p by (simp add: findPartition_def)
  show "mht_lookup (set_partition p' s) x = ((mht_lookup s)(k := v)) x"
    using f same assms p by (auto simp: mht_lookup_def)
qed

text \<open>Locally stored keys: the partition is found, and replacing it keeps the instance well formed.\<close>

lemma local_partition:
  assumes "mht_inv s" and "responsibleMember s k = mi_kid s"
  obtains p where "findPartition s k = Some p" "part_inv p" "mht_lookup s k = part_lookup p k"
    "\<And>p'. part_inv p' \<Longrightarrow> p_id p' = p_id p \<Longrightarrow> mht_inv (set_partition p' s)"
proof -
  obtain p where p: "findPartition s k = Some p" using findPartition_None [OF assms(1), of k] assms(2) by auto
  note f = findPartition_Some [OF p]
  have "part_inv p" using f assms(1) by (simp add: mht_inv_def)
  moreover have "mht_inv (set_partition p' s)" if "part_inv p'" "p_id p' = p_id p" for p'
    using set_partition_inv [OF assms(1), of p'] that f by (metis imageI)
  ultimately show ?thesis using that [OF p] p by (simp add: mht_lookup_def)
qed

lemma responsibleKrnl_new:
  "n \<le> MAX_PES \<Longrightarrow> unat pe < MAX_PES \<Longrightarrow> responsibleKrnl (mht_new kid n) pe = mi_kid (mht_new kid n)"
  by (simp add: responsibleKrnl_def mht_new_def nth_append)

lemma responsibleMember_new: "n \<le> MAX_PES \<Longrightarrow> responsibleMember (mht_new kid n) k = mi_kid (mht_new kid n)"
  unfolding responsibleMember_def by (intro responsibleKrnl_new hashToPeId_less)

lemma mht_lookup_new: "mht_lookup (mht_new kid n :: 'd mht) k = None"
  using findPartition_Some [of "mht_new kid n :: 'd mht" k]
  by (cases "findPartition (mht_new kid n :: 'd mht) k") (auto simp: mht_lookup_def mht_new_def)

lemma mht_lookup_seed [simp]: "mht_lookup (s\<lparr>mi_seed := x\<rparr>) = mht_lookup s"
  by (simp add: mht_lookup_def findPartition_def responsibleMember_def responsibleKrnl_def fun_eq_iff)

lemma mht_inv_seed: "mht_inv s \<Longrightarrow> mht_inv (s\<lparr>mi_seed := x\<rparr>)"
  by (simp add: mht_inv_def responsibleKrnl_def)

lemma part_lock_id: "part_lock k p seed = Inr (h, p', seed') \<Longrightarrow> p_id p' = p_id p"
  by (auto simp: part_lock_def rbind_eq_Inr put_item_def split: option.splits if_splits)

section \<open>Membership updates\<close>

lemma update_member_simps [simp]:
  "mi_kid (update_member krnl c fl pe s) = mi_kid s" "mi_parts (update_member krnl c fl pe s) = mi_parts s"
  "mi_out (update_member krnl c fl pe s) = mi_out s" "mi_kpes (update_member krnl c fl pe s) = mi_kpes s"
  "length (mi_table (update_member krnl c fl pe s)) = length (mi_table s)"
  by (simp_all add: update_member_def Let_def drop_migrating_def)

lemma update_member_entry:
  assumes "unat pe < length (mi_table s)"
  shows "mi_table (update_member krnl c fl pe s) ! i =
    (if i = unat pe then (mi_table s ! i)\<lparr>me_krnl := krnl,
       me_flags := (if fl = MF_NOCHANGE then me_flags (mi_table s ! i) else fl)\<rparr>
     else mi_table s ! i)"
  using assms by (auto simp: update_member_def Let_def drop_migrating_def nth_list_update)

lemma update_members_entry:
  "\<forall>pe\<in>set pes. unat pe < length (mi_table s) \<Longrightarrow>
   mi_table (foldl (\<lambda>s pe. update_member krnl c fl pe s) s pes) ! i =
     (if \<exists>pe\<in>set pes. unat pe = i then (mi_table s ! i)\<lparr>me_krnl := krnl,
        me_flags := (if fl = MF_NOCHANGE then me_flags (mi_table s ! i) else fl)\<rparr>
      else mi_table s ! i)"
  by (induction pes arbitrary: s) (auto simp: update_member_entry)

lemma update_members_simps [simp]:
  "mi_kid (foldl (\<lambda>s pe. update_member krnl c fl pe s) s pes) = mi_kid s"
  "mi_parts (foldl (\<lambda>s pe. update_member krnl c fl pe s) s pes) = mi_parts s"
  "mi_out (foldl (\<lambda>s pe. update_member krnl c fl pe s) s pes) = mi_out s"
  "length (mi_table (foldl (\<lambda>s pe. update_member krnl c fl pe s) s pes)) = length (mi_table s)"
  by (induction pes arbitrary: s) simp_all

lemma broadcast_simps [simp]:
  "mi_table (broadcastMemberUpdate pes krnl c fl s) = mi_table s"
  "mi_parts (broadcastMemberUpdate pes krnl c fl s) = mi_parts s"
  "mi_kid (broadcastMemberUpdate pes krnl c fl s) = mi_kid s"
  "mi_out (broadcastMemberUpdate pes krnl c fl s) =
     mi_out s @ map (\<lambda>e. (kv_id e, MEMBERUPDATE krnl c fl pes)) (mi_kpes s)"
proof -
  have "foldl (\<lambda>s e. send (kv_id e) m s) s es = s\<lparr>mi_out := mi_out s @ map (\<lambda>e. (kv_id e, m)) es\<rparr>"
    for m :: "'a mht_msg" and es :: "(krnl_id_t, pe_id_t) kvstore"
    by (induction es arbitrary: s) (simp_all add: send_def)
  then show "mi_table (broadcastMemberUpdate pes krnl c fl s) = mi_table s"
    "mi_parts (broadcastMemberUpdate pes krnl c fl s) = mi_parts s"
    "mi_kid (broadcastMemberUpdate pes krnl c fl s) = mi_kid s"
    "mi_out (broadcastMemberUpdate pes krnl c fl s) =
     mi_out s @ map (\<lambda>e. (kv_id e, MEMBERUPDATE krnl c fl pes)) (mi_kpes s)"
    by (simp_all add: broadcastMemberUpdate_def)
qed

section \<open>Properties\<close>

text \<open>C20. \<^verbatim>\<open>MHTInstance::put\<close> keeps the kernel well formed and routes the item: a new key of this kernel is
  stored here and nothing is sent; a key of a known other kernel leads to exactly one message with
  the item to that kernel; a key whose kernel is unknown goes to the migration target of its
  partition, or is rejected without a change.\<close>

theorem mht_put_routing:
  assumes "mht_inv s"
  shows "if responsibleMember s (it_key kv) = mi_kid s
    then mht_lookup s (it_key kv) = None \<longrightarrow>
      (\<exists>s'. mht_put kv s = Inr (NO_ERROR, s') \<and> mht_inv s' \<and> mi_out s' = mi_out s \<and>
        mht_lookup s' = (mht_lookup s)(it_key kv \<mapsto> kv))
    else case tryGetKPE (responsibleMember s (it_key kv)) s of
      Some k \<Rightarrow> mht_put kv s = Inr (NO_ERROR, s\<lparr>mi_out := mi_out s @ [(k, MHTPUT None kv)]\<rparr>) \<and>
        k = responsibleMember s (it_key kv)
    | None \<Rightarrow> (case getMigrationDestination (hashToPeId (it_key kv)) s of
        Some k \<Rightarrow> mht_put kv s = Inr (NO_ERROR, s\<lparr>mi_out := mi_out s @ [(k, MHTPUT None kv)]\<rparr>)
      | None \<Rightarrow> mht_put kv s = Inr (INV_ARGS, s))"
proof (cases "responsibleMember s (it_key kv) = mi_kid s")
  case True
  obtain p where p: "findPartition s (it_key kv) = Some p" "part_inv p" "mht_lookup s (it_key kv) = part_lookup p (it_key kv)"
      "\<And>p'. part_inv p' \<Longrightarrow> p_id p' = p_id p \<Longrightarrow> mht_inv (set_partition p' s)"
    by (rule local_partition [OF assms True]) blast
  show ?thesis
  proof (cases "mht_lookup s (it_key kv)")
    case None
    let ?p = "p\<lparr>p_storage := p_storage p @ [store kv]\<rparr>"
    have w: "walk (it_key kv) (p_storage p) = Inr None"
      by (rule walk_cases [OF p(2), of "it_key kv"]) (use None p(3) in auto)
    have "mht_put kv s = Inr (NO_ERROR, set_partition ?p s)"
      using p(1) w by (simp add: mht_put_def part_put_def)
    moreover have "part_inv ?p" "part_lookup ?p = (part_lookup p)(it_key kv \<mapsto> kv)"
      using part_append [OF p(2), of kv] None p(3) by simp_all
    ultimately show ?thesis using True None p(4) [of ?p] mht_lookup_set_partition [OF p(1), of ?p] by simp
  qed (use True in simp)
next
  case False
  then have "findPartition s (it_key kv) = None" using findPartition_None [OF assms] by blast
  then show ?thesis using False
    by (auto simp: mht_put_def kc_mhtput_def send_def tryGetKPE_def split: option.splits)
qed

theorem mht_put_routing_witness:
  "\<exists>s'. mht_put (item_new (Some ''x'') 1 7) (mht_new 0 4) = Inr (NO_ERROR, s') \<and> mht_inv s' \<and>
     mht_lookup s' = (mht_lookup (mht_new 0 4))(7 \<mapsto> item_new (Some ''x'') 1 7)"
proof -
  have inv: "mht_inv (mht_new 0 4 :: string mht)" by (rule mht_inv_new) (simp add: MAX_PES_def)
  have "responsibleMember (mht_new 0 4 :: string mht) 7 = mi_kid (mht_new 0 4 :: string mht)"
    by (rule responsibleMember_new) (simp add: MAX_PES_def)
  moreover have key: "it_key (item_new (Some ''x'') 1 7) = 7" by (simp add: item_new_def)
  ultimately have "\<exists>s'. mht_put (item_new (Some ''x'') 1 7) (mht_new 0 4) = Inr (NO_ERROR, s') \<and> mht_inv s' \<and>
      mi_out s' = mi_out (mht_new 0 4) \<and> mht_lookup s' = (mht_lookup (mht_new 0 4))(7 \<mapsto> item_new (Some ''x'') 1 7)"
    using mht_put_routing [OF inv, of "item_new (Some ''x'') 1 7", unfolded key] mht_lookup_new [where ?'d = string, of 0 4 7]
    by (simp only: if_True simp_thms)
  then show ?thesis by blast
qed

text \<open>C21. \<^verbatim>\<open>updateMembership\<close> gives exactly the listed PEs to the new kernel: their entries name it and,
  unless the flags say not to change, carry the new flags; all other entries and the partitions
  stay as they are, and every other kernel is told once, unless the move is still in progress.\<close>

theorem updateMembership_effect:
  assumes "length (mi_table s) = MAX_PES" and "\<forall>pe\<in>set pes. unat pe < MAX_PES" and "length pes \<le> MAX_PES"
  shows "\<exists>s'. updateMembership pes (length pes) krnl core fl propagate s = Inr s' \<and>
    mi_parts s' = mi_parts s \<and> length (mi_table s') = MAX_PES \<and>
    (\<forall>pe. unat pe < MAX_PES \<longrightarrow>
      responsibleKrnl s' pe = (if pe \<in> set pes then krnl else responsibleKrnl s pe) \<and>
      me_flags (mi_table s' ! unat pe) =
        (if pe \<in> set pes \<and> fl \<noteq> MF_NOCHANGE then fl else me_flags (mi_table s ! unat pe))) \<and>
    mi_out s' = mi_out s @ (if propagate \<and> fl AND MF_MIGRATING = 0
      then map (\<lambda>e. (kv_id e, MEMBERUPDATE krnl core fl pes)) (mi_kpes s) else [])"
proof -
  define s1 where "s1 = (if propagate \<and> fl AND MF_MIGRATING = 0 then broadcastMemberUpdate pes krnl core fl s else s)"
  have t: "mi_table s1 = mi_table s" by (simp add: s1_def)
  have "(\<exists>q\<in>set pes. unat q = unat pe) \<longleftrightarrow> pe \<in> set pes" for pe by (metis word_unat_eq_iff)
  then have e: "mi_table (foldl (\<lambda>s pe. update_member krnl core fl pe s) s1 pes) ! unat pe =
     (if pe \<in> set pes then (mi_table s ! unat pe)\<lparr>me_krnl := krnl,
        me_flags := (if fl = MF_NOCHANGE then me_flags (mi_table s ! unat pe) else fl)\<rparr>
      else mi_table s ! unat pe)" for pe
    using update_members_entry [of pes s1 krnl core fl "unat pe"] assms t by simp
  have u: "updateMembership pes (length pes) krnl core fl propagate s =
      Inr (foldl (\<lambda>s pe. update_member krnl core fl pe s) s1 pes)"
    using assms(3) by (simp add: updateMembership_def Let_def s1_def)
  show ?thesis
    by (rule exI [of _ "foldl (\<lambda>s pe. update_member krnl core fl pe s) s1 pes"], unfold u)
      (simp add: e responsibleKrnl_def t assms(1), simp add: s1_def)
qed

theorem updateMembership_effect_witness:
  "\<exists>s'. updateMembership [5, 6] 2 1 5 MF_NONE True (mht_new 0 8 :: string mht) = Inr s' \<and> responsibleKrnl s' 6 = 1"
proof -
  have "length (mi_table (mht_new 0 8 :: string mht)) = MAX_PES" by (simp add: mht_new_def MAX_PES_def)
  moreover have "\<forall>pe\<in>set [5, 6 :: pe_id_t]. unat pe < MAX_PES" "length [5, 6 :: pe_id_t] \<le> MAX_PES"
    by (simp_all add: MAX_PES_def)
  ultimately obtain s' where
    "updateMembership [5, 6] (length [5, 6 :: pe_id_t]) 1 5 MF_NONE True (mht_new 0 8 :: string mht) = Inr s'"
    "\<forall>pe. unat pe < MAX_PES \<longrightarrow>
      responsibleKrnl s' pe = (if pe \<in> set [5, 6] then 1 else responsibleKrnl (mht_new 0 8 :: string mht) pe)"
    using updateMembership_effect [of "mht_new 0 8 :: string mht" "[5, 6]" 1 5 MF_NONE True] by blast
  moreover have "unat (6 :: pe_id_t) < MAX_PES" by (simp add: MAX_PES_def)
  ultimately show ?thesis by (intro exI [of _ s']) (simp add: numeral_2_eq_2)
qed

text \<open>The range form of \<^verbatim>\<open>updateMembership\<close> passes the end of the range as the number of PEs: for
  every range that does not start at PE 0 it reads past its array of descriptors.\<close>

theorem updateMembership_range_overrun:
  assumes "unat start + unat capacity \<le> MAX_PES"
  shows "updateMembership_range start krnl core capacity fl propagate s =
    (if start = 0 then updateMembership (map of_nat [0..<unat capacity]) (unat capacity) krnl core fl propagate s
     else Inl Out_of_bounds)"
  using assms by (auto simp: updateMembership_range_def updateMembership_def unat_gt_0)

theorem updateMembership_range_overrun_witness:
  "updateMembership_range 4 1 4 8 MF_NONE True (mht_new 0 16 :: string mht) = Inl Out_of_bounds"
  using updateMembership_range_overrun [of 4 8] by (simp add: MAX_PES_def)

text \<open>C34. Two threads that wait for the same locked item are both resumed by its unlock. The first to
  run takes the lock; the second finds it taken, and \<^verbatim>\<open>lockLocal\<close> returns the failure value -1 to it
  as the handle 0xFFFFFFFF, which no caller can tell from success.\<close>

theorem lockLocal_resumed_twice:
  assumes "mht_inv s" and "responsibleMember s k = mi_kid s" and "mht_lookup s k = Some it" and "\<not> item_islocked it"
  shows "\<exists>h s'. mht_lockLocal_resumed k s = Inr (h, s') \<and> h \<noteq> 0 \<and> mht_inv s' \<and>
    mht_lookup s' = (mht_lookup s)(k \<mapsto> it\<lparr>it_lock := h\<rparr>) \<and>
    (\<exists>s''. mht_lockLocal_resumed k s' = Inr (0xFFFFFFFF, s'') \<and> mht_lookup s'' = mht_lookup s')"
proof -
  obtain p where p: "findPartition s k = Some p" "part_inv p" "mht_lookup s k = part_lookup p k"
      "\<And>p'. part_inv p' \<Longrightarrow> p_id p' = p_id p \<Longrightarrow> mht_inv (set_partition p' s)"
    by (rule local_partition [OF assms(1,2)]) blast
  define h where "h = fst (draw_handle (mi_seed s))"
  have h: "h \<noteq> 0" unfolding h_def by (rule draw_handle_not_0)
  obtain p' where p': "part_lock k p (mi_seed s) = Inr (uint h, p', snd (draw_handle (mi_seed s)))"
      "part_inv p'" "part_lookup p' = (part_lookup p)(k \<mapsto> it\<lparr>it_lock := h\<rparr>)" "p_id p' = p_id p"
    unfolding h_def using part_lock_found [OF p(2)] p(3) assms(3,4) part_lock_id by metis
  define s1 where "s1 = (set_partition p' s)\<lparr>mi_seed := snd (draw_handle (mi_seed s))\<rparr>"
  have r1: "mht_lockLocal_resumed k s = Inr (h, s1)"
    using p(1) p'(1) by (simp add: mht_lockLocal_resumed_def s1_def)
  have inv1: "mht_inv s1" using p(4) [OF p'(2,4)] unfolding s1_def by (rule mht_inv_seed)
  have l1: "mht_lookup s1 = (mht_lookup s)(k \<mapsto> it\<lparr>it_lock := h\<rparr>)"
    using mht_lookup_set_partition [OF p(1) p'(4,3)] by (simp add: s1_def mht_lookup_seed)
  have f1: "findPartition s1 k = Some p'"
    using p(1) p'(4) findPartition_Some [OF p(1)] set_partition_find [of p' s "hashToPeId k"]
    by (simp add: s1_def findPartition_def responsibleMember_def responsibleKrnl_def image_iff) (metis)
  have "part_lock k p' sd = Inr (-1, p', sd)" for sd
    by (rule part_lock_taken [OF p'(2), of k "it\<lparr>it_lock := h\<rparr>"]) (use p'(3) h in \<open>simp_all add: item_islocked_def\<close>)
  then have r2: "mht_lockLocal_resumed k s1 = Inr (0xFFFFFFFF, (set_partition p' s1)\<lparr>mi_seed := mi_seed s1\<rparr>)"
    using f1 by (simp add: mht_lockLocal_resumed_def)
  have "mht_lookup s1 k = part_lookup p' k" using f1 by (simp add: mht_lookup_def)
  then have "mht_lookup ((set_partition p' s1)\<lparr>mi_seed := mi_seed s1\<rparr>) = mht_lookup s1"
    using mht_lookup_set_partition [OF f1 refl, of "part_lookup p' k"] by (simp add: fun_upd_idem)
  then show ?thesis using r1 r2 h inv1 l1 by blast
qed

theorem lockLocal_resumed_twice_witness:
  "\<exists>h s' s''. mht_lockLocal_resumed 7 (set_partition \<lparr>p_id = 0, p_storage = [store (item_new (Some ''x'') 1 7)]\<rparr> (mht_new 0 4)) =
     Inr (h, s') \<and> h \<noteq> 0 \<and> mht_lockLocal_resumed 7 s' = Inr (0xFFFFFFFF, s'')"
proof -
  let ?p = "\<lparr>p_id = 0, p_storage = [store (item_new (Some ''x'') 1 7)]\<rparr>"
  let ?s = "set_partition ?p (mht_new 0 4)"
  have le: "4 \<le> MAX_PES" by (simp add: MAX_PES_def)
  have pe: "hashToPeId 7 = 0" by (simp add: hashToPeId_def ddl_bits)
  have "mht_inv (mht_new 0 4 :: string mht)" by (rule mht_inv_new [OF le])
  have resp: "responsibleMember (mht_new 0 4 :: string mht) 7 = mi_kid (mht_new 0 4 :: string mht)"
    by (rule responsibleMember_new [OF le])
  obtain p where p: "findPartition (mht_new 0 4 :: string mht) 7 = Some p"
      "\<And>p'. part_inv p' \<Longrightarrow> p_id p' = p_id p \<Longrightarrow> mht_inv (set_partition p' (mht_new 0 4 :: string mht))"
    by (rule local_partition [OF \<open>mht_inv _\<close> resp]) blast
  have id0: "p_id p = 0" using findPartition_Some [OF p(1)] pe by simp
  have pinv: "part_inv ?p" by (simp add: part_inv_def part_keys_def store_def)
  have inv: "mht_inv ?s" using p(2) [OF pinv] id0 by simp
  have "p \<in> set (mi_parts (mht_new 0 4 :: string mht))" using findPartition_Some [OF p(1)] by simp
  then have "p_id ?p \<in> p_id ` set (mi_parts (mht_new 0 4 :: string mht))" using id0 by (metis imageI partition.select_convs(1))
  then have "findPartition ?s 7 = Some ?p"
    using set_partition_find [of ?p "mht_new 0 4"] pe resp by (simp add: findPartition_def)
  then have "mht_lookup ?s 7 = Some (item_new (Some ''x'') 1 7)"
    by (simp add: mht_lookup_def part_lookup_def store_def item_new_def)
  moreover have "\<not> item_islocked (item_new (Some ''x'') 1 7)" by (simp add: item_islocked_def item_new_def)
  moreover have "responsibleMember ?s 7 = mi_kid ?s" using resp by simp
  ultimately show ?thesis using lockLocal_resumed_twice [OF inv, of 7 "item_new (Some ''x'') 1 7"] by blast
qed



end
