(* ===== verification/Capability.thy ===== *)
theory Capability
  imports MHT_Instance Main_Memory "HOL-Library.Multiset"
begin

unbundle bit_operations_syntax

text \<open>
  Capabilities and the kernel objects behind them
  (\<^verbatim>\<open>src/src/apps/kernel/cap/Capability.h\<close> and \<^verbatim>\<open>Capability.cc\<close>). The class hierarchy below
  \<^verbatim>\<open>kernel::Capability\<close> is a record of the base class with a datatype of the derived classes.
  Objects that several capabilities share (\<^verbatim>\<open>MsgObject\<close>, \<^verbatim>\<open>SessionObject\<close>, \<^verbatim>\<open>Service\<close>, \<^verbatim>\<open>VPE\<close>)
  are referenced by a number, their address; the stores that hold them belong to the kernel
  state. \<open>c_ptr\<close> is the address of the capability object itself: two capabilities that
  occupy the same selector one after the other are different objects.
\<close>

section \<open>Types and ranges\<close>

definition CAP_SERVICE :: u32 where "CAP_SERVICE = 0x01"
definition CAP_SESSION :: u32 where "CAP_SESSION = 0x02"
definition CAP_MSG :: u32 where "CAP_MSG = 0x04"
definition CAP_MEM :: u32 where "CAP_MEM = 0x08"
definition CAP_MAP :: u32 where "CAP_MAP = 0x10"
definition CAP_VIRTPE :: u32 where "CAP_VIRTPE = 0x20"

lemmas cap_type_defs = CAP_SERVICE_def CAP_SESSION_def CAP_MSG_def CAP_MEM_def CAP_MAP_def CAP_VIRTPE_def

datatype crd_type = OBJ | MAP

record cap_rng =
  crd_type :: crd_type
  crd_start :: capsel_t
  crd_count :: u32

definition PERM_RWX :: u64 where "PERM_RWX = 7"
definition INV_SEL :: capsel_t where "INV_SEL = 0xFFFF"

text \<open>The bits of a key that tell map from object capabilities and the object types apart.\<close>

definition TYPE_MASK_MCAP :: u64 where "TYPE_MASK_MCAP = push_bit HASH_BITS 1"
definition TYPE_MASK_OCAP :: u64 where "TYPE_MASK_OCAP = push_bit (HASH_BITS + 1) 7"
definition TYPE_MASK_CAP :: u64 where "TYPE_MASK_CAP = push_bit HASH_BITS 15"

definition capTypeToItemType :: "u32 \<Rightarrow> item_type result" where
  "capTypeToItemType capType =
     (if capType = CAP_SERVICE then Inr SRVCAP
      else if capType = CAP_SESSION then Inr SESSCAP
      else if capType = CAP_MSG then Inr MSGCAP
      else if capType = CAP_MEM then Inr MEMCAP
      else if capType = CAP_MSG OR CAP_MEM then Inr MEMCAP
      else if capType = CAP_MAP then Inr MAPCAP
      else if capType = CAP_VIRTPE then Inr VPECAP
      else Inl Panic)"

section \<open>Objects\<close>

text \<open>\<^verbatim>\<open>MsgObject\<close>; \<open>mo_mem\<close> says whether the dynamic type is \<^verbatim>\<open>MemObject\<close>.\<close>

record msg_object =
  mo_mem :: bool
  mo_label :: u64
  mo_core :: int
  mo_vpe :: int
  mo_epid :: int
  mo_credits :: u64
  mo_derived :: bool
  mo_id :: mht_key_t
  mo_refs :: nat

record session_object =
  so_servowned :: bool
  so_ident :: u64
  so_srv :: "nat option"
  so_srvID :: mht_key_t
  so_refs :: nat

definition new_MsgObject :: "u64 \<Rightarrow> int \<Rightarrow> int \<Rightarrow> int \<Rightarrow> u64 \<Rightarrow> mht_key_t \<Rightarrow> msg_object" where
  "new_MsgObject label core vpe epid credits objid =
     \<lparr>mo_mem = False, mo_label = label, mo_core = core, mo_vpe = vpe, mo_epid = epid,
      mo_credits = credits, mo_derived = False, mo_id = objid, mo_refs = 0\<rparr>"

definition new_MemObject :: "u64 \<Rightarrow> u64 \<Rightarrow> u64 \<Rightarrow> int \<Rightarrow> int \<Rightarrow> int \<Rightarrow> mht_key_t \<Rightarrow> msg_object result" where
  "new_MemObject addr sz perms core vpe epid objid =
     (if addr AND PERM_RWX = 0
      then Inr ((new_MsgObject (addr OR perms) core vpe epid sz objid)\<lparr>mo_mem := True\<rparr>)
      else Inl Assert_failed)"

definition mem_addr :: "msg_object \<Rightarrow> u64" where
  "mem_addr ob = mo_label ob AND NOT PERM_RWX"

definition mem_size :: "msg_object \<Rightarrow> u64" where
  "mem_size ob = mo_credits ob"

definition mem_perms :: "msg_object \<Rightarrow> u64" where
  "mem_perms ob = mo_label ob AND PERM_RWX"

text \<open>\<^verbatim>\<open>revokeAction\<close>: memory that was not derived from other memory goes back to its module.\<close>

definition revokeAction :: "msg_object \<Rightarrow> main_memory \<Rightarrow> main_memory" where
  "revokeAction ob mem =
     (if mo_mem ob \<and> \<not> mo_derived ob
      then main_free_pe (word_of_int (mo_core ob)) (mem_addr ob) (mo_credits ob) mem else mem)"

section \<open>Capabilities\<close>

datatype cap_kind =
    MsgCap int nat mht_key_t       \<comment> \<open>\<^verbatim>\<open>localepid\<close>, \<^verbatim>\<open>obj\<close>, \<^verbatim>\<open>objID\<close>\<close>
  | MemCap int nat mht_key_t
  | MapCap u64 u32                 \<comment> \<open>\<^verbatim>\<open>phys\<close>, \<^verbatim>\<open>attr\<close>\<close>
  | ServCap nat                    \<comment> \<open>\<^verbatim>\<open>inst\<close>, 0 is the null pointer\<close>
  | SessCap nat                    \<comment> \<open>\<^verbatim>\<open>obj\<close>\<close>
  | VPECap "nat option" mht_key_t  \<comment> \<open>\<^verbatim>\<open>vpe\<close>, not set when deserialized, and \<^verbatim>\<open>vpeId\<close>\<close>

record capability =
  c_ptr :: nat
  c_type :: u32
  c_sel :: capsel_t
  c_id :: mht_key_t
  c_tbl :: "nat \<times> crd_type"
  c_parent :: mht_key_t
  c_children :: "mht_key_t list"
  c_kind :: cap_kind

definition new_Capability ::
  "nat \<Rightarrow> nat \<times> crd_type \<Rightarrow> capsel_t \<Rightarrow> u32 \<Rightarrow> mht_key_t \<Rightarrow> cap_kind \<Rightarrow> capability" where
  "new_Capability p tbl sel typ capid kind =
     \<lparr>c_ptr = p, c_type = typ, c_sel = sel, c_id = capid, c_tbl = tbl, c_parent = 0,
      c_children = [], c_kind = kind\<rparr>"

text \<open>The loop over the children starts at the first one with \<^verbatim>\<open>prev\<close> pointing to it as well, so the
  first step compares the new child with the first one and links it behind \<^verbatim>\<open>prev\<close>.\<close>

fun insert_child :: "'d mht \<Rightarrow> krnl_id_t \<Rightarrow> mht_key_t \<Rightarrow> mht_key_t list \<Rightarrow> mht_key_t list \<Rightarrow> mht_key_t list" where
  "insert_child s resp child seen [] = seen"
| "insert_child s resp child seen (it # rest) =
     (if responsibleMember s it \<le> resp
      then (case seen of
              [] \<Rightarrow> it # child # rest
            | _ \<Rightarrow> seen @ child # it # rest)
      else insert_child s resp child (seen @ [it]) rest)"

definition addChild :: "'d mht \<Rightarrow> mht_key_t \<Rightarrow> capability \<Rightarrow> capability" where
  "addChild s child c =
     (if keyLocality s child \<or> c_children c = []
      then c\<lparr>c_children := child # c_children c\<rparr>
      else (let respKrnl = responsibleKrnl s (hashToPeId child) in
        if respKrnl \<le> responsibleMember s (hd (c_children c))
        then c\<lparr>c_children := child # c_children c\<rparr>
        else c\<lparr>c_children := insert_child s respKrnl child [] (c_children c)\<rparr>))"

definition removeChild :: "mht_key_t \<Rightarrow> capability \<Rightarrow> capability" where
  "removeChild child c = c\<lparr>c_children := remove_first (\<lambda>x. x = child) (c_children c)\<rparr>"

definition removeChildAllTypes :: "mht_key_t \<Rightarrow> capability \<Rightarrow> capability" where
  "removeChildAllTypes child c =
     c\<lparr>c_children := remove_first (\<lambda>x. x AND NOT TYPE_MASK_CAP = child AND NOT TYPE_MASK_CAP) (c_children c)\<rparr>"

section \<open>Serialization\<close>

text \<open>
  A stream is the sequence of the values put into it, one 64 bit slot each; an \<^verbatim>\<open>int\<close> occupies
  the low half of its slot. The constructors that read a stream leave \<^verbatim>\<open>_tbl\<close>, \<^verbatim>\<open>_parent\<close> and, in a
  \<^verbatim>\<open>MsgObject\<close>, \<^verbatim>\<open>derived\<close> uninitialized; the values found there are the arguments \<open>junk\<close>.
\<close>

type_synonym stream = "u64 list"

definition put_int :: "int \<Rightarrow> u64" where
  "put_int i = ucast (word_of_int i :: u32)"

definition get_int :: "u64 \<Rightarrow> int" where
  "get_int w = sint (ucast w :: u32)"

definition msgobj_serialize :: "msg_object \<Rightarrow> stream" where
  "msgobj_serialize ob =
     [mo_label ob, put_int (mo_core ob), put_int (mo_vpe ob), put_int (mo_epid ob), mo_credits ob]"

fun msgobj_deserialize :: "mht_key_t \<Rightarrow> bool \<Rightarrow> stream \<Rightarrow> (msg_object \<times> stream) result" where
  "msgobj_deserialize objid junk (label # core # vpe # epid # credits # is) =
     Inr (\<lparr>mo_mem = False, mo_label = label, mo_core = get_int core, mo_vpe = get_int vpe,
           mo_epid = get_int epid, mo_credits = credits, mo_derived = junk, mo_id = objid, mo_refs = 0\<rparr>, is)"
| "msgobj_deserialize objid junk _ = Inl Assert_failed"

text \<open>What a deserialized capability refers to: the object that was created with it.\<close>

datatype new_object = NewMsg msg_object | NewSess session_object | NoObject

definition serializeTyped ::
  "(nat \<Rightarrow> msg_object option) \<Rightarrow> (nat \<Rightarrow> session_object option) \<Rightarrow> capability \<Rightarrow> stream result" where
  "serializeTyped objs sess c =
     (let t = hashToType (c_id c) in
      if t = MSGCAP \<or> t = MEMCAP then
        (case c_kind c of
           MsgCap _ ob objID \<Rightarrow> (case objs ob of Some x \<Rightarrow> Inr (c_id c # objID # msgobj_serialize x) | None \<Rightarrow> Inl Use_after_free)
         | MemCap _ ob objID \<Rightarrow> (case objs ob of Some x \<Rightarrow> Inr (c_id c # objID # msgobj_serialize x) | None \<Rightarrow> Inl Use_after_free)
         | _ \<Rightarrow> Inl Panic)
      else if t = SRVCAP then Inr [c_id c]
      else if t = SESSCAP then
        (case c_kind c of
           SessCap ob \<Rightarrow> (case sess ob of Some x \<Rightarrow> Inr [c_id c, so_ident x, so_srvID x] | None \<Rightarrow> Inl Use_after_free)
         | _ \<Rightarrow> Inl Panic)
      else if t = VPECAP then
        (case c_kind c of VPECap _ vpeId \<Rightarrow> Inr [c_id c, vpeId] | _ \<Rightarrow> Inl Panic)
      else Inl Panic)"

definition serializedSizeTyped :: "capability \<Rightarrow> nat result" where
  "serializedSizeTyped c =
     (let t = hashToType (c_id c) in
      if t = MSGCAP \<or> t = MEMCAP then Inr (8 + 8 + 5 * 8)
      else if t = SRVCAP then Inr 8
      else if t = SESSCAP then Inr (8 + 2 * 8)
      else if t = VPECAP then Inr (8 + 8)
      else Inl Panic)"

text \<open>The new capability is at address \<open>p\<close>, the object it refers to at address \<open>q\<close>.\<close>

definition from_stream ::
  "nat \<Rightarrow> nat \<Rightarrow> (nat \<times> crd_type) \<times> mht_key_t \<Rightarrow> u32 \<Rightarrow> mht_key_t \<Rightarrow> cap_kind \<Rightarrow> capability" where
  "from_stream p q junk typ capid kind =
     (new_Capability p (fst junk) (hashToObjId capid) typ capid kind)\<lparr>c_parent := snd junk\<rparr>"

fun createFromStream ::
  "nat \<Rightarrow> nat \<Rightarrow> (nat \<times> crd_type) \<times> mht_key_t \<Rightarrow> bool \<Rightarrow> stream \<Rightarrow> (capability \<times> new_object \<times> stream) result" where
  "createFromStream p q junk junkd [] = Inl Assert_failed"
| "createFromStream p q junk junkd (capid # is) =
     (let t = hashToType capid in
      if t = MSGCAP \<or> t = MEMCAP then
        (case is of
           [] \<Rightarrow> Inl Assert_failed
         | objID # is1 \<Rightarrow>
             rbind (msgobj_deserialize objID junkd is1) (\<lambda>(ob, is2).
               Inr (if t = MSGCAP then from_stream p q junk CAP_MSG capid (MsgCap (-1) q objID)
                    else from_stream p q junk (CAP_MEM OR CAP_MSG) capid (MemCap (-1) q objID),
                    NewMsg (ob\<lparr>mo_refs := 1\<rparr>), is2)))
      else if t = SRVCAP then Inr (from_stream p q junk CAP_SERVICE capid (ServCap 0), NoObject, is)
      else if t = SESSCAP then
        (case is of
           ident # srvID # is1 \<Rightarrow>
             Inr (from_stream p q junk CAP_SESSION capid (SessCap q),
                  NewSess \<lparr>so_servowned = False, so_ident = ident, so_srv = None, so_srvID = srvID, so_refs = 1\<rparr>, is1)
         | _ \<Rightarrow> Inl Assert_failed)
      else if t = VPECAP then
        (case is of
           vpeId # is1 \<Rightarrow> Inr (from_stream p q junk CAP_VIRTPE capid (VPECap None vpeId), NoObject, is1)
         | _ \<Rightarrow> Inl Assert_failed)
      else Inl Panic)"

section \<open>Lemmas on objects, keys and children\<close>

lemma get_put_int: "- (2 ^ 31) \<le> i \<Longrightarrow> i < 2 ^ 31 \<Longrightarrow> get_int (put_int i) = i"
  unfolding get_int_def put_int_def
  by (simp add: ucast_down_ucast_id is_down signed_of_int signed_take_bit_int_eq_self)

lemma mem_object_fields:
  assumes "new_MemObject addr sz perms core vpe epid objid = Inr ob" and "perms AND NOT PERM_RWX = 0"
  shows "mem_addr ob = addr" "mem_size ob = sz" "mem_perms ob = perms"
proof -
  have a: "addr AND PERM_RWX = 0" and ob: "ob = (new_MsgObject (addr OR perms) core vpe epid sz objid)\<lparr>mo_mem := True\<rparr>"
    using assms(1) by (auto simp: new_MemObject_def split: if_splits)
  have "(addr OR perms) AND NOT PERM_RWX = addr" "(addr OR perms) AND PERM_RWX = perms"
    using a assms(2) by (auto simp: bit_eq_iff bit_simps) (metis+)?
  then show "mem_addr ob = addr" "mem_size ob = sz" "mem_perms ob = perms"
    by (simp_all add: ob mem_addr_def mem_size_def mem_perms_def new_MsgObject_def)
qed

lemma mset_addChild: "mset (c_children (addChild s child c)) = add_mset child (mset (c_children c))"
proof -
  have "mset (insert_child s r child seen xs) = add_mset child (mset seen + mset xs)"
    if "xs \<noteq> []" "responsibleMember s (hd xs) \<le> r" "seen = []" for r seen xs
    using that by (cases xs) auto
  then show ?thesis by (auto simp: addChild_def Let_def)
qed

end
