(* ===== verification/Send_Queue.thy ===== *)
theory Send_Queue
  imports Kernel_Prelude
begin

text \<open>
  The queue of the messages to a service, \<^verbatim>\<open>kernel::SendQueue\<close>
  (\<^verbatim>\<open>src/src/apps/kernel/SendQueue.h\<close>). The service has room for \<^verbatim>\<open>_capacity\<close> requests; further
  ones wait until a reply arrives. An operation returns the messages it hands to the
  DTU next to the new queue. An entry stands for the receive gate, send gate, message and size
  that are passed on unchanged; where the bytes of a message live (stack or heap) is not modelled.
\<close>

section \<open>Operations\<close>

record 'm send_queue =
  sq_queue :: "'m list"
  sq_capacity :: int
  sq_inflight :: int

definition sq_new :: "int \<Rightarrow> 'm send_queue" where
  "sq_new capacity = \<lparr>sq_queue = [], sq_capacity = capacity, sq_inflight = 0\<rparr>"

definition sq_pending :: "'m send_queue \<Rightarrow> int" where
  "sq_pending q = int (length (sq_queue q))"

definition do_send :: "'m \<Rightarrow> 'm send_queue \<Rightarrow> 'm list \<times> 'm send_queue" where
  "do_send msg q = ([msg], q\<lparr>sq_inflight := sq_inflight q + 1\<rparr>)"

definition sq_send :: "'m \<Rightarrow> 'm send_queue \<Rightarrow> 'm list \<times> 'm send_queue" where
  "sq_send msg q =
     (if sq_inflight q < sq_capacity q then do_send msg q
      else ([], q\<lparr>sq_queue := sq_queue q @ [msg]\<rparr>))"

definition received_reply :: "'m send_queue \<Rightarrow> ('m list \<times> 'm send_queue) result" where
  "received_reply q =
     (if sq_inflight q > 0
      then (let q1 = q\<lparr>sq_inflight := sq_inflight q - 1\<rparr> in
        case sq_queue q1 of
          [] \<Rightarrow> Inr ([], q1)
        | e # es \<Rightarrow> Inr (do_send e (q1\<lparr>sq_queue := es\<rparr>)))
      else Inl Assert_failed)"

section \<open>Runs\<close>

text \<open>A run of the queue: the messages submitted to it and the messages handed to the DTU so far.
  A reply can only arrive for a message that is in flight.\<close>

inductive queue_run :: "int \<Rightarrow> 'm list \<Rightarrow> 'm list \<Rightarrow> 'm send_queue \<Rightarrow> bool" for capacity :: int where
  run_new: "queue_run capacity [] [] (sq_new capacity)"
| run_send: "queue_run capacity subm sent q \<Longrightarrow> sq_send msg q = (out, q') \<Longrightarrow>
    queue_run capacity (subm @ [msg]) (sent @ out) q'"
| run_reply: "queue_run capacity subm sent q \<Longrightarrow> received_reply q = Inr (out, q') \<Longrightarrow>
    queue_run capacity subm (sent @ out) q'"

definition queue_inv :: "int \<Rightarrow> 'm list \<Rightarrow> 'm list \<Rightarrow> 'm send_queue \<Rightarrow> bool" where
  "queue_inv capacity subm sent q \<longleftrightarrow>
     sq_capacity q = capacity \<and> sent @ sq_queue q = subm \<and> 0 \<le> sq_inflight q \<and>
     sq_inflight q \<le> capacity \<and> (sq_queue q \<noteq> [] \<longrightarrow> sq_inflight q = capacity)"

lemma queue_run_inv: "queue_run capacity subm sent q \<Longrightarrow> 0 \<le> capacity \<Longrightarrow> queue_inv capacity subm sent q"
proof (induction rule: queue_run.induct)
  case run_new
  then show ?case by (simp add: queue_inv_def sq_new_def)
next
  case (run_send subm sent q msg out q')
  then show ?case by (auto simp: queue_inv_def sq_send_def do_send_def split: if_splits)
next
  case (run_reply subm sent q out q')
  then show ?case
    by (auto simp: queue_inv_def received_reply_def do_send_def Let_def split: if_splits list.splits)
qed

text \<open>The queue after \<open>n\<close> replies, with what they made it send.\<close>

fun replies :: "nat \<Rightarrow> 'm send_queue \<Rightarrow> ('m list \<times> 'm send_queue) result" where
  "replies 0 q = Inr ([], q)"
| "replies (Suc n) q =
     rbind (received_reply q) (\<lambda>(out, q1). rbind (replies n q1) (\<lambda>(out', q'). Inr (out @ out', q')))"

lemma replies_drain:
  assumes "sq_inflight q = sq_capacity q" "0 < sq_capacity q"
  shows "\<exists>q'. replies (length (sq_queue q)) q = Inr (sq_queue q, q') \<and> sq_queue q' = [] \<and>
    sq_inflight q' = sq_inflight q"
  using assms
proof (induction "sq_queue q" arbitrary: q)
  case Nil
  then show ?case by (metis list.size(3) replies.simps(1))
next
  case (Cons e es)
  define q1 where "q1 = q\<lparr>sq_queue := es\<rparr>"
  have step: "received_reply q = Inr ([e], q1)"
    using Cons(2-4) by (simp add: received_reply_def do_send_def q1_def Let_def flip: Cons(2))
  obtain q' where "replies (length es) q1 = Inr (es, q')" "sq_queue q' = []" "sq_inflight q' = sq_inflight q1"
    using Cons(1) [of q1] Cons(3,4) by (auto simp: q1_def)
  then show ?case by (simp add: step q1_def flip: Cons(2))
qed

text \<open>A service with room for one request that got two.\<close>

definition waiting_queue :: "bool send_queue" where
  "waiting_queue = \<lparr>sq_queue = [False], sq_capacity = 1, sq_inflight = 1\<rparr>"

lemma waiting_run: "queue_run 1 [True, False] [True] waiting_queue"
proof -
  have "queue_run 1 ([] @ [True]) ([] @ [True]) \<lparr>sq_queue = [], sq_capacity = 1, sq_inflight = 1\<rparr>"
    by (rule run_send [OF run_new]) (simp add: sq_send_def do_send_def sq_new_def)
  then have "queue_run 1 (([] @ [True]) @ [False]) (([] @ [True]) @ []) waiting_queue"
    by (rule run_send) (simp add: sq_send_def waiting_queue_def)
  then show ?thesis by simp
qed

section \<open>Properties\<close>

text \<open>C14. However sends and replies are interleaved, a send queue neither loses, duplicates nor
  reorders messages: what was handed to the DTU followed by what still waits is exactly the
  sequence of the submitted messages. The service never has more requests in flight than it
  has room for, and no message waits while there is room.\<close>

theorem send_queue_fifo:
  assumes "queue_run capacity subm sent q" and "0 \<le> capacity"
  shows "sent @ sq_queue q = subm \<and> 0 \<le> sq_inflight q \<and> sq_inflight q \<le> capacity \<and>
    (sq_queue q \<noteq> [] \<longrightarrow> sq_inflight q = capacity)"
  using queue_run_inv [OF assms] by (simp add: queue_inv_def)

theorem send_queue_fifo_witness:
  "queue_run 1 [True, False] [True] waiting_queue \<and> [True] @ sq_queue waiting_queue = [True, False]"
  using send_queue_fifo [OF waiting_run] waiting_run by simp

text \<open>C27. Every message that waits in the queue is sent: if the service answers as many requests as
  there are messages waiting, each of these replies finds a request in flight, and afterwards all
  of them have been handed to the DTU, in order.\<close>

theorem send_queue_drains:
  assumes "queue_run capacity subm sent q" and "0 < capacity"
  shows "\<exists>q'. replies (length (sq_queue q)) q = Inr (sq_queue q, q') \<and> sq_queue q' = [] \<and>
    sent @ sq_queue q = subm"
proof -
  have inv: "queue_inv capacity subm sent q" using queue_run_inv assms by fastforce
  show ?thesis
  proof (cases "sq_queue q = []")
    case True
    then show ?thesis using inv by (auto simp: queue_inv_def)
  next
    case False
    then have "sq_inflight q = sq_capacity q" "0 < sq_capacity q"
      using inv assms(2) by (auto simp: queue_inv_def)
    then show ?thesis using replies_drain [of q] inv by (auto simp: queue_inv_def)
  qed
qed

theorem send_queue_drains_witness:
  "\<exists>q'. replies 1 waiting_queue = Inr ([False], q') \<and> sq_queue q' = []"
  using send_queue_drains [OF waiting_run] by (simp add: waiting_queue_def)

end
