(* ===== verification/Recv_Bufs.thy ===== *)
theory Recv_Bufs
  imports Base_Math
begin

unbundle bit_operations_syntax

text \<open>
  The receive buffers of all endpoints, \<^verbatim>\<open>kernel::RecvBufs\<close>
  (\<^verbatim>\<open>src/src/apps/kernel/com/RecvBufs.h\<close>). The array \<^verbatim>\<open>_rbufs\<close> has one entry per core and
  endpoint; \<open>'c\<close> is the type of the callbacks on a wait list. Attaching and detaching
  return the DTU configuration they issue and the callbacks they run, with the flag
  passed to them.
\<close>

section \<open>Operations\<close>

definition EP_COUNT :: nat where "EP_COUNT = 16"
definition F_ATTACHED :: u32 where "F_ATTACHED = push_bit 31 1"

record 'c rbuf =
  rb_core :: nat
  rb_epid :: nat
  rb_addr :: u64
  rb_order :: int
  rb_msgorder :: int
  rb_flags :: u32
  rb_wait :: "'c list"

type_synonym 'c rbufs = "'c rbuf list"

text \<open>The arguments of \<^verbatim>\<open>config_recv_remote\<close> after the endpoint.\<close>

record recv_config =
  rc_ep :: nat
  rc_addr :: u64
  rc_order :: int
  rc_msgorder :: int
  rc_flags :: u32
  rc_valid :: bool

text \<open>A shift by an \<^verbatim>\<open>int\<close>: the target takes the count modulo 64.\<close>

definition shl1 :: "int \<Rightarrow> u64" where
  "shl1 order = push_bit (nat (order mod 64)) 1"

definition new_rbuf :: "nat \<Rightarrow> nat \<Rightarrow> 'c rbuf" where
  "new_rbuf core ep = \<lparr>rb_core = core, rb_epid = ep, rb_addr = 0, rb_order = 0, rb_msgorder = 0, rb_flags = 0, rb_wait = []\<rparr>"

definition highCoreID :: "nat list \<Rightarrow> nat" where
  "highCoreID cores = foldl (\<lambda>high core. if core > high then core else high) 0 cores"

text \<open>\<open>rb_capacity\<close> entries are allocated; \<open>rb_entries\<close> is what the two loops store, entry by entry.\<close>

definition rb_capacity :: "nat list \<Rightarrow> nat" where
  "rb_capacity cores = highCoreID cores * EP_COUNT"

definition rb_entries :: "nat list \<Rightarrow> 'c rbufs" where
  "rb_entries cores = concat (map (\<lambda>i. map (new_rbuf i) [0..<EP_COUNT]) [0..<Suc (highCoreID cores)])"

definition rb_init :: "nat list \<Rightarrow> 'c rbufs result" where
  "rb_init cores =
     (if length (rb_entries cores :: 'c rbufs) \<le> rb_capacity cores then Inr (rb_entries cores)
      else Inl Out_of_bounds)"

definition rb_get :: "'c rbufs \<Rightarrow> nat \<Rightarrow> nat \<Rightarrow> 'c rbuf result" where
  "rb_get rbs core ep =
     (if core + ep < length rbs \<and> core * EP_COUNT + ep < length rbs
      then Inr (rbs ! (core * EP_COUNT + ep)) else Inl Out_of_bounds)"

definition rb_put :: "nat \<Rightarrow> nat \<Rightarrow> 'c rbuf \<Rightarrow> 'c rbufs \<Rightarrow> 'c rbufs" where
  "rb_put core ep rb rbs = rbs[core * EP_COUNT + ep := rb]"

definition attached :: "'c rbuf \<Rightarrow> bool" where
  "attached rb \<longleftrightarrow> rb_flags rb AND F_ATTACHED \<noteq> 0"

definition is_attached :: "'c rbufs \<Rightarrow> nat \<Rightarrow> nat \<Rightarrow> bool result" where
  "is_attached rbs core ep = rbind (rb_get rbs core ep) (\<lambda>rb. Inr (attached rb))"

definition rb_subscribe :: "nat \<Rightarrow> nat \<Rightarrow> 'c \<Rightarrow> 'c rbufs \<Rightarrow> 'c rbufs result" where
  "rb_subscribe core ep cb rbs =
     rbind (rb_get rbs core ep) (\<lambda>rb.
       if attached rb then Inl Assert_failed
       else Inr (rb_put core ep (rb\<lparr>rb_wait := rb_wait rb @ [cb]\<rparr>) rbs))"

definition rb_configure :: "nat \<Rightarrow> 'c rbuf \<Rightarrow> recv_config" where
  "rb_configure ep rb =
     \<lparr>rc_ep = ep, rc_addr = rb_addr rb, rc_order = rb_order rb, rc_msgorder = rb_msgorder rb,
      rc_flags = rb_flags rb AND NOT F_ATTACHED, rc_valid = attached rb\<rparr>"

text \<open>The search for an attached buffer of the same core that overlaps the new one.\<close>

fun overlapping :: "'c rbufs \<Rightarrow> nat \<Rightarrow> nat \<Rightarrow> u64 \<Rightarrow> int \<Rightarrow> nat list \<Rightarrow> bool result" where
  "overlapping rbs core ep addr order [] = Inr False"
| "overlapping rbs core ep addr order (i # is) =
     (if i = ep then overlapping rbs core ep addr order is
      else rbind (rb_get rbs core i) (\<lambda>rb.
        if attached rb \<and> overlap (rb_addr rb) (rb_addr rb + shl1 (rb_order rb)) addr (addr + shl1 order)
        then Inr True else overlapping rbs core ep addr order is))"

definition rb_attach ::
  "nat \<Rightarrow> nat \<Rightarrow> u64 \<Rightarrow> int \<Rightarrow> int \<Rightarrow> u32 \<Rightarrow> 'c rbufs \<Rightarrow> (code \<times> recv_config list \<times> 'c list \<times> 'c rbufs) result" where
  "rb_attach core ep addr order msgorder flags rbs =
     rbind (rb_get rbs core ep) (\<lambda>rb.
       if attached rb then Inr (EXISTS, [], [], rbs)
       else rbind (overlapping rbs core ep addr order [0..<EP_COUNT]) (\<lambda>clash.
         if clash then Inr (INV_ARGS, [], [], rbs)
         else (let rb' = rb\<lparr>rb_addr := addr, rb_order := order, rb_msgorder := msgorder,
                     rb_flags := flags OR F_ATTACHED\<rparr>
               in Inr (NO_ERROR, [rb_configure ep rb'], rb_wait rb,
                       rb_put core ep (rb'\<lparr>rb_wait := []\<rparr>) rbs))))"

definition rb_detach :: "nat \<Rightarrow> nat \<Rightarrow> 'c rbufs \<Rightarrow> (recv_config list \<times> 'c list \<times> 'c rbufs) result" where
  "rb_detach core ep rbs =
     rbind (rb_get rbs core ep) (\<lambda>rb.
       if attached rb
       then (let rb' = rb\<lparr>rb_flags := 0\<rparr>
             in Inr ([rb_configure ep rb'], rb_wait rb, rb_put core ep (rb'\<lparr>rb_wait := []\<rparr>) rbs))
       else Inr ([], rb_wait rb, rb_put core ep (rb\<lparr>rb_wait := []\<rparr>) rbs))"

section \<open>Invariant\<close>

definition rb_at :: "'c rbufs \<Rightarrow> nat \<Rightarrow> nat \<Rightarrow> 'c rbuf" where
  "rb_at rbs core ep = rbs ! (core * EP_COUNT + ep)"

definition rb_bytes :: "'c rbuf \<Rightarrow> nat set" where
  "rb_bytes rb = {unat (rb_addr rb) ..< unat (rb_addr rb) + 2 ^ nat (rb_order rb)}"

definition rb_sane :: "u64 \<Rightarrow> int \<Rightarrow> bool" where
  "rb_sane addr order \<longleftrightarrow> 0 \<le> order \<and> order < 64 \<and> unat addr + 2 ^ nat order < 2 ^ 64"

text \<open>The table covers \<open>cores\<close> cores, every attached buffer lies inside the address space, and two
  attached buffers of a core have no byte in common.\<close>

definition rb_inv :: "nat \<Rightarrow> 'c rbufs \<Rightarrow> bool" where
  "rb_inv cores rbs \<longleftrightarrow> length rbs = cores * EP_COUNT \<and>
     (\<forall>core<cores. \<forall>i<EP_COUNT. attached (rb_at rbs core i) \<longrightarrow>
        rb_sane (rb_addr (rb_at rbs core i)) (rb_order (rb_at rbs core i)) \<and>
        (\<forall>j<EP_COUNT. j \<noteq> i \<longrightarrow> attached (rb_at rbs core j) \<longrightarrow>
           rb_bytes (rb_at rbs core i) \<inter> rb_bytes (rb_at rbs core j) = {}))"

lemma rb_index_less: "core < cores \<Longrightarrow> ep < EP_COUNT \<Longrightarrow> core * EP_COUNT + ep < cores * EP_COUNT"
proof -
  assume a: "core < cores" "ep < EP_COUNT"
  then have "core * EP_COUNT + ep < core * EP_COUNT + EP_COUNT" by simp
  also have "\<dots> = Suc core * EP_COUNT" by simp
  also have "\<dots> \<le> cores * EP_COUNT" using a(1) by (intro mult_le_mono1) simp
  finally show ?thesis .
qed

lemma rb_index_inj:
  "i < EP_COUNT \<Longrightarrow> j < EP_COUNT \<Longrightarrow> core * EP_COUNT + i = core' * EP_COUNT + j \<Longrightarrow> core = core' \<and> i = j"
  by (metis Groups.mult_ac(2) div_mult_self4 div_less gr_implies_not0 add.commute add_cancel_right_right
      add_left_cancel)

lemma rb_get_ok: "length rbs = cores * EP_COUNT \<Longrightarrow> core < cores \<Longrightarrow> ep < EP_COUNT \<Longrightarrow>
    rb_get rbs core ep = Inr (rb_at rbs core ep)"
proof -
  assume a: "length rbs = cores * EP_COUNT" "core < cores" "ep < EP_COUNT"
  have "core + ep \<le> core * EP_COUNT + ep" by (simp add: EP_COUNT_def)
  then have "core + ep < length rbs" using rb_index_less [OF a(2,3)] unfolding a(1) by (rule le_less_trans)
  then show ?thesis using rb_index_less [OF a(2,3)] a(1) by (simp add: rb_get_def rb_at_def)
qed

lemma rb_at_put:
  assumes "length rbs = cores * EP_COUNT" "core < cores" "ep < EP_COUNT" "i < EP_COUNT"
  shows "rb_at (rb_put core ep rb rbs) core' i = (if core' = core \<and> i = ep then rb else rb_at rbs core' i)"
  using rb_index_less [OF assms(2,3)] assms(1) rb_index_inj [OF assms(3,4), of core core']
  by (auto simp: rb_at_def rb_put_def nth_list_update)

lemma length_rb_put [simp]: "length (rb_put core ep rb rbs) = length rbs"
  by (simp add: rb_put_def)

lemma unat_shl1: "0 \<le> order \<Longrightarrow> order < 64 \<Longrightarrow> unat (shl1 order) = 2 ^ nat order"
  using unat_pow2 [where ?'a = 64, of "nat order"] by (simp add: shl1_def push_bit_eq_mult)

lemma overlap_bytes:
  assumes "rb_sane a i" "rb_sane b j"
  shows "overlap a (a + shl1 i) b (b + shl1 j) \<longleftrightarrow>
    {unat a ..< unat a + 2 ^ nat i} \<inter> {unat b ..< unat b + 2 ^ nat j} \<noteq> {}"
proof -
  have a: "unat (a + shl1 i) = unat a + 2 ^ nat i" and b: "unat (b + shl1 j) = unat b + 2 ^ nat j"
    using assms by (auto simp: rb_sane_def unat_shl1 unat_plus_nowrap)
  have p: "(0::nat) < 2 ^ nat i" "(0::nat) < 2 ^ nat j" by simp_all
  have "overlap a (a + shl1 i) b (b + shl1 j) \<longleftrightarrow> unat a < unat b + 2 ^ nat j \<and> unat b < unat a + 2 ^ nat i"
    unfolding overlap_def word_less_nat_alt word_le_nat_alt a b using p by linarith
  also have "\<dots> \<longleftrightarrow> {unat a ..< unat a + 2 ^ nat i} \<inter> {unat b ..< unat b + 2 ^ nat j} \<noteq> {}"
  proof
    assume "unat a < unat b + 2 ^ nat j \<and> unat b < unat a + 2 ^ nat i"
    then have "max (unat a) (unat b) \<in> {unat a ..< unat a + 2 ^ nat i} \<inter> {unat b ..< unat b + 2 ^ nat j}"
      using p by auto
    then show "{unat a ..< unat a + 2 ^ nat i} \<inter> {unat b ..< unat b + 2 ^ nat j} \<noteq> {}" by blast
  qed auto
  finally show ?thesis .
qed

lemma overlapping_scan:
  assumes "length rbs = cores * EP_COUNT" "core < cores" "set is \<subseteq> {..<EP_COUNT}"
  shows "overlapping rbs core ep addr order is =
    Inr (\<exists>i\<in>set is. i \<noteq> ep \<and> attached (rb_at rbs core i) \<and>
      overlap (rb_addr (rb_at rbs core i)) (rb_addr (rb_at rbs core i) + shl1 (rb_order (rb_at rbs core i)))
        addr (addr + shl1 order))"
  using assms(3) by (induction "is") (auto simp: rb_get_ok [OF assms(1,2)])

lemma attached_set [simp]: "attached (rb\<lparr>rb_flags := flags OR F_ATTACHED\<rparr>)"
proof -
  have "bit ((flags OR F_ATTACHED) AND F_ATTACHED) 31" by (simp add: F_ATTACHED_def bit_simps)
  then show ?thesis by (auto simp: attached_def)
qed

lemma attached_simps [simp]:
  "attached (rb\<lparr>rb_wait := w\<rparr>) = attached rb" "attached (rb\<lparr>rb_addr := a\<rparr>) = attached rb"
  "attached (rb\<lparr>rb_order := n\<rparr>) = attached rb" "attached (rb\<lparr>rb_msgorder := m\<rparr>) = attached rb"
  "attached (rb\<lparr>rb_flags := flags OR F_ATTACHED, rb_wait := w\<rparr>)"
  "\<not> attached (rb\<lparr>rb_flags := 0\<rparr>)" "\<not> attached (rb\<lparr>rb_flags := 0, rb_wait := w\<rparr>)"
  using attached_set [where rb = rb and flags = flags] by (auto simp: attached_def)

lemma rb_attach_cases:
  assumes "rb_inv cores rbs" "core < cores" "ep < EP_COUNT"
  shows "rb_attach core ep addr order msgorder flags rbs =
    (if attached (rb_at rbs core ep) then Inr (EXISTS, [], [], rbs)
     else if \<exists>i<EP_COUNT. i \<noteq> ep \<and> attached (rb_at rbs core i) \<and>
       overlap (rb_addr (rb_at rbs core i)) (rb_addr (rb_at rbs core i) + shl1 (rb_order (rb_at rbs core i)))
         addr (addr + shl1 order)
     then Inr (INV_ARGS, [], [], rbs)
     else Inr (NO_ERROR,
       [\<lparr>rc_ep = ep, rc_addr = addr, rc_order = order, rc_msgorder = msgorder,
         rc_flags = (flags OR F_ATTACHED) AND NOT F_ATTACHED, rc_valid = True\<rparr>],
       rb_wait (rb_at rbs core ep),
       rb_put core ep ((rb_at rbs core ep)\<lparr>rb_addr := addr, rb_order := order, rb_msgorder := msgorder,
         rb_flags := flags OR F_ATTACHED, rb_wait := []\<rparr>) rbs))"
proof -
  have len: "length rbs = cores * EP_COUNT" using assms(1) by (simp add: rb_inv_def)
  have "set [0..<EP_COUNT] \<subseteq> {..<EP_COUNT}" by auto
  note scan = overlapping_scan [OF len assms(2) this, of ep addr order]
  have "attached ((rb_at rbs core ep)\<lparr>rb_addr := addr, rb_order := order, rb_msgorder := msgorder,
      rb_flags := flags OR F_ATTACHED\<rparr>)"
    using attached_set [where flags = flags] by (simp add: attached_def)
  then show ?thesis
    by (auto simp: rb_attach_def rb_get_ok [OF len assms(2,3)] scan rb_configure_def Let_def)
qed

lemma rb_inv_attach:
  assumes inv: "rb_inv cores rbs" and core: "core < cores" and ep: "ep < EP_COUNT" and new: "rb_sane addr order"
    and disj: "\<And>i. i < EP_COUNT \<Longrightarrow> i \<noteq> ep \<Longrightarrow> attached (rb_at rbs core i) \<Longrightarrow>
      \<not> overlap (rb_addr (rb_at rbs core i)) (rb_addr (rb_at rbs core i) + shl1 (rb_order (rb_at rbs core i)))
         addr (addr + shl1 order)"
    and rb: "rb_addr rb = addr" "rb_order rb = order"
  shows "rb_inv cores (rb_put core ep rb rbs)"
proof -
  have len: "length rbs = cores * EP_COUNT" using inv by (simp add: rb_inv_def)
  note at = rb_at_put [OF len core ep]
  have new_disj: "rb_bytes (rb_at rbs core i) \<inter> rb_bytes rb = {}"
    if "i < EP_COUNT" "i \<noteq> ep" "attached (rb_at rbs core i)" for i
  proof -
    have "rb_sane (rb_addr (rb_at rbs core i)) (rb_order (rb_at rbs core i))"
      using inv core that by (auto simp: rb_inv_def)
    from overlap_bytes [OF this new] disj [OF that] show ?thesis by (simp add: rb_bytes_def rb)
  qed
  have old: "attached (rb_at rbs c i) \<Longrightarrow> c < cores \<Longrightarrow> i < EP_COUNT \<Longrightarrow>
      rb_sane (rb_addr (rb_at rbs c i)) (rb_order (rb_at rbs c i)) \<and>
      (\<forall>j<EP_COUNT. j \<noteq> i \<longrightarrow> attached (rb_at rbs c j) \<longrightarrow>
         rb_bytes (rb_at rbs c i) \<inter> rb_bytes (rb_at rbs c j) = {})" for c i
    using inv by (auto simp: rb_inv_def)
  show ?thesis
    unfolding rb_inv_def using len old new_disj new
    by (auto simp: at rb Int_commute) blast
qed

lemma rb_inv_clear:
  assumes inv: "rb_inv cores rbs" and core: "core < cores" and ep: "ep < EP_COUNT"
    and rb: "attached rb \<Longrightarrow> attached (rb_at rbs core ep)" "rb_addr rb = rb_addr (rb_at rbs core ep)"
      "rb_order rb = rb_order (rb_at rbs core ep)"
  shows "rb_inv cores (rb_put core ep rb rbs)"
proof -
  have len: "length rbs = cores * EP_COUNT" using inv by (simp add: rb_inv_def)
  have "rb_bytes rb = rb_bytes (rb_at rbs core ep)" by (simp add: rb_bytes_def rb)
  then show ?thesis
    using inv core ep rb unfolding rb_inv_def by (auto simp: rb_at_put [OF len core ep]) blast
qed

lemma length_rb_entries: "length (rb_entries cores :: 'c rbufs) = Suc (highCoreID cores) * EP_COUNT"
  by (simp add: rb_entries_def length_concat comp_def sum_list_triv)

text \<open>Two cores, of which the second one has a buffer of 256 bytes at its endpoint 1.\<close>

definition two_cores :: "unit rbufs" where
  "two_cores = rb_put 1 1 ((new_rbuf 1 1)\<lparr>rb_addr := 0x1000, rb_order := 8, rb_msgorder := 8,
     rb_flags := 0 OR F_ATTACHED\<rparr>) (rb_entries [0, 1])"

lemma rb_inv_entries: "rb_inv (Suc (highCoreID cores)) (rb_entries cores)"
proof -
  have none: "\<not> attached rb" if "rb \<in> set (rb_entries cores :: 'c rbufs)" for rb
    using that by (auto simp: rb_entries_def new_rbuf_def attached_def)
  have "\<not> attached (rb_at (rb_entries cores :: 'c rbufs) core i)"
    if "core < Suc (highCoreID cores)" "i < EP_COUNT" for core i
    unfolding rb_at_def by (rule none, rule nth_mem) (use rb_index_less [OF that] in \<open>simp add: length_rb_entries\<close>)
  then show ?thesis by (auto simp: rb_inv_def length_rb_entries)
qed

lemma two_cores_entries: "rb_inv 2 (rb_entries [0, 1] :: unit rbufs)" "length (rb_entries [0, 1] :: unit rbufs) = 2 * EP_COUNT"
proof -
  have "highCoreID [0, 1] = 1" by (simp add: highCoreID_def)
  then show "rb_inv 2 (rb_entries [0, 1] :: unit rbufs)" "length (rb_entries [0, 1] :: unit rbufs) = 2 * EP_COUNT"
    using rb_inv_entries [of "[0, 1]"] by (simp_all add: length_rb_entries numeral_2_eq_2)
qed

lemma two_cores_inv: "rb_inv 2 two_cores"
proof -
  have none: "\<not> attached (rb_at (rb_entries [0, 1] :: unit rbufs) 1 i)" if "i < EP_COUNT" for i
  proof -
    have "rb_at (rb_entries [0, 1] :: unit rbufs) 1 i \<in> set (rb_entries [0, 1])"
      unfolding rb_at_def by (rule nth_mem) (use that two_cores_entries(2) in simp)
    then show ?thesis by (auto simp: rb_entries_def new_rbuf_def attached_def)
  qed
  show ?thesis unfolding two_cores_def
    by (rule rb_inv_attach [where addr = "0x1000" and order = 8])
      (use two_cores_entries none in \<open>auto simp: EP_COUNT_def rb_sane_def\<close>)
qed

lemma two_cores_at: "attached (rb_at two_cores 1 1)"
  unfolding two_cores_def
  by (subst rb_at_put [OF two_cores_entries(2)]) (auto simp: EP_COUNT_def simp del: or.left_neutral)

section \<open>Properties\<close>

text \<open>C10. Attaching a receive buffer refuses an endpoint that already has one (\<^verbatim>\<open>EXISTS\<close>) and a buffer
  that shares a byte with another attached buffer of the same core (\<^verbatim>\<open>INV_ARGS\<close>), without changing
  anything; otherwise the buffer is attached and configured, all waiting callbacks are run once, and
  the attached buffers of every core are still pairwise disjoint.\<close>

theorem rb_attach_safe:
  assumes "rb_inv cores rbs" and "core < cores" and "ep < EP_COUNT" and "rb_sane addr order"
  shows "\<exists>err cfgs cbs rbs'. rb_attach core ep addr order msgorder flags rbs = Inr (err, cfgs, cbs, rbs') \<and>
    rb_inv cores rbs' \<and>
    err = (if attached (rb_at rbs core ep) then EXISTS
      else if \<exists>i<EP_COUNT. i \<noteq> ep \<and> attached (rb_at rbs core i) \<and>
        rb_bytes (rb_at rbs core i) \<inter> {unat addr ..< unat addr + 2 ^ nat order} \<noteq> {} then INV_ARGS
      else NO_ERROR) \<and>
    (if err = NO_ERROR
     then attached (rb_at rbs' core ep) \<and> rb_bytes (rb_at rbs' core ep) = {unat addr ..< unat addr + 2 ^ nat order} \<and>
       cbs = rb_wait (rb_at rbs core ep) \<and> rb_wait (rb_at rbs' core ep) = [] \<and> map rc_valid cfgs = [True]
     else rbs' = rbs \<and> cbs = [] \<and> cfgs = [])"
proof -
  let ?clash = "\<exists>i<EP_COUNT. i \<noteq> ep \<and> attached (rb_at rbs core i) \<and>
    overlap (rb_addr (rb_at rbs core i)) (rb_addr (rb_at rbs core i) + shl1 (rb_order (rb_at rbs core i)))
      addr (addr + shl1 order)"
  let ?rb = "(rb_at rbs core ep)\<lparr>rb_addr := addr, rb_order := order, rb_msgorder := msgorder,
    rb_flags := flags OR F_ATTACHED, rb_wait := []\<rparr>"
  have sane: "rb_sane (rb_addr (rb_at rbs core i)) (rb_order (rb_at rbs core i))"
    if "i < EP_COUNT" "attached (rb_at rbs core i)" for i
    using assms(1,2) that by (auto simp: rb_inv_def)
  have clash: "?clash \<longleftrightarrow> (\<exists>i<EP_COUNT. i \<noteq> ep \<and> attached (rb_at rbs core i) \<and>
      rb_bytes (rb_at rbs core i) \<inter> {unat addr ..< unat addr + 2 ^ nat order} \<noteq> {})"
    using overlap_bytes [OF sane assms(4)] unfolding rb_bytes_def by blast
  have len: "length rbs = cores * EP_COUNT" using assms(1) by (simp add: rb_inv_def)
  have "rb_inv cores (rb_put core ep ?rb rbs)" if "\<not> ?clash"
    by (rule rb_inv_attach [OF assms]) (use that in auto)
  then show ?thesis
    unfolding rb_attach_cases [OF assms(1-3)] clash [symmetric]
    using assms(1) by (auto simp: rb_at_put [OF len assms(2,3,3)] rb_bytes_def attached_def [symmetric])
qed

theorem rb_attach_safe_witness:
  "\<exists>cfgs cbs rbs'. rb_attach 1 1 0x2000 8 8 0 two_cores = Inr (EXISTS, cfgs, cbs, rbs') \<and> rb_inv 2 rbs'"
proof -
  have "rb_sane 0x2000 8" by (simp add: rb_sane_def)
  with rb_attach_safe [OF two_cores_inv, of 1 1 "0x2000" 8 8 0] two_cores_at show ?thesis
    by (auto simp: EP_COUNT_def)
qed

text \<open>The endpoint number of \<^verbatim>\<open>detach\<close> is not checked against \<^verbatim>\<open>EP_COUNT\<close>: for an endpoint past the
  last one of a core, the receive buffer of an endpoint of the next core is detached.\<close>

theorem rb_detach_next_core:
  assumes "rb_inv cores rbs" and "Suc core < cores" and "j < EP_COUNT" and "attached (rb_at rbs (Suc core) j)"
  shows "\<exists>cfgs cbs rbs'. rb_detach core (EP_COUNT + j) rbs = Inr (cfgs, cbs, rbs') \<and>
    \<not> attached (rb_at rbs' (Suc core) j) \<and> map rc_ep cfgs = [EP_COUNT + j]"
proof -
  have len: "length rbs = cores * EP_COUNT" using assms(1) by (simp add: rb_inv_def)
  have idx: "core * EP_COUNT + (EP_COUNT + j) = Suc core * EP_COUNT + j" by simp
  have get: "rb_get rbs core (EP_COUNT + j) = rb_get rbs (Suc core) j"
    unfolding rb_get_def idx using rb_index_less [OF assms(2,3)] by (simp add: len EP_COUNT_def)
  have put: "rb_put core (EP_COUNT + j) rb rbs = rb_put (Suc core) j rb rbs" for rb
    unfolding rb_put_def idx ..
  show ?thesis
    using assms(4)
    by (simp add: rb_detach_def get rb_get_ok [OF len assms(2,3)] put rb_at_put [OF len assms(2,3,3)]
        rb_configure_def Let_def)
qed

theorem rb_detach_next_core_witness:
  "\<exists>cfgs cbs rbs'. rb_detach 0 17 two_cores = Inr (cfgs, cbs, rbs') \<and> \<not> attached (rb_at rbs' 1 1)"
  using rb_detach_next_core [OF two_cores_inv, of 0 1] two_cores_at by (auto simp: EP_COUNT_def)

text \<open>The table of the receive buffers is allocated for one core too few: \<^verbatim>\<open>init\<close> stores \<^verbatim>\<open>EP_COUNT\<close>
  entries past the end of the allocated array.\<close>

theorem rb_init_overrun:
  "rb_init cores = (Inl Out_of_bounds :: 'c rbufs result) \<and>
   length (rb_entries cores :: 'c rbufs) = rb_capacity cores + EP_COUNT"
  unfolding rb_init_def length_rb_entries rb_capacity_def by (simp add: EP_COUNT_def)

end
