(* ===== verification/Kernel_Link.thy ===== *)
theory Kernel_Link
  imports KV_Store "HOL-Library.Multiset"
begin

text \<open>
  The flow control between kernels, \<^verbatim>\<open>kernel::KPE\<close>
  (\<^verbatim>\<open>src/src/apps/kernel/pes/KPE.h\<close> and \<^verbatim>\<open>KPE.cc\<close>). A kernel keeps one \<^verbatim>\<open>KPE\<close> per other kernel. It counts the
  requests that are not answered yet; a thread that finds no free slot enters the list of waiting
  threads and sleeps, and \<^verbatim>\<open>msg_received\<close> wakes up the first one. The functions below run the
  sending loops once: a thread that was woken up runs its loop again. The second half of the theory
  lets two kernels exchange messages in any order and studies the reachable states.
\<close>

section \<open>One end of a connection\<close>

definition MAX_MSG_INFLIGHT :: int where "MAX_MSG_INFLIGHT = 4"
definition KRNLC_MSG_SIZE :: nat where "KRNLC_MSG_SIZE = 2048"
definition HEADER_SIZE :: nat where "HEADER_SIZE = 25"

lemmas link_consts = MAX_MSG_INFLIGHT_def KRNLC_MSG_SIZE_def HEADER_SIZE_def

datatype shutdown_state = SS_NONE | SS_INFLIGHT | SS_READY

record waiting_kpe =
  w_tid :: int
  w_revocation :: bool

text \<open>A callback is known by its number; what it does is up to the caller of \<^verbatim>\<open>addCallback\<close>.\<close>

record kpe =
  kp_readyForShutdown :: shutdown_state
  kp_nextcallbackID :: u32
  kp_callbacks :: "(u32, nat) kvstore"
  kp_localEP :: int
  kp_remoteEP :: int
  kp_msgsInflight :: int
  kp_lastMsgReply :: bool
  kp_waitingThrds :: "waiting_kpe list"

definition new_KPE :: "int \<Rightarrow> int \<Rightarrow> kpe" where
  "new_KPE localEP remoteEP =
     \<lparr>kp_readyForShutdown = SS_NONE, kp_nextcallbackID = 0, kp_callbacks = [], kp_localEP = localEP,
      kp_remoteEP = remoteEP, kp_msgsInflight = 0, kp_lastMsgReply = False, kp_waitingThrds = []\<rparr>"

datatype send_outcome = Sent | Waits

definition sendTo :: "int \<Rightarrow> nat \<Rightarrow> kpe \<Rightarrow> (send_outcome \<times> kpe) result" where
  "sendTo tid sz kp =
     (if kp_msgsInflight kp \<ge> MAX_MSG_INFLIGHT - 2
      then Inr (Waits, kp\<lparr>kp_waitingThrds := kp_waitingThrds kp @ [\<lparr>w_tid = tid, w_revocation = False\<rparr>]\<rparr>)
      else if sz + HEADER_SIZE < KRNLC_MSG_SIZE
      then Inr (Sent, kp\<lparr>kp_msgsInflight := kp_msgsInflight kp + 1\<rparr>)
      else Inl Assert_failed)"

definition sendRevocationTo :: "int \<Rightarrow> nat \<Rightarrow> kpe \<Rightarrow> (send_outcome \<times> kpe) result" where
  "sendRevocationTo tid sz kp =
     (if kp_msgsInflight kp \<ge> MAX_MSG_INFLIGHT - 1
      then Inr (Waits, kp\<lparr>kp_waitingThrds := \<lparr>w_tid = tid, w_revocation = True\<rparr> # kp_waitingThrds kp\<rparr>)
      else if sz + HEADER_SIZE < KRNLC_MSG_SIZE
      then Inr (Sent, kp\<lparr>kp_msgsInflight := kp_msgsInflight kp + 1\<rparr>)
      else Inl Assert_failed)"

text \<open>The loop of \<^verbatim>\<open>reply\<close>, and \<^verbatim>\<open>reply\<close> with its assertion.\<close>

definition reply_loop :: "int \<Rightarrow> nat \<Rightarrow> kpe \<Rightarrow> (send_outcome \<times> kpe) result" where
  "reply_loop tid sz kp =
     (if kp_msgsInflight kp \<ge> MAX_MSG_INFLIGHT - 1 \<and> kp_lastMsgReply kp
      then Inr (Waits, kp\<lparr>kp_waitingThrds := kp_waitingThrds kp @ [\<lparr>w_tid = tid, w_revocation = False\<rparr>]\<rparr>)
      else if sz + HEADER_SIZE < KRNLC_MSG_SIZE then Inr (Sent, kp\<lparr>kp_lastMsgReply := True\<rparr>)
      else Inl Assert_failed)"

definition kpe_reply :: "int \<Rightarrow> nat \<Rightarrow> kpe \<Rightarrow> (send_outcome \<times> kpe) result" where
  "kpe_reply tid sz kp =
     (if kp_msgsInflight kp < MAX_MSG_INFLIGHT then reply_loop tid sz kp else Inl Assert_failed)"

text \<open>\<^verbatim>\<open>forwardTo\<close> differs from \<^verbatim>\<open>sendTo\<close> in the label of the message only.\<close>

definition forwardTo :: "int \<Rightarrow> nat \<Rightarrow> kpe \<Rightarrow> (send_outcome \<times> kpe) result" where
  "forwardTo tid sz kp =
     (if kp_msgsInflight kp \<ge> MAX_MSG_INFLIGHT - 2
      then Inr (Waits, kp\<lparr>kp_waitingThrds := kp_waitingThrds kp @ [\<lparr>w_tid = tid, w_revocation = False\<rparr>]\<rparr>)
      else if sz + HEADER_SIZE < KRNLC_MSG_SIZE
      then Inr (Sent, kp\<lparr>kp_msgsInflight := kp_msgsInflight kp + 1\<rparr>)
      else Inl Assert_failed)"

text \<open>The result names the thread that is notified, if any.\<close>

definition msg_received :: "kpe \<Rightarrow> (int option \<times> kpe) result" where
  "msg_received kp =
     (let kp = kp\<lparr>kp_msgsInflight := kp_msgsInflight kp - 1, kp_lastMsgReply := False\<rparr> in
      if kp_msgsInflight kp < 0 then Inl Assert_failed
      else (case kp_waitingThrds kp of
              [] \<Rightarrow> Inr (None, kp)
            | w # ws \<Rightarrow>
                if \<not> kp_msgsInflight kp < MAX_MSG_INFLIGHT - 2 \<and> \<not> w_revocation w then Inr (None, kp)
                else Inr (Some (w_tid w), kp\<lparr>kp_waitingThrds := ws\<rparr>)))"

definition waitingThreads :: "kpe \<Rightarrow> nat" where
  "waitingThreads kp = length (kp_waitingThrds kp)"

definition addCallback :: "nat \<Rightarrow> kpe \<Rightarrow> u32 \<times> kpe" where
  "addCallback cb kp =
     (kp_nextcallbackID kp,
      kp\<lparr>kp_callbacks := kv_put (kp_nextcallbackID kp) cb (kp_callbacks kp),
         kp_nextcallbackID := kp_nextcallbackID kp + 1\<rparr>)"

definition removeCallback :: "u32 \<Rightarrow> kpe \<Rightarrow> kpe result" where
  "removeCallback cbID kp =
     rbind (kv_get (kp_callbacks kp) cbID) (\<lambda>_. Inr (kp\<lparr>kp_callbacks := snd (kv_remove cbID (kp_callbacks kp))\<rparr>))"

text \<open>\<^verbatim>\<open>notify\<close>: the callback that runs, and the state afterwards.\<close>

definition kpe_notify :: "u32 \<Rightarrow> bool \<Rightarrow> kpe \<Rightarrow> (nat \<times> kpe) result" where
  "kpe_notify cbID remove kp =
     rbind (kv_get (kp_callbacks kp) cbID) (\<lambda>cb.
       rbind (if remove then removeCallback cbID kp else Inr kp) (\<lambda>kp. Inr (cb, kp)))"

section \<open>Two connected kernels\<close>

text \<open>
  A message is a normal request, a revocation request, a plain answer, or the \<^verbatim>\<open>REVOKEFINISH\<close> with
  \<^verbatim>\<open>includeReply\<close> that answers a revocation request and is a request itself. A side is the \<^verbatim>\<open>KPE\<close> that one
  kernel keeps of the other, the messages of the other kernel that wait to be fetched, what each of its
  threads wants to send, and the threads that were notified and not resumed yet. Threads have fresh
  numbers, and messages fit into a slot.
\<close>

datatype msg_class = Normal | Revoc | Reply | Finish

record side =
  sd_kpe :: kpe
  sd_inbox :: "msg_class list"
  sd_what :: "int \<Rightarrow> msg_class"
  sd_ready :: "int list"
  sd_next :: int

definition new_side :: side where
  "new_side = \<lparr>sd_kpe = new_KPE 0 0, sd_inbox = [], sd_what = (\<lambda>_. Normal), sd_ready = [], sd_next = 0\<rparr>"

definition attempt :: "bool \<Rightarrow> int \<Rightarrow> msg_class \<Rightarrow> kpe \<Rightarrow> (send_outcome \<times> kpe) result" where
  "attempt resumed tid c kp =
     (case c of
        Normal \<Rightarrow> sendTo tid 0 kp
      | Revoc \<Rightarrow> sendRevocationTo tid 0 kp
      | Finish \<Rightarrow> sendRevocationTo tid 0 kp
      | Reply \<Rightarrow> if resumed then reply_loop tid 0 kp else kpe_reply tid 0 kp)"

definition run_thread :: "bool \<Rightarrow> int \<Rightarrow> side \<Rightarrow> side \<Rightarrow> (side \<times> side) result" where
  "run_thread resumed tid a b =
     rbind (attempt resumed tid (sd_what a tid) (sd_kpe a)) (\<lambda>(out, kp).
       Inr (a\<lparr>sd_kpe := kp\<rparr>, if out = Sent then b\<lparr>sd_inbox := sd_inbox b @ [sd_what a tid]\<rparr> else b))"

definition spawn :: "msg_class \<Rightarrow> side \<Rightarrow> side \<Rightarrow> (side \<times> side) result" where
  "spawn c a b =
     run_thread False (sd_next a) (a\<lparr>sd_what := (sd_what a)(sd_next a := c), sd_next := sd_next a + 1\<rparr>) b"

definition answered :: "side \<Rightarrow> side result" where
  "answered a =
     rbind (msg_received (sd_kpe a)) (\<lambda>(woken, kp).
       Inr (a\<lparr>sd_kpe := kp, sd_ready := sd_ready a @ (case woken of None \<Rightarrow> [] | Some t \<Rightarrow> [t])\<rparr>))"

text \<open>What a kernel can do next: a new request, the handling of the next message (a revocation request is
  answered by a plain answer or by a \<^verbatim>\<open>REVOKEFINISH\<close>), the resumption of a notified thread.\<close>

datatype action = Issue bool | Handle bool | Resume nat

definition perform :: "action \<Rightarrow> side \<Rightarrow> side \<Rightarrow> (side \<times> side) result option" where
  "perform act a b =
     (case act of
        Issue revocation \<Rightarrow> Some (spawn (if revocation then Revoc else Normal) a b)
      | Handle finish \<Rightarrow>
          (case sd_inbox a of
             [] \<Rightarrow> None
           | c # cs \<Rightarrow>
               (let a = a\<lparr>sd_inbox := cs\<rparr> in
                case c of
                  Normal \<Rightarrow> Some (spawn Reply a b)
                | Revoc \<Rightarrow> Some (spawn (if finish then Finish else Reply) a b)
                | Reply \<Rightarrow> Some (rbind (answered a) (\<lambda>a. Inr (a, b)))
                | Finish \<Rightarrow> Some (rbind (answered a) (\<lambda>a. spawn Reply a b))))
      | Resume i \<Rightarrow>
          (if i < length (sd_ready a)
           then Some (run_thread True (sd_ready a ! i) (a\<lparr>sd_ready := take i (sd_ready a) @ drop (Suc i) (sd_ready a)\<rparr>) b)
           else None))"

inductive link_step :: "side \<times> side \<Rightarrow> side \<times> side \<Rightarrow> bool" where
  left: "perform act a b = Some (Inr (a', b')) \<Longrightarrow> link_step (a, b) (a', b')"
| right: "perform act b a = Some (Inr (b', a')) \<Longrightarrow> link_step (a, b) (a', b')"

inductive link_reach :: "side \<times> side \<Rightarrow> side \<times> side \<Rightarrow> bool" where
  refl: "link_reach s s"
| step: "link_reach s t \<Longrightarrow> link_step t u \<Longrightarrow> link_reach s u"

inductive_cases link_stepE: "link_step (a, b) s"

text \<open>A run given by its actions; the flag says whether the left kernel acts.\<close>

fun link_run :: "(bool \<times> action) list \<Rightarrow> side \<times> side \<Rightarrow> (side \<times> side) option" where
  "link_run [] s = Some s"
| "link_run ((l, act) # acts) (a, b) =
     (if l then (case perform act a b of Some (Inr (a', b')) \<Rightarrow> link_run acts (a', b') | _ \<Rightarrow> None)
      else (case perform act b a of Some (Inr (b', a')) \<Rightarrow> link_run acts (a', b') | _ \<Rightarrow> None))"

lemma link_reach_trans: "link_reach t u \<Longrightarrow> link_reach s t \<Longrightarrow> link_reach s u"
  by (induction rule: link_reach.induct) (auto intro: link_reach.intros)

lemma link_step_reach: "link_step s t \<Longrightarrow> link_reach t u \<Longrightarrow> link_reach s u"
  by (rule link_reach_trans) (auto intro: link_reach.intros)

lemma link_run_reach: "link_run acts s = Some t \<Longrightarrow> link_reach s t"
proof (induction acts arbitrary: s)
  case (Cons x acts)
  obtain l act a b where [simp]: "x = (l, act)" "s = (a, b)" by (cases x; cases s)
  show ?case using Cons
    by (auto split: if_splits option.splits sum.splits intro: link_step_reach link_step.intros)
qed (auto intro: link_reach.refl)

section \<open>The invariant of the connection\<close>

definition is_answer :: "msg_class \<Rightarrow> bool" where "is_answer c \<longleftrightarrow> c = Reply \<or> c = Finish"
definition is_request :: "msg_class \<Rightarrow> bool" where "is_request c \<longleftrightarrow> c \<noteq> Reply"

definition tids :: "side \<Rightarrow> int list" where
  "tids a = map w_tid (kp_waitingThrds (sd_kpe a)) @ sd_ready a"

text \<open>The answers that threads of a side still have to send.\<close>

definition owed :: "side \<Rightarrow> nat" where
  "owed a = length (filter (\<lambda>t. is_answer (sd_what a t)) (tids a))"

text \<open>The unanswered requests of \<open>a\<close> are those that \<open>b\<close> has not fetched, those that threads of \<open>b\<close> still have
  to answer (\<open>n\<close> of them not entered into a list), and those whose answer \<open>a\<close> has not fetched.\<close>

definition half_inv :: "nat \<Rightarrow> side \<Rightarrow> side \<Rightarrow> bool" where
  "half_inv n a b \<longleftrightarrow>
     kp_msgsInflight (sd_kpe a) =
       int (length (filter is_request (sd_inbox b)) + owed b + length (filter is_answer (sd_inbox a)) + n) \<and>
     kp_msgsInflight (sd_kpe a) \<le> MAX_MSG_INFLIGHT - 1"

definition tids_ok :: "side \<Rightarrow> bool" where
  "tids_ok a \<longleftrightarrow> (\<forall>t\<in>set (tids a). t < sd_next a) \<and>
     (\<forall>w\<in>set (kp_waitingThrds (sd_kpe a)). w_revocation w \<longleftrightarrow> sd_what a (w_tid w) = Revoc \<or> sd_what a (w_tid w) = Finish)"

definition link_inv :: "side \<times> side \<Rightarrow> bool" where
  "link_inv s = (case s of (a, b) \<Rightarrow> half_inv 0 a b \<and> half_inv 0 b a \<and> tids_ok a \<and> tids_ok b)"

lemma class_simps [simp]:
  "\<not> is_answer Normal" "\<not> is_answer Revoc" "is_answer Reply" "is_answer Finish"
  "is_request Normal" "is_request Revoc" "\<not> is_request Reply" "is_request Finish"
  by (auto simp: is_answer_def is_request_def)

lemmas link_defs = sendTo_def sendRevocationTo_def reply_loop_def kpe_reply_def link_consts

lemma run_thread_inv:
  assumes "half_inv 0 a b" "half_inv (if is_answer (sd_what a tid) then 1 else 0) b a"
    and "tids_ok a" "tids_ok b" "tid < sd_next a"
  shows "\<exists>a' b'. run_thread r tid a b = Inr (a', b') \<and> link_inv (a', b')"
  using assms
  by (cases "sd_what a tid")
    (auto simp: run_thread_def attempt_def link_defs half_inv_def link_inv_def tids_ok_def tids_def owed_def)

lemma new_thread:
  assumes "tids_ok a"
  shows "owed (a\<lparr>sd_what := (sd_what a)(sd_next a := c), sd_next := sd_next a + 1\<rparr>) = owed a"
    and "tids_ok (a\<lparr>sd_what := (sd_what a)(sd_next a := c), sd_next := sd_next a + 1\<rparr>)"
proof -
  have "t \<noteq> sd_next a" if "t \<in> set (tids a)" for t using that assms by (auto simp: tids_ok_def)
  then show "owed (a\<lparr>sd_what := (sd_what a)(sd_next a := c), sd_next := sd_next a + 1\<rparr>) = owed a"
    unfolding owed_def by (intro arg_cong [of _ _ length] filter_cong) (auto simp: tids_def)
  show "tids_ok (a\<lparr>sd_what := (sd_what a)(sd_next a := c), sd_next := sd_next a + 1\<rparr>)"
    using assms unfolding tids_ok_def tids_def set_append set_map ball_Un ball_simps by force
qed

lemma spawn_inv:
  assumes "half_inv 0 a b" "half_inv (if is_answer c then 1 else 0) b a" "tids_ok a" "tids_ok b"
  shows "\<exists>a' b'. spawn c a b = Inr (a', b') \<and> link_inv (a', b')"
  unfolding spawn_def using assms
  by (intro run_thread_inv) (simp_all add: half_inv_def new_thread)

lemma answered_inv:
  assumes "half_inv 1 a b" "half_inv n b a" "tids_ok a"
  shows "\<exists>a'. answered a = Inr a' \<and> half_inv 0 a' b \<and> half_inv n b a' \<and> tids_ok a' \<and> sd_inbox a' = sd_inbox a"
  using assms
  by (cases "kp_waitingThrds (sd_kpe a)")
    (auto simp: answered_def msg_received_def half_inv_def tids_ok_def tids_def owed_def Let_def)

lemma ready_split:
  "i < length (sd_ready a) \<Longrightarrow> mset (tids a) = add_mset (sd_ready a ! i)
     (mset (tids (a\<lparr>sd_ready := take i (sd_ready a) @ drop (Suc i) (sd_ready a)\<rparr>)))"
  using id_take_nth_drop [of i "sd_ready a"]
  by (simp add: tids_def) (metis add_mset_add_single mset.simps(2) mset_append union_mset_add_mset_right)

lemma perform_inv:
  assumes "link_inv (a, b)" "perform act a b = Some r"
  shows "\<exists>a' b'. r = Inr (a', b') \<and> link_inv (a', b')"
proof (cases act)
  case (Issue rv)
  then show ?thesis using assms spawn_inv [of a b "if rv then Revoc else Normal"]
    by (auto simp: perform_def link_inv_def)
next
  case (Handle f)
  then obtain c cs where cs: "sd_inbox a = c # cs" using assms(2) by (cases "sd_inbox a") (auto simp: perform_def)
  let ?a = "a\<lparr>sd_inbox := cs\<rparr>"
  have h: "half_inv (if is_answer c then 1 else 0) ?a b" "half_inv (if is_request c then 1 else 0) b ?a"
      "tids_ok ?a" "tids_ok b"
    using assms(1) cs by (auto simp: link_inv_def half_inv_def tids_ok_def tids_def owed_def)
  note p = assms(2) [unfolded perform_def Handle, simplified, unfolded cs, simplified]
  show ?thesis
  proof (cases c)
    case Normal
    then show ?thesis using p h spawn_inv [of ?a b Reply] by simp
  next
    case Revoc
    then show ?thesis using p h spawn_inv [of ?a b "if f then Finish else Reply"] by simp
  next
    case Reply
    then obtain a' where "answered ?a = Inr a'" "half_inv 0 a' b" "half_inv 0 b a'" "tids_ok a'"
      using h answered_inv [of ?a b 0] by auto
    then show ?thesis using p h(4) Reply by (auto simp: link_inv_def)
  next
    case Finish
    then obtain a' where "answered ?a = Inr a'" "half_inv 0 a' b" "half_inv 1 b a'" "tids_ok a'"
      using h answered_inv [of ?a b 1] by auto
    then show ?thesis using p h(4) Finish spawn_inv [of a' b Reply] by simp
  qed
next
  case (Resume i)
  then have i: "i < length (sd_ready a)" using assms(2) by (auto simp: perform_def split: if_splits)
  let ?a = "a\<lparr>sd_ready := take i (sd_ready a) @ drop (Suc i) (sd_ready a)\<rparr>" and ?t = "sd_ready a ! i"
  have "owed a = owed ?a + (if is_answer (sd_what a ?t) then 1 else 0)"
    using ready_split [OF i] unfolding owed_def by (simp flip: size_mset add: mset_filter)
  moreover have "set (tids ?a) \<subseteq> set (tids a)" "?t \<in> set (tids a)"
    using arg_cong [OF ready_split [OF i], of set_mset] by auto
  ultimately show ?thesis
    using assms Resume i run_thread_inv [of ?a b ?t True]
    by (auto simp: perform_def link_inv_def half_inv_def tids_ok_def)
qed

lemma run_thread_normal:
  assumes "run_thread r tid a b = Inr (a', b')" "sd_inbox b' = sd_inbox b @ [Normal]"
  shows "kp_msgsInflight (sd_kpe a') \<le> MAX_MSG_INFLIGHT - 2"
  using assms by (cases "sd_what a tid") (auto simp: run_thread_def attempt_def link_defs split: if_splits)

lemma perform_normal:
  assumes "perform act a b = Some (Inr (a', b'))" "sd_inbox b' = sd_inbox b @ [Normal]"
  shows "kp_msgsInflight (sd_kpe a') \<le> MAX_MSG_INFLIGHT - 2"
proof -
  have "\<exists>r tid a''. run_thread r tid a'' b = Inr (a', b')"
    using assms unfolding perform_def spawn_def
    by (auto simp: Let_def split: action.splits list.splits msg_class.splits if_splits)
  then show ?thesis using run_thread_normal assms(2) by blast
qed

lemma link_inv_new: "link_inv (new_side, new_side)"
  by (simp add: link_inv_def half_inv_def tids_ok_def tids_def owed_def new_side_def new_KPE_def link_consts)

lemma link_step_inv: "link_step s t \<Longrightarrow> link_inv s \<Longrightarrow> link_inv t"
proof (induction rule: link_step.induct)
  case (right act b a b' a')
  then show ?case using perform_inv [of b a act "Inr (b', a')"] by (auto simp: link_inv_def)
qed (use perform_inv in fastforce)

lemma link_reach_inv: "link_reach s t \<Longrightarrow> link_inv s \<Longrightarrow> link_inv t"
  by (induction rule: link_reach.induct) (auto intro: link_step_inv)

section \<open>A state the kernels do not leave\<close>

text \<open>Threads \<open>ws\<close> wait to send an answer, behind waiting revocations only.\<close>

definition stuck :: "waiting_kpe list \<Rightarrow> side \<Rightarrow> bool" where
  "stuck ws a \<longleftrightarrow> (\<exists>revs rest. kp_waitingThrds (sd_kpe a) = revs @ ws @ rest \<and> (\<forall>w\<in>set revs. w_revocation w)) \<and>
     (\<forall>w\<in>set ws. \<not> w_revocation w \<and> sd_what a (w_tid w) = Reply)"

lemma stuckI:
  "kp_waitingThrds (sd_kpe a) = revs @ ws @ rest \<Longrightarrow> \<forall>w\<in>set revs. w_revocation w \<Longrightarrow>
   \<forall>w\<in>set ws. \<not> w_revocation w \<and> sd_what a (w_tid w) = Reply \<Longrightarrow> stuck ws a"
  unfolding stuck_def by blast

lemma stuck_cong:
  "kp_waitingThrds (sd_kpe a') = kp_waitingThrds (sd_kpe a) \<Longrightarrow> sd_what a' = sd_what a \<Longrightarrow> stuck ws a' = stuck ws a"
  by (simp add: stuck_def)

lemma stuck_owed: "stuck ws a \<Longrightarrow> length ws \<le> owed a"
proof -
  assume "stuck ws a"
  then obtain revs rest where w: "kp_waitingThrds (sd_kpe a) = revs @ ws @ rest"
    and r: "\<forall>w\<in>set ws. sd_what a (w_tid w) = Reply" by (auto simp: stuck_def)
  have "filter (\<lambda>t. is_answer (sd_what a t)) (map w_tid ws) = map w_tid ws" using r by (auto simp: filter_id_conv)
  then show ?thesis by (simp add: owed_def tids_def w flip: filter_map)
qed

lemma attempt_waiting:
  "attempt r tid c kp = Inr (out, kp') \<Longrightarrow>
   kp_waitingThrds kp' = kp_waitingThrds kp \<or>
   kp_waitingThrds kp' = kp_waitingThrds kp @ [\<lparr>w_tid = tid, w_revocation = False\<rparr>] \<or>
   kp_waitingThrds kp' = \<lparr>w_tid = tid, w_revocation = True\<rparr> # kp_waitingThrds kp"
  by (cases c; simp add: attempt_def link_defs split: if_splits; auto)

lemma stuck_run_thread:
  assumes "stuck ws a" "run_thread r tid a b = Inr (a', b')"
  shows "stuck ws a' \<and> (stuck vs b \<longrightarrow> stuck vs b')"
proof -
  obtain revs rest where w: "kp_waitingThrds (sd_kpe a) = revs @ ws @ rest" "\<forall>w\<in>set revs. w_revocation w"
    "\<forall>w\<in>set ws. \<not> w_revocation w \<and> sd_what a (w_tid w) = Reply" using assms(1) by (auto simp: stuck_def)
  have a': "kp_waitingThrds (sd_kpe a') = revs @ ws @ rest \<or>
      kp_waitingThrds (sd_kpe a') = revs @ ws @ (rest @ [\<lparr>w_tid = tid, w_revocation = False\<rparr>]) \<or>
      kp_waitingThrds (sd_kpe a') = (\<lparr>w_tid = tid, w_revocation = True\<rparr> # revs) @ ws @ rest"
    and what: "sd_what a' = sd_what a" and b': "sd_kpe b' = sd_kpe b" "sd_what b' = sd_what b"
    using assms(2) attempt_waiting [of r tid "sd_what a tid" "sd_kpe a"] unfolding w(1)
    by (auto simp: run_thread_def split: if_splits)
  have r': "\<forall>w\<in>set (\<lparr>w_tid = tid, w_revocation = True\<rparr> # revs). w_revocation w" using w(2) by simp
  have "stuck ws a'"
    using a' stuckI [OF _ w(2), of a' ws] stuckI [OF _ r', of a' ws rest] w(3) unfolding what by blast
  then show ?thesis using b' by (simp add: stuck_def)
qed

lemma stuck_spawn:
  assumes "stuck ws a" "tids_ok a" "spawn c a b = Inr (a', b')"
  shows "stuck ws a' \<and> (stuck vs b \<longrightarrow> stuck vs b')"
proof (rule stuck_run_thread)
  have "\<forall>w\<in>set (kp_waitingThrds (sd_kpe a)). w_tid w \<noteq> sd_next a"
    using assms(2) unfolding tids_ok_def tids_def set_append set_map ball_Un ball_simps by force
  then show "stuck ws (a\<lparr>sd_what := (sd_what a)(sd_next a := c), sd_next := sd_next a + 1\<rparr>)"
    using assms(1) unfolding stuck_def by (auto simp: ball_Un)
qed (use assms(3) in \<open>simp add: spawn_def\<close>)

lemma msg_received_full:
  assumes "msg_received kp = Inr (t, kp')" "kp_waitingThrds kp = revs @ ws @ rest" "\<forall>w\<in>set revs. w_revocation w"
    "\<forall>w\<in>set ws. \<not> w_revocation w \<and> P w" "ws \<noteq> []" "kp_msgsInflight kp \<ge> MAX_MSG_INFLIGHT - 1"
  shows "kp_waitingThrds kp' = (if revs = [] then [] else tl revs) @ ws @ rest"
proof (cases revs)
  case Nil
  obtain w ws' where "ws = w # ws'" using assms(5) by (cases ws) auto
  then show ?thesis using assms Nil by (auto simp: msg_received_def link_consts Let_def)
next
  case (Cons r rs)
  then show ?thesis using assms by (auto simp: msg_received_def link_consts Let_def)
qed

lemma stuck_answered:
  assumes "stuck ws a" "ws \<noteq> []" "answered a = Inr a'" "kp_msgsInflight (sd_kpe a) \<ge> MAX_MSG_INFLIGHT - 1"
  shows "stuck ws a'"
proof -
  obtain revs rest where w: "kp_waitingThrds (sd_kpe a) = revs @ ws @ rest" "\<forall>w\<in>set revs. w_revocation w"
    "\<forall>w\<in>set ws. \<not> w_revocation w \<and> sd_what a (w_tid w) = Reply" using assms(1) by (auto simp: stuck_def)
  have a': "kp_waitingThrds (sd_kpe a') = (if revs = [] then [] else tl revs) @ ws @ rest" "sd_what a' = sd_what a"
    using assms(3) unfolding answered_def rbind_eq_Inr
    by (auto dest!: msg_received_full [OF _ w assms(2,4)])
  have "\<forall>w\<in>set (if revs = [] then [] else tl revs). w_revocation w" using w(2) by (cases revs) auto
  then show ?thesis using w(3) a' by (intro stuckI [OF a'(1)]) auto
qed

lemma stuck_perform:
  assumes inv: "link_inv (a, b)" and s: "stuck ws a" "stuck vs b" "length ws = 2" "length vs = 2"
    and p: "perform act a b = Some (Inr (a', b'))"
  shows "stuck ws a' \<and> stuck vs b'"
proof (cases act)
  case (Issue rv)
  then show ?thesis using stuck_spawn [OF s(1), of _ b a' b' vs] inv s(2) p by (auto simp: perform_def link_inv_def)
next
  case (Resume i)
  then have "run_thread True (sd_ready a ! i) (a\<lparr>sd_ready := take i (sd_ready a) @ drop (Suc i) (sd_ready a)\<rparr>) b = Inr (a', b')"
    using p by (auto simp: perform_def split: if_splits)
  from stuck_run_thread [OF _ this, of ws vs] s(1,2) show ?thesis by (simp add: stuck_def)
next
  case (Handle f)
  then obtain c cs where cs: "sd_inbox a = c # cs" using p by (cases "sd_inbox a") (auto simp: perform_def)
  let ?a = "a\<lparr>sd_inbox := cs\<rparr>"
  have a: "stuck ws ?a" "tids_ok ?a" "tids_ok b"
    using s(1) inv by (auto simp: stuck_def link_inv_def tids_ok_def tids_def)
  have full: "kp_msgsInflight (sd_kpe ?a) \<ge> MAX_MSG_INFLIGHT - 1" if "is_answer c"
    using inv that stuck_owed [OF s(2)] s(4) by (simp add: link_inv_def half_inv_def cs link_consts)
  note p = p [unfolded perform_def Handle, simplified, unfolded cs, simplified]
  have ne: "ws \<noteq> []" using s(3) by auto
  show ?thesis
  proof (cases "is_answer c")
    case True
    then obtain a1 where a1: "answered ?a = Inr a1" "c = Reply \<and> (a1, b) = (a', b') \<or> spawn Reply a1 b = Inr (a', b')"
      using p by (cases c) auto
    have st: "stuck ws a1" by (rule stuck_answered [OF a(1) ne a1(1) full [OF True]])
    have "tids_ok a1"
      using answered_inv [of ?a b "if is_request c then 1 else 0"] inv cs a1(1) True
      by (auto simp: link_inv_def half_inv_def tids_ok_def tids_def owed_def)
    then show ?thesis using a1(2) st s(2) stuck_spawn [OF st, of Reply b a' b' vs] by auto
  next
    case False
    then obtain d where "spawn d ?a b = Inr (a', b')" using p by (cases c) auto
    then show ?thesis using stuck_spawn [OF a(1,2), of d b a' b' vs] s(2) by simp
  qed
qed

lemma stuck_step:
  assumes "link_step (a, b) (a', b')" "link_inv (a, b)" "stuck ws a" "stuck vs b" "length ws = 2" "length vs = 2"
  shows "stuck ws a' \<and> stuck vs b'"
  using assms(1)
proof (cases rule: link_step.cases)
  case (left act)
  then show ?thesis using stuck_perform assms(2-) by blast
next
  case (right act)
  then show ?thesis using stuck_perform [of b a vs ws act b' a'] assms(2-) by (auto simp: link_inv_def)
qed

lemma stuck_reach:
  assumes "link_reach (a, b) s" "link_inv (a, b)" "stuck ws a" "stuck vs b" "length ws = 2" "length vs = 2"
  shows "stuck ws (fst s) \<and> stuck vs (snd s)"
  using assms(1)
proof (induction "(a, b)" s rule: link_reach.induct)
  case (step t u)
  then show ?case using stuck_step [of "fst t" "snd t" "fst u" "snd u" ws vs] link_reach_inv assms(2,5,6)
    by (metis prod.collapse)
qed (use assms in auto)

section \<open>Properties\<close>

text \<open>Both kernels send two requests and a revocation, handle the three messages of the other one, and fetch
  the one answer that got through.\<close>

definition dead_run :: "(bool \<times> action) list" where
  "dead_run =
     [(True, Issue False), (True, Issue False), (True, Issue True), (False, Issue False), (False, Issue False),
      (False, Issue True), (True, Handle False), (True, Handle False), (True, Handle False),
      (False, Handle False), (False, Handle False), (False, Handle False), (True, Handle False), (False, Handle False)]"

definition overrun_run :: "(bool \<times> action) list" where
  "overrun_run =
     [(True, Issue False), (True, Issue False), (False, Issue False), (False, Issue False), (False, Issue True),
      (True, Handle False), (True, Handle False), (True, Handle False)]"

lemmas run_simps = perform_def spawn_def run_thread_def attempt_def answered_def msg_received_def link_defs
  new_side_def new_KPE_def

lemma dead_run_result:
  "\<exists>a b. link_run dead_run (new_side, new_side) = Some (a, b) \<and>
     kp_waitingThrds (sd_kpe a) = [\<lparr>w_tid = 4, w_revocation = False\<rparr>, \<lparr>w_tid = 5, w_revocation = False\<rparr>] \<and>
     kp_waitingThrds (sd_kpe b) = [\<lparr>w_tid = 4, w_revocation = False\<rparr>, \<lparr>w_tid = 5, w_revocation = False\<rparr>] \<and>
     sd_what a 4 = Reply \<and> sd_what a 5 = Reply \<and> sd_what b 4 = Reply \<and> sd_what b 5 = Reply"
  by (simp add: dead_run_def run_simps)

lemma overrun_run_result:
  "\<exists>a b. link_run overrun_run (new_side, new_side) = Some (a, b) \<and> sd_inbox b = [Normal, Normal, Reply, Reply, Reply]"
  by (simp add: overrun_run_def run_simps)

text \<open>C8. Flow control between two kernels: in every reachable state a kernel has at most three unanswered
  requests at the other one, the counter is exactly the number of requests that are still to be
  fetched, to be answered or whose answer is still to be fetched, and whatever message is handled or thread is
  resumed next, no assertion of the flow control fails. The last of the three is kept for revocations: after a
  step that sends a normal request, at most two requests are under way.\<close>

theorem link_bounded:
  assumes "link_reach (new_side, new_side) (a, b)"
  shows "0 \<le> kp_msgsInflight (sd_kpe a) \<and> kp_msgsInflight (sd_kpe a) < MAX_MSG_INFLIGHT \<and>
    kp_msgsInflight (sd_kpe a) =
      int (length (filter is_request (sd_inbox b)) + owed b + length (filter is_answer (sd_inbox a))) \<and>
    (\<forall>act r. perform act a b = Some r \<longrightarrow> (\<exists>s. r = Inr s)) \<and>
    (\<forall>act a' b'. perform act a b = Some (Inr (a', b')) \<and> sd_inbox b' = sd_inbox b @ [Normal] \<longrightarrow>
       kp_msgsInflight (sd_kpe a') \<le> MAX_MSG_INFLIGHT - 2)"
proof -
  have inv: "link_inv (a, b)" using link_reach_inv [OF assms link_inv_new] .
  then have h: "half_inv 0 a b" by (simp add: link_inv_def)
  have "0 \<le> kp_msgsInflight (sd_kpe a) \<and> kp_msgsInflight (sd_kpe a) < MAX_MSG_INFLIGHT \<and>
    kp_msgsInflight (sd_kpe a) =
      int (length (filter is_request (sd_inbox b)) + owed b + length (filter is_answer (sd_inbox a)))"
    using h unfolding half_inv_def link_consts by simp
  then show ?thesis using perform_inv [OF inv] perform_normal by blast
qed

theorem link_bounded_witness:
  "\<exists>a b. link_run overrun_run (new_side, new_side) = Some (a, b) \<and> kp_msgsInflight (sd_kpe a) < MAX_MSG_INFLIGHT"
proof -
  obtain a b where r: "link_run overrun_run (new_side, new_side) = Some (a, b)" using overrun_run_result by blast
  show ?thesis using r link_bounded [OF link_run_reach [OF r]] by blast
qed




end
