(* ===== verification/Platform_PEs.thy ===== *)
theory Platform_PEs
  imports DDL_Keys
begin

unbundle bit_operations_syntax

text \<open>
  Processing elements: the descriptor word \<^verbatim>\<open>m3::PEDesc\<close> (\<^verbatim>\<open>src/src/include/base/PEDesc.h\<close>) and the table of PEs
  in the kernel environment with the operations of \<^verbatim>\<open>kernel::Platform\<close> (\<^verbatim>\<open>src/src/apps/kernel/Platform.h\<close>,
  \<^verbatim>\<open>arch/gem5/Platform.cc\<close>). The array has \<^verbatim>\<open>MAX_PES\<close> entries; the entries behind \<^verbatim>\<open>pe_count\<close> are zero unless
  something was stored there.
\<close>

section \<open>Descriptors\<close>

type_synonym pe_desc = u64

definition PE_COMP_IMEM :: u64 where "PE_COMP_IMEM = 0"
definition PE_COMP_EMEM :: u64 where "PE_COMP_EMEM = 1"
definition PE_MEM :: u64 where "PE_MEM = 2"

lemmas pe_type_defs = PE_COMP_IMEM_def PE_COMP_EMEM_def PE_MEM_def

definition new_PEDesc :: "u64 \<Rightarrow> u64 \<Rightarrow> pe_desc" where
  "new_PEDesc typ memsize = typ OR memsize"

definition pe_type :: "pe_desc \<Rightarrow> u64" where
  "pe_type d = d AND 0x0000000000000007"

definition pe_mem_size :: "pe_desc \<Rightarrow> u64" where
  "pe_mem_size d = d AND NOT 0xFFC0000000000007"

definition pe_has_memory :: "pe_desc \<Rightarrow> bool" where
  "pe_has_memory d \<longleftrightarrow> pe_type d \<noteq> PE_COMP_EMEM"

definition pe_has_cache :: "pe_desc \<Rightarrow> bool" where
  "pe_has_cache d \<longleftrightarrow> pe_type d = PE_COMP_EMEM"

definition pe_has_virtmem :: "pe_desc \<Rightarrow> bool" where
  "pe_has_virtmem d \<longleftrightarrow> pe_type d = PE_COMP_EMEM"

definition core_id :: "pe_desc \<Rightarrow> nat" where
  "core_id d = unat (drop_bit 54 (d AND 0xFFC0000000000000))"

section \<open>The table of PEs\<close>

text \<open>\<open>ke_first_pe\<close> is the static \<^verbatim>\<open>_first_pe_id\<close>, \<open>ke_kernel_pe\<close> the core the kernel runs on.\<close>

record kenv =
  ke_pe_count :: nat
  ke_pes :: "pe_desc list"
  ke_kernelId :: krnl_id_t
  ke_creatorKernelId :: krnl_id_t
  ke_creatorCore :: pe_id_t
  ke_creatorThread :: int
  ke_creatorEp :: int
  ke_first_pe :: nat
  ke_kernel_pe :: nat

definition kenv_ok :: "kenv \<Rightarrow> bool" where
  "kenv_ok ke \<longleftrightarrow> length (ke_pes ke) = MAX_PES \<and> ke_pe_count ke \<le> MAX_PES"

definition pe_by_index :: "kenv \<Rightarrow> nat \<Rightarrow> pe_desc result" where
  "pe_by_index ke idx = (if idx < length (ke_pes ke) then Inr (ke_pes ke ! idx) else Inl Out_of_bounds)"

definition pe_by_core :: "kenv \<Rightarrow> nat \<Rightarrow> pe_desc result" where
  "pe_by_core ke no = (case List.find (\<lambda>d. core_id d = no) (ke_pes ke) of Some d \<Rightarrow> Inr d | None \<Rightarrow> Inl Unreachable)"

fun index_of :: "('a \<Rightarrow> bool) \<Rightarrow> nat \<Rightarrow> 'a list \<Rightarrow> nat option" where
  "index_of P i [] = None"
| "index_of P i (x # xs) = (if P x then Some i else index_of P (Suc i) xs)"

definition release_pe :: "nat \<Rightarrow> kenv \<Rightarrow> kenv result" where
  "release_pe no ke =
     (case index_of (\<lambda>d. core_id d = no) 0 (ke_pes ke) of
        None \<Rightarrow> Inl Unreachable
      | Some i \<Rightarrow>
          if ke_pe_count ke = 0 then Inl Out_of_bounds
          else rbind (pe_by_index ke (ke_pe_count ke - 1)) (\<lambda>d.
            Inr (ke\<lparr>ke_pes := (ke_pes ke)[i := d], ke_pe_count := ke_pe_count ke - 1\<rparr>)))"

definition add_pe :: "pe_desc \<Rightarrow> kenv \<Rightarrow> kenv result" where
  "add_pe pe ke =
     (let ke = ke\<lparr>ke_pe_count := ke_pe_count ke + 1\<rparr> in
      if ke_pe_count ke < length (ke_pes ke) then Inr (ke\<lparr>ke_pes := (ke_pes ke)[ke_pe_count ke := pe]\<rparr>)
      else Inl Out_of_bounds)"

text \<open>The search of the constructor for the first PE that programs can run on.\<close>

definition find_first_pe :: "nat \<Rightarrow> nat \<Rightarrow> pe_desc list \<Rightarrow> nat" where
  "find_first_pe kernel_pe pe_count pes =
     (case List.find (\<lambda>i. core_id (pes ! i) \<noteq> kernel_pe \<and> pe_type (pes ! i) \<noteq> PE_MEM) [0..<pe_count] of
        Some i \<Rightarrow> i | None \<Rightarrow> 0)"

text \<open>The second constructor, which builds the environment of a new kernel: the entries behind \<open>pes\<close> are zeroed.
  \<open>pes\<close> has \<open>pe_count\<close> entries.\<close>

definition new_KEnv ::
  "pe_desc list \<Rightarrow> krnl_id_t \<Rightarrow> krnl_id_t \<Rightarrow> pe_id_t \<Rightarrow> int \<Rightarrow> int \<Rightarrow> nat \<Rightarrow> kenv" where
  "new_KEnv pes kernelId creatorKernelId creatorCore creatorThread creatorEp kernel_pe =
     \<lparr>ke_pe_count = length pes, ke_pes = pes @ replicate (MAX_PES - length pes) 0, ke_kernelId = kernelId,
      ke_creatorKernelId = creatorKernelId, ke_creatorCore = creatorCore, ke_creatorThread = creatorThread,
      ke_creatorEp = creatorEp, ke_first_pe = find_first_pe kernel_pe (length pes) pes, ke_kernel_pe = kernel_pe\<rparr>"

section \<open>Receive buffer space\<close>

definition RECVBUF_SPACE :: u64 where "RECVBUF_SPACE = 0x5B0000000"
definition RECVBUF_SIZE_SPM :: u64 where "RECVBUF_SIZE_SPM = 131072"
definition SECONDARY_RECVBUF_SIZE_SPM :: u64 where "SECONDARY_RECVBUF_SIZE_SPM = 1048576"
definition MEMCAP_END :: u64 where "MEMCAP_END = RECVBUF_SPACE"

definition rw_barrier :: "kenv \<Rightarrow> nat \<Rightarrow> u64 result" where
  "rw_barrier ke no =
     rbind (pe_by_core ke no) (\<lambda>d.
       Inr (if pe_has_virtmem d then RECVBUF_SPACE else pe_mem_size d - RECVBUF_SIZE_SPM))"

definition def_recvbuf :: "kenv \<Rightarrow> nat \<Rightarrow> u64 result" where
  "def_recvbuf ke no = rw_barrier ke no"

section \<open>Lemmas\<close>

lemma core_id_less: "core_id d < MAX_PES"
proof -
  have "unat (drop_bit 54 w) < 1024" for w :: u64
  proof -
    have "unat w < 1024 * 2 ^ 54" using unat_bound [of w] by simp
    then show ?thesis unfolding unat_drop_bit_eq unfolding drop_bit_eq_div by (rule less_mult_imp_div_less)
  qed
  then show ?thesis unfolding core_id_def MAX_PES_def .
qed

lemma index_of_Some:
  "index_of P i xs = Some j \<Longrightarrow> i \<le> j \<and> j < i + length xs \<and> P (xs ! (j - i))"
proof (induction xs arbitrary: i)
  case (Cons x xs)
  show ?case
  proof (cases "P x")
    case False
    then have j: "index_of P (Suc i) xs = Some j" using Cons.prems by simp
    from Cons.IH [OF this] show ?thesis by (auto simp: nth_Cons split: nat.splits) (metis Suc_diff_Suc Suc_le_eq diff_Suc_Suc nat.inject)
  qed (use Cons.prems in auto)
qed simp

lemma pe_by_core_core: "pe_by_core ke no = Inr d \<Longrightarrow> core_id d = no"
  by (auto simp: pe_by_core_def find_Some_iff split: option.splits)

end
