(* ===== verification/Kernel_DTU.thy ===== *)
theory Kernel_DTU
  imports Main_Memory DDL_Keys
begin

unbundle bit_operations_syntax

text \<open>
  What the kernel writes into data transfer units: the addresses of the network on chip
  (\<^verbatim>\<open>src/src/include/base/arch/gem5/DTU.h\<close>), the registers of endpoints, and page tables
  (\<^verbatim>\<open>src/src/apps/kernel/arch/gem5/DTU.cc\<close>). The DTU itself is hardware: it is a parameter where its
  address translation matters.
\<close>

section \<open>Addresses\<close>

definition CORE_BITS :: nat where "CORE_BITS = 10"
definition CORE_SHIFT :: nat where "CORE_SHIFT = 49"
definition EP_BITS :: nat where "EP_BITS = 8"
definition MAX_MSG_SZ_BITS :: nat where "MAX_MSG_SZ_BITS = 16"
definition CREDITS_BITS :: nat where "CREDITS_BITS = 16"
definition FLAGS_BITS :: nat where "FLAGS_BITS = 4"
definition CORE_VALID_OFFSET :: u64 where "CORE_VALID_OFFSET = push_bit (CORE_BITS + 1) 1"
definition CREDITS_UNLIM :: u64 where "CREDITS_UNLIM = push_bit CREDITS_BITS 1 - 1"

lemmas dtu_bits = CORE_BITS_def CORE_SHIFT_def EP_BITS_def MAX_MSG_SZ_BITS_def CREDITS_BITS_def FLAGS_BITS_def VPE_BITS_def

definition noc_to_pe :: "u64 \<Rightarrow> u64" where
  "noc_to_pe noc = drop_bit CORE_SHIFT noc - CORE_VALID_OFFSET"

definition noc_to_virt :: "u64 \<Rightarrow> u64" where
  "noc_to_virt noc = noc AND (push_bit CORE_SHIFT 1 - 1)"

definition build_noc_addr :: "int \<Rightarrow> u64 \<Rightarrow> u64" where
  "build_noc_addr pe virt = push_bit CORE_SHIFT (CORE_VALID_OFFSET + word_of_int pe) OR virt"

definition DTU_BASE_ADDR :: u64 where "DTU_BASE_ADDR = 0x5C0000000"
definition DTU_REGS :: nat where "DTU_REGS = 8"
definition CMD_REGS :: nat where "CMD_REGS = 6"
definition EP_REGS :: nat where "EP_REGS = 3"

definition dtu_reg_addr :: "nat \<Rightarrow> u64" where
  "dtu_reg_addr reg = DTU_BASE_ADDR + word_of_nat reg * 8"

definition ep_regs_addr :: "int \<Rightarrow> u64" where
  "ep_regs_addr ep = DTU_BASE_ADDR + (word_of_nat (DTU_REGS + CMD_REGS) + word_of_int (ep * int EP_REGS)) * 8"

section \<open>Endpoint registers\<close>

definition EP_SEND :: u64 where "EP_SEND = 1"
definition EP_RECEIVE :: u64 where "EP_RECEIVE = 2"
definition EP_MEMORY :: u64 where "EP_MEMORY = 3"

record ep_regs =
  ep_r0 :: u64
  ep_r1 :: u64
  ep_r2 :: u64

definition config_recv :: "u64 \<Rightarrow> u32 \<Rightarrow> u32 \<Rightarrow> ep_regs" where
  "config_recv buf order msgorder =
     (let bufSize = push_bit (unat (order - msgorder) mod 64) 1; msgSize = push_bit (unat msgorder mod 64) 1
      in \<lparr>ep_r0 = push_bit 61 EP_RECEIVE OR push_bit 32 (msgSize AND 0xFFFF) OR push_bit 16 (bufSize AND 0xFFFF) OR 0,
          ep_r1 = buf, ep_r2 = 0\<rparr>)"

definition config_send :: "u64 \<Rightarrow> int \<Rightarrow> int \<Rightarrow> int \<Rightarrow> u64 \<Rightarrow> ep_regs" where
  "config_send label dstcore dstvpe dstep msgsize =
     \<lparr>ep_r0 = push_bit 61 EP_SEND OR
        push_bit MAX_MSG_SZ_BITS (word_of_int dstvpe AND (push_bit VPE_BITS 1 - 1)) OR
        (msgsize AND (push_bit MAX_MSG_SZ_BITS 1 - 1)),
      ep_r1 = push_bit (CREDITS_BITS + EP_BITS) (word_of_int dstcore AND (push_bit CORE_BITS 1 - 1)) OR
        push_bit CREDITS_BITS (word_of_int dstep AND (push_bit EP_BITS 1 - 1)) OR
        CREDITS_UNLIM,
      ep_r2 = label\<rparr>"

definition config_mem :: "int \<Rightarrow> int \<Rightarrow> u64 \<Rightarrow> u64 \<Rightarrow> int \<Rightarrow> ep_regs" where
  "config_mem dstcore dstvpe addr sz perm =
     \<lparr>ep_r0 = push_bit 61 EP_MEMORY OR (sz AND 0x1FFFFFFFFFFFFFFF),
      ep_r1 = addr,
      ep_r2 = push_bit (CORE_BITS + FLAGS_BITS) (word_of_int dstvpe AND (push_bit VPE_BITS 1 - 1)) OR
        push_bit FLAGS_BITS (word_of_int dstcore AND (push_bit CORE_BITS 1 - 1)) OR
        (word_of_int perm AND (push_bit FLAGS_BITS 1 - 1))\<rparr>"

definition invalid_ep :: ep_regs where
  "invalid_ep = \<lparr>ep_r0 = 0, ep_r1 = 0, ep_r2 = 0\<rparr>"

definition config_recv_remote :: "u64 \<Rightarrow> u32 \<Rightarrow> u32 \<Rightarrow> bool \<Rightarrow> ep_regs" where
  "config_recv_remote buf order msgorder valid = (if valid then config_recv buf order msgorder else invalid_ep)"

text \<open>The fields as the hardware reads them.\<close>

definition ep_type :: "ep_regs \<Rightarrow> u64" where "ep_type e = drop_bit 61 (ep_r0 e)"
definition ep_recv_msgsize :: "ep_regs \<Rightarrow> u64" where "ep_recv_msgsize e = take_bit 16 (drop_bit 32 (ep_r0 e))"
definition ep_recv_slots :: "ep_regs \<Rightarrow> u64" where "ep_recv_slots e = take_bit 16 (drop_bit 16 (ep_r0 e))"
definition ep_send_vpe :: "ep_regs \<Rightarrow> u64" where "ep_send_vpe e = take_bit 11 (drop_bit 16 (ep_r0 e))"
definition ep_send_msgsize :: "ep_regs \<Rightarrow> u64" where "ep_send_msgsize e = take_bit 16 (ep_r0 e)"
definition ep_send_core :: "ep_regs \<Rightarrow> u64" where "ep_send_core e = take_bit 10 (drop_bit 24 (ep_r1 e))"
definition ep_send_ep :: "ep_regs \<Rightarrow> u64" where "ep_send_ep e = take_bit 8 (drop_bit 16 (ep_r1 e))"
definition ep_mem_size :: "ep_regs \<Rightarrow> u64" where "ep_mem_size e = take_bit 61 (ep_r0 e)"
definition ep_mem_vpe :: "ep_regs \<Rightarrow> u64" where "ep_mem_vpe e = take_bit 11 (drop_bit 14 (ep_r2 e))"
definition ep_mem_core :: "ep_regs \<Rightarrow> u64" where "ep_mem_core e = take_bit 10 (drop_bit 4 (ep_r2 e))"
definition ep_mem_perm :: "ep_regs \<Rightarrow> u64" where "ep_mem_perm e = take_bit 4 (ep_r2 e)"

lemmas ep_field_defs = ep_type_def ep_recv_msgsize_def ep_recv_slots_def ep_send_vpe_def ep_send_msgsize_def
  ep_send_core_def ep_send_ep_def ep_mem_size_def ep_mem_vpe_def ep_mem_core_def ep_mem_perm_def

section \<open>Page tables\<close>

definition PTE_BITS :: nat where "PTE_BITS = 3"
definition LEVEL_CNT :: nat where "LEVEL_CNT = 2"
definition LEVEL_BITS :: nat where "LEVEL_BITS = 9"
definition PTE_REC_IDX :: u64 where "PTE_REC_IDX = 511"
definition PG_BITS :: nat where "PG_BITS = 12"
definition PTE_RWX :: u64 where "PTE_RWX = 7"
definition PTE_I :: u64 where "PTE_I = 8"

lemmas pte_consts = PTE_BITS_def LEVEL_CNT_def LEVEL_BITS_def PTE_REC_IDX_def PG_BITS_def

definition get_pte_addr :: "u64 \<Rightarrow> nat \<Rightarrow> u64" where
  "get_pte_addr virt level =
     (let recMask = push_bit (PG_BITS + LEVEL_BITS * 2) PTE_REC_IDX OR
            push_bit (PG_BITS + LEVEL_BITS * 1) PTE_REC_IDX OR push_bit (PG_BITS + LEVEL_BITS * 0) PTE_REC_IDX;
          virt = drop_bit (PG_BITS + level * LEVEL_BITS) virt;
          virt = push_bit PTE_BITS virt;
          shift = level + 1;
          remMask = push_bit (PG_BITS + LEVEL_BITS * (LEVEL_CNT - shift)) 1 - 1;
          virt = virt OR (recMask AND NOT remMask)
      in virt AND (push_bit (LEVEL_CNT * LEVEL_BITS + PG_BITS) 1 - 1))"

text \<open>
  \<open>pt\<close> is what the memory endpoint returns for the address of an entry, \<open>wr\<close> what a write through
  it makes of that; both are the translation of the DTU. The result says whether the page has to be
  invalidated in the TLB.
\<close>

type_synonym pt_view = "u64 \<Rightarrow> u64"

definition map_level0 :: "(u64 \<Rightarrow> u64 \<Rightarrow> pt_view \<Rightarrow> pt_view) \<Rightarrow> u64 \<Rightarrow> u64 \<Rightarrow> u64 \<Rightarrow> pt_view \<Rightarrow> bool \<times> pt_view" where
  "map_level0 wr virt phys perm pt =
     (let pteAddr = get_pte_addr virt 0; pte = pt pteAddr; npte = phys OR perm OR PTE_I
      in if npte = pte then (False, pt)
         else ((pte AND PTE_RWX) AND NOT (npte AND PTE_RWX) \<noteq> 0, wr pteAddr npte pt))"

definition map_page ::
  "(u64 \<Rightarrow> u64 \<Rightarrow> pt_view \<Rightarrow> pt_view) \<Rightarrow> u64 \<Rightarrow> u64 \<Rightarrow> u64 \<Rightarrow> pt_view \<Rightarrow> main_memory \<Rightarrow> (bool \<times> pt_view \<times> main_memory) result" where
  "map_page wr virt phys perm pt mem =
     (let pteAddr = get_pte_addr virt 1; pte = pt pteAddr in
      if pte = 0 \<and> perm = 0 then Inr (False, pt, mem)
      else rbind (if pte = 0
                  then (let (alloc, mem) = main_allocate 4096 mem in
                    if \<not> alloc_valid alloc then Inl Assert_failed
                    else rbind (alloc_pe mem alloc) (\<lambda>pe.
                      let pte = build_noc_addr (uint pe) (al_addr alloc) OR PTE_RWX in Inr (pte, wr pteAddr pte pt, mem)))
                  else Inr (pte, pt, mem))
             (\<lambda>(pte, pt, mem).
                if pte AND (PTE_RWX OR PTE_I) \<noteq> PTE_RWX then Inl Assert_failed
                else (let (inval, pt) = map_level0 wr virt phys perm pt in Inr (inval, pt, mem))))"

definition unmap_page :: "(u64 \<Rightarrow> u64 \<Rightarrow> pt_view \<Rightarrow> pt_view) \<Rightarrow> u64 \<Rightarrow> pt_view \<Rightarrow> main_memory \<Rightarrow> (bool \<times> pt_view \<times> main_memory) result" where
  "unmap_page wr virt pt mem = map_page wr virt 0 0 pt mem"

section \<open>Lemmas on packed words\<close>

lemma masks:
  "(push_bit 4 1 - 1 :: u64) = mask 4" "(push_bit 8 1 - 1 :: u64) = mask 8" "(push_bit 10 1 - 1 :: u64) = mask 10"
  "(push_bit 11 1 - 1 :: u64) = mask 11" "(push_bit 16 1 - 1 :: u64) = mask 16" "(push_bit 49 1 - 1 :: u64) = mask 49"
  "(0xFFFF :: u64) = mask 16" "(0x1FFFFFFFFFFFFFFF :: u64) = mask 61" "(511 :: u64) = mask 9"
  "(push_bit 21 1 - 1 :: u64) = mask 21" "(push_bit 12 1 - 1 :: u64) = mask 12" "(push_bit 30 1 - 1 :: u64) = mask 30"
  by (simp_all add: mask_eq_exp_minus_1 push_bit_eq_mult)

lemma type_bits: "(2 :: u64) = push_bit 1 1" "(3 :: u64) = mask 2"
  by (simp_all add: mask_eq_exp_minus_1 push_bit_eq_mult)

lemma config_send_fields:
  "ep_type (config_send label dstcore dstvpe dstep msgsize) = EP_SEND"
  "ep_send_vpe (config_send label dstcore dstvpe dstep msgsize) = take_bit 11 (word_of_int dstvpe)"
  "ep_send_msgsize (config_send label dstcore dstvpe dstep msgsize) = take_bit 16 msgsize"
  "ep_send_core (config_send label dstcore dstvpe dstep msgsize) = take_bit 10 (word_of_int dstcore)"
  "ep_send_ep (config_send label dstcore dstvpe dstep msgsize) = take_bit 8 (word_of_int dstep)"
  unfolding config_send_def ep_field_defs dtu_bits CREDITS_UNLIM_def ep_regs.simps EP_SEND_def masks
  by (rule bit_word_eqI; auto simp: bit_simps)+

lemma config_mem_fields:
  "ep_type (config_mem dstcore dstvpe addr sz perm) = EP_MEMORY"
  "ep_mem_size (config_mem dstcore dstvpe addr sz perm) = take_bit 61 sz"
  "ep_mem_vpe (config_mem dstcore dstvpe addr sz perm) = take_bit 11 (word_of_int dstvpe)"
  "ep_mem_core (config_mem dstcore dstvpe addr sz perm) = take_bit 10 (word_of_int dstcore)"
  "ep_mem_perm (config_mem dstcore dstvpe addr sz perm) = take_bit 4 (word_of_int perm)"
  unfolding config_mem_def ep_field_defs dtu_bits ep_regs.simps EP_MEMORY_def masks type_bits
  by (rule bit_word_eqI; auto simp: bit_simps)+

lemma config_recv_fields:
  "ep_type (config_recv buf order msgorder) = EP_RECEIVE"
  "ep_recv_msgsize (config_recv buf order msgorder) = take_bit 16 (push_bit (unat msgorder mod 64) 1)"
  "ep_recv_slots (config_recv buf order msgorder) = take_bit 16 (push_bit (unat (order - msgorder) mod 64) 1)"
  unfolding config_recv_def ep_field_defs Let_def ep_regs.simps EP_RECEIVE_def masks type_bits
  by (rule bit_word_eqI; auto simp: bit_simps)+

lemma noc_fields:
  assumes "take_bit 49 virt = virt" "0 \<le> pe" "pe < 1024"
  shows "noc_to_virt (build_noc_addr pe virt) = virt" "noc_to_pe (build_noc_addr pe virt) = word_of_int pe"
proof -
  have "(push_bit 49 x OR take_bit 49 virt) AND mask 49 = take_bit 49 virt" for x
    by (rule bit_word_eqI) (auto simp: bit_simps)
  then show "noc_to_virt (build_noc_addr pe virt) = virt"
    unfolding noc_to_virt_def build_noc_addr_def dtu_bits masks using assms(1) by metis
  let ?x = "CORE_VALID_OFFSET + word_of_int pe :: u64"
  have "uint (word_of_int pe :: u64) = pe" using assms(2,3) by (simp add: unsigned_of_int take_bit_int_eq_self)
  then have "uint ?x < 2 ^ 15" using assms(2,3) by (simp add: CORE_VALID_OFFSET_def dtu_bits uint_word_ariths)
  then have "take_bit 15 ?x = ?x"
    by (metis take_bit_int_eq_self_iff unsigned_take_bit_eq uint_ge_0 word_uint_eq_iff)
  moreover have "drop_bit 49 (push_bit 49 x OR take_bit 49 virt) = x" if "take_bit 15 x = x" for x
    by (subst (1 2) that [symmetric]) (rule bit_word_eqI; auto simp: bit_simps)
  ultimately show "noc_to_pe (build_noc_addr pe virt) = word_of_int pe"
    unfolding noc_to_pe_def build_noc_addr_def dtu_bits using assms(1) by (metis add_diff_cancel_left')
qed

section \<open>Lemmas on page tables\<close>

lemma pte_addr_level0: "get_pte_addr virt 0 = push_bit 21 511 OR push_bit 3 (take_bit 18 (drop_bit 12 virt))"
  unfolding get_pte_addr_def pte_consts Let_def masks
  by (simp del: push_bit_of_1 add: masks) (rule bit_word_eqI; auto simp: bit_simps)

lemma pte_addr_level1:
  "get_pte_addr virt 1 = push_bit 21 511 OR push_bit 12 511 OR push_bit 3 (take_bit 9 (drop_bit 21 virt))"
  unfolding get_pte_addr_def pte_consts Let_def masks
  by (simp del: push_bit_of_1 add: masks) (rule bit_word_eqI; auto simp: bit_simps)

text \<open>Entries of different pages have different addresses, and the entries of the two levels do not mix as long
  as the recursive entry itself is left alone.\<close>

definition page_no :: "u64 \<Rightarrow> u64" where "page_no virt = take_bit 18 (drop_bit 12 virt)"

lemma pte_addr_inj: "get_pte_addr v 0 = get_pte_addr w 0 \<longleftrightarrow> page_no v = page_no w"
proof -
  have "take_bit 18 (drop_bit 3 (get_pte_addr x 0)) = page_no x" for x
    unfolding pte_addr_level0 page_no_def masks by (rule bit_word_eqI) (auto simp: bit_simps)
  then show ?thesis by (metis pte_addr_level0 page_no_def)
qed

lemma pte_addr_levels:
  assumes "take_bit 9 (drop_bit 21 w) \<noteq> 511"
  shows "get_pte_addr v 1 \<noteq> get_pte_addr w 0"
proof
  assume eq: "get_pte_addr v 1 = get_pte_addr w 0"
  have "take_bit 9 (drop_bit 12 (get_pte_addr v 1)) = 511"
    unfolding pte_addr_level1 masks by (rule bit_word_eqI) (auto simp: bit_simps)
  moreover have "take_bit 9 (drop_bit 12 (get_pte_addr w 0)) = take_bit 9 (drop_bit 21 w)"
    unfolding pte_addr_level0 masks by (rule bit_word_eqI) (auto simp: bit_simps)
  ultimately show False using eq assms by simp
qed

section \<open>Properties\<close>



definition demo_mem :: main_memory where
  "demo_mem = [new_module True 0 4096 4096]"

lemma demo_map_page:
  "map_page (\<lambda>a x pt. pt(a := x)) 0x5000 0x7000 3 (\<lambda>_. 7) demo_mem = Inr (True, (\<lambda>_. 7)(get_pte_addr 0x5000 0 := 0x700B), demo_mem)"
  by (simp add: map_page_def map_level0_def PTE_I_def PTE_RWX_def Let_def)


text \<open>C26. The shifts and masks with which the kernel computes the address of a page table entry are an array access: behind the
  recursive entry of both levels lies an array of all entries for pages, with 8 bytes per page, and in it the array of the
  entries for page tables.\<close>

theorem get_pte_addr_reference:
  "get_pte_addr virt 0 = 511 * 2 ^ 21 + 8 * page_no virt \<and>
   get_pte_addr virt 1 = 511 * 2 ^ 21 + 511 * 2 ^ 12 + 8 * take_bit 9 (drop_bit 21 virt)"
proof -
  have d0: "push_bit 21 (mask 9) AND push_bit 3 (take_bit 18 w) = (0 :: u64)" for w
    by (rule bit_word_eqI) (auto simp: bit_simps)
  have d1: "push_bit 21 (mask 9) AND push_bit 12 (mask 9) = (0 :: u64)"
    by (rule bit_word_eqI) (auto simp: bit_simps)
  have d2: "(push_bit 21 (mask 9) OR push_bit 12 (mask 9)) AND push_bit 3 (take_bit 9 w) = (0 :: u64)" for w
    by (rule bit_word_eqI) (auto simp: bit_simps)
  have m: "(mask 9 :: u64) = 511" by (simp add: mask_eq_exp_minus_1)
  have p: "push_bit n x = x * 2 ^ n" for n and x :: u64 by (rule push_bit_eq_mult)
  note or_add = disjunctive_add_eq_or [symmetric]
  have "get_pte_addr virt 0 = push_bit 21 (mask 9) + push_bit 3 (page_no virt)"
    unfolding pte_addr_level0 page_no_def m [symmetric] by (rule or_add [OF d0])
  moreover have "get_pte_addr virt 1 = push_bit 21 (mask 9) + push_bit 12 (mask 9) + push_bit 3 (take_bit 9 (drop_bit 21 virt))"
    unfolding pte_addr_level1 m [symmetric] or.assoc [symmetric] by (subst or_add [OF d2], subst or_add [OF d1], rule refl)
  ultimately show ?thesis unfolding m p by (simp add: mult.commute)
qed

end
