(* ===== verification/Kernel_State.thy ===== *)
theory Kernel_State
  imports Capability Base_Treap Send_Queue Recv_Bufs Kernel_Link Platform_PEs
begin

unbundle bit_operations_syntax

text \<open>
  The state of one kernel: what the singletons \<^verbatim>\<open>PEManager\<close>, \<^verbatim>\<open>ServiceList\<close>,
  \<^verbatim>\<open>RemoteServiceList\<close>, \<^verbatim>\<open>RevocationList\<close>, \<^verbatim>\<open>RecvBufs\<close>, \<^verbatim>\<open>MainMemory\<close>, \<^verbatim>\<open>MHTInstance\<close> and
  \<^verbatim>\<open>Coordinator\<close> (\<^verbatim>\<open>src/src/apps/kernel\<close>) hold, together with the stores of the reference-counted
  objects. Everything that leaves the kernel (DTU configurations, messages to services,
  replies to VPEs, calls to other kernels, wake-ups of threads) is appended to a log in the order
  in which the code issues it. Closures that the code passes to \<^verbatim>\<open>subscribe\<close> are values of a
  datatype that holds what the lambda captures. The flow control between kernels is a component of
  its own: a call to another kernel and the receipt of its answer (\<^verbatim>\<open>msg_received\<close>) are logged.
\<close>

section \<open>VPEs and capability tables\<close>

datatype vpe_state = RUNNING | DEAD

record cap_table =
  ct_id :: nat
  ct_type :: crd_type
  ct_caps :: "(capsel_t, capability) treap"
  ct_reserved :: "capsel_t list"

record addr_space =
  as_ep :: int
  as_gate :: capsel_t
  as_rootpt :: allocation

record reply_info =
  replylbl :: u64
  replyep :: int
  crdep :: int
  replycrd :: u64

definition VPE_BOOTMOD :: u32 where "VPE_BOOTMOD = 1"
definition VPE_DAEMON :: u32 where "VPE_DAEMON = 2"
definition VPE_MEMINIT :: u32 where "VPE_MEMINIT = 4"

text \<open>\<open>v_lookup\<close> is the stream of \<^verbatim>\<open>_srvLookupResult\<close>: sending kernel, error code and arguments.
  An exit subscriber is the lambda of \<^verbatim>\<open>vpectrl\<close>: the waiting VPE and where to reply.\<close>

record vpe =
  v_id :: nat
  v_core :: nat
  v_flags :: u32
  v_refs :: int
  v_state :: vpe_state
  v_exitcode :: int
  v_sessAwaitingResp :: int
  v_syscEP :: int
  v_lookup :: "(krnl_id_t \<times> code \<times> stream) option"
  v_name :: string
  v_objcaps :: cap_table
  v_mapcaps :: cap_table
  v_as :: "addr_space option"
  v_requires :: "string list"
  v_exitsubscr :: "(nat \<times> reply_info) list"

definition ct_new :: "nat \<Rightarrow> crd_type \<Rightarrow> cap_table" where
  "ct_new i t = \<lparr>ct_id = i, ct_type = t, ct_caps = treap_new, ct_reserved = []\<rparr>"

definition v_table :: "crd_type \<Rightarrow> vpe \<Rightarrow> cap_table" where
  "v_table t v = (case t of OBJ \<Rightarrow> v_objcaps v | MAP \<Rightarrow> v_mapcaps v)"

definition v_set_table :: "crd_type \<Rightarrow> cap_table \<Rightarrow> vpe \<Rightarrow> vpe" where
  "v_set_table t ct v = (case t of OBJ \<Rightarrow> v\<lparr>v_objcaps := ct\<rparr> | MAP \<Rightarrow> v\<lparr>v_mapcaps := ct\<rparr>)"

section \<open>Services\<close>

datatype srv_cmd =
    SRV_OPEN stream
  | SRV_OBTAIN u64 u32 stream
  | SRV_DELEGATE u64 u32 stream
  | SRV_CLOSE u64
  | SRV_SHUTDOWN

text \<open>What a service request does when its reply arrives. A capability that a lambda captured as a
  pointer is given by the selector it had and its address.\<close>

datatype srv_closure =
    CB_createsess nat capsel_t "capsel_t \<times> nat" reply_info
      \<comment> \<open>\<^verbatim>\<open>vpe\<close>, \<^verbatim>\<open>cap\<close>, \<^verbatim>\<open>tvpeobj\<close> (a capability of \<^verbatim>\<open>vpe\<close>), \<^verbatim>\<open>rinfo\<close>\<close>
  | CB_exchange nat cap_rng "capsel_t \<times> nat" bool reply_info
      \<comment> \<open>\<^verbatim>\<open>vpe\<close>, \<^verbatim>\<open>caps\<close>, \<^verbatim>\<open>tvpeobj\<close>, \<^verbatim>\<open>obtain\<close>, \<^verbatim>\<open>rinfo\<close>\<close>
  | CB_createSessFwd krnl_id_t int mht_key_t int
      \<comment> \<open>sender, \<^verbatim>\<open>vpeID\<close>, \<^verbatim>\<open>cap\<close>, \<^verbatim>\<open>tid\<close>\<close>
  | CB_exchangeOverSession krnl_id_t int bool mht_key_t cap_rng
      \<comment> \<open>sender, \<^verbatim>\<open>tid\<close>, \<^verbatim>\<open>obtain\<close>, \<^verbatim>\<open>vpe\<close>, \<^verbatim>\<open>caps\<close>\<close>
  | CB_none

record service =
  sv_ptr :: nat
  sv_vpe :: nat
  sv_sel :: capsel_t
  sv_name :: string
  sv_ep :: int
  sv_label :: u64
  sv_id :: mht_key_t
  sv_closing :: bool
  sv_refs :: nat
  sv_queue :: "(srv_cmd \<times> srv_closure) send_queue"

section \<open>Revocations and waiting activations\<close>

text \<open>A subscriber is another revocation, known by its \<^verbatim>\<open>capID\<close>, which never changes.\<close>

record revocation =
  rv_capID :: mht_key_t
  rv_parent :: mht_key_t
  rv_origin :: mht_key_t
  rv_awaitedResp :: int
  rv_tid :: int
  rv_subs :: "mht_key_t list"

datatype rb_waiter =
    RB_activate nat nat "(capsel_t \<times> nat) option" "(capsel_t \<times> nat) option" reply_info
      \<comment> \<open>\<^verbatim>\<open>vpe\<close>, \<^verbatim>\<open>epid\<close>, \<^verbatim>\<open>oldcapobj\<close>, \<^verbatim>\<open>newcapobj\<close>, \<^verbatim>\<open>rinfo\<close>\<close>
  | RB_remote krnl_id_t int
      \<comment> \<open>sender and \<^verbatim>\<open>tid\<close> of the kernel call\<close>

section \<open>What leaves the kernel\<close>

datatype op_stage = KREQUEST | KREPLY | KFORWARD

datatype krnl_msg =
    KC_REVOKE mht_key_t mht_key_t mht_key_t
  | KC_REVOKEFINISH mht_key_t int bool
  | KC_MHTGET int mht_key_t
  | KC_REMOVECHILDCAPPTR mht_key_t u32 mht_key_t u32
  | KC_CREATESESSFWD int string mht_key_t int stream
  | KC_CREATESESSRESP int int code "(u64 \<times> mht_key_t) option"
  | KC_CREATESESSFAIL mht_key_t mht_key_t
  | KC_EXCHANGEOSESS int bool mht_key_t mht_key_t u64 cap_rng stream
  | KC_EXCHANGEOSESSREPLY int code "(int \<times> cap_rng \<times> stream) option"
  | KC_RECVBUFISATTACHED int nat nat
  | KC_RECVBUFATTACHED int code
  | KC_ANNOUNCESRV mht_key_t string
  | KC_SHUTDOWNREQUEST op_stage
  | KC_SHUTDOWN op_stage
  | KC_REPLY
  | KC_STARTAPPS
  | KC_SIGVITAL int code
  | KC_KCREATEVPE int bool
  | KC_MHTGETREPLY int "unit mht_item"
  | KC_MHTLOCKREPLY int u32
  | KC_MHTLOCKFORWARD int krnl_id_t mht_key_t
  | KC_MHTRESERVEREPLY int u32
  | KC_ANNOUNCEKRNLS u32 "(krnl_id_t \<times> pe_id_t) list"
  | KC_CONNECT op_stage krnl_id_t pe_id_t int "(u8 \<times> pe_desc list) option"

datatype dtu_cmd =
    DTU_invalidate_ep nat nat
  | DTU_invalidate_eps nat nat
  | DTU_config_recv nat recv_config
  | DTU_config_send nat nat u64 int int int u64 u64
  | DTU_config_mem nat nat int int u64 u64 u64
  | DTU_map_page nat u64 u64 u32
  | DTU_unmap_page nat u64
  | DTU_config_pf nat u64 int
  | DTU_set_rw_barrier nat u64
  | DTU_copy nat u64 u64 u64 bool
  | DTU_write_env nat int string u64 u64
  | DTU_privilege nat
  | DTU_deprivilege nat
  | DTU_set_vpeid nat
  | DTU_unset_vpeid nat
  | DTU_wakeup nat
  | DTU_suspend nat

datatype event =
    Ev_dtu dtu_cmd
  | Ev_srv nat srv_cmd srv_closure
  | Ev_reply nat code stream
  | Ev_reply_to nat reply_info code stream
  | Ev_krnl krnl_id_t krnl_msg
  | Ev_received krnl_id_t
  | Ev_notify int stream

section \<open>The state\<close>

text \<open>The public members of \<^verbatim>\<open>Coordinator\<close> that govern start and end of the system.\<close>

record coordinator =
  co_closingRequests :: int
  co_shutdownIssued :: bool
  co_shutdownRequests :: int
  co_startSignsAwaited :: int
  co_startSignSent :: bool

text \<open>A boot module with the parts of its ELF file that the loader reads.\<close>

record elf_ph =
  p_type :: u32
  p_flags :: u32
  p_offset :: u64
  p_vaddr :: u64
  p_filesz :: u64
  p_memsz :: u64

record boot_module =
  bm_name :: string
  bm_addr :: u64
  bm_size :: u64
  bm_magic :: bool
  bm_phoff :: u64
  bm_phentsize :: u64
  bm_phs :: "elf_ph list"
  bm_entry :: u64

text \<open>\<open>k_kpes\<close> holds the connection to every kernel in the list of \<^verbatim>\<open>Coordinator\<close>, which is \<^const>\<open>mi_kpes\<close> of \<open>k_mht\<close>.
  \<open>k_epOccup\<close> and \<open>k_kcOccup\<close> are the occupied slots of the two message handlers, \<open>k_stopped\<close> says that
  \<^verbatim>\<open>PEManager::destroy\<close> ran and the work loop was told to stop. \<open>k_junk\<close> is what a member that no constructor
  initializes holds.\<close>

record kernel =
  k_mht :: "unit mht"
  k_env :: kenv
  k_vpes :: "nat \<Rightarrow> vpe option"
  k_count :: nat
  k_daemons :: nat
  k_pending :: "(nat \<times> int \<times> string) list"
  k_objs :: "nat \<Rightarrow> msg_object option"
  k_sess :: "nat \<Rightarrow> session_object option"
  k_servs :: "service list"
  k_rservs :: "(mht_key_t \<times> string) list"
  k_mem :: main_memory
  k_rbufs :: "rb_waiter rbufs"
  k_revs :: "revocation list"
  k_coord :: coordinator
  k_kpes :: "krnl_id_t \<Rightarrow> kpe"
  k_epOccup :: "int list"
  k_kcOccup :: "int list"
  k_connReqs :: "(krnl_id_t \<times> int) list"
  k_mods :: "boot_module list"
  k_loaded :: u64
  k_idles :: "nat \<Rightarrow> boot_module option"
  k_next :: nat
  k_tid :: int
  k_junk :: u64
  k_shutdown :: bool
  k_shutdownReplySent :: bool
  k_stopped :: bool
  k_log :: "event list"

definition new_coordinator :: "bool \<Rightarrow> coordinator" where
  "new_coordinator initial =
     \<lparr>co_closingRequests = -1, co_shutdownIssued = False, co_shutdownRequests = 0,
      co_startSignsAwaited = (if initial then 0 else 1), co_startSignSent = False\<rparr>"

definition MAX_MSG_SLOTS :: nat where "MAX_MSG_SLOTS = 32"
definition SYSC_GATES :: nat where "SYSC_GATES = 6"
definition SYSC_SLOTS :: nat where "SYSC_SLOTS = MAX_MSG_SLOTS * SYSC_GATES"
definition KRNLC_EP :: nat where "KRNLC_EP = SYSC_GATES"
definition KRNLC_GATES :: nat where "KRNLC_GATES = 8"
definition KRNLC_SLOTS :: nat where "KRNLC_SLOTS = (MAX_MSG_SLOTS * KRNLC_GATES) div nat MAX_MSG_INFLIGHT"

text \<open>The state after the constructors of the singletons; \<open>initial\<close> says that no other kernel created this one.\<close>

definition new_kernel :: "kenv \<Rightarrow> unit mht \<Rightarrow> main_memory \<Rightarrow> rb_waiter rbufs \<Rightarrow> bool \<Rightarrow> kernel" where
  "new_kernel ke mht mem rbs initial =
     \<lparr>k_mht = mht, k_env = ke, k_vpes = Map.empty, k_count = 0, k_daemons = 0, k_pending = [],
      k_objs = Map.empty, k_sess = Map.empty, k_servs = [], k_rservs = [], k_mem = mem, k_rbufs = rbs,
      k_revs = [], k_coord = new_coordinator initial, k_kpes = (\<lambda>_. new_KPE (-1) (-1)),
      k_epOccup = replicate SYSC_SLOTS (-1), k_kcOccup = replicate KRNLC_SLOTS (-1), k_connReqs = [],
      k_mods = [], k_loaded = 0, k_idles = Map.empty, k_next = 1, k_tid = 0, k_junk = 0, k_shutdown = False,
      k_shutdownReplySent = False, k_stopped = False, k_log = []\<rparr>"

definition emit :: "event \<Rightarrow> kernel \<Rightarrow> kernel" where
  "emit e k = k\<lparr>k_log := k_log k @ [e]\<rparr>"

definition emit_all :: "event list \<Rightarrow> kernel \<Rightarrow> kernel" where
  "emit_all es k = k\<lparr>k_log := k_log k @ es\<rparr>"

text \<open>\<^verbatim>\<open>Kernelcalls::get().f(Coordinator::get().getKPE(kid), ...)\<close>: the lookup of the kernel panics
  if there is no such kernel.\<close>

definition krnl_call :: "krnl_id_t \<Rightarrow> krnl_msg \<Rightarrow> kernel \<Rightarrow> kernel result" where
  "krnl_call kid msg k = rbind (getKPE kid (k_mht k)) (\<lambda>_. Inr (emit (Ev_krnl kid msg) k))"

section \<open>VPEs, tables and capabilities of the state\<close>

text \<open>\<^verbatim>\<open>PEManager::exists\<close> and \<^verbatim>\<open>PEManager::vpe\<close>.\<close>

definition pe_exists :: "kernel \<Rightarrow> int \<Rightarrow> bool" where
  "pe_exists k i \<longleftrightarrow> i < int (ke_pe_count (k_env k)) \<and> k_vpes k (nat i) \<noteq> None"

definition pe_vpe :: "kernel \<Rightarrow> nat \<Rightarrow> vpe result" where
  "pe_vpe k i = (case k_vpes k i of None \<Rightarrow> Inl Assert_failed | Some v \<Rightarrow> Inr v)"

definition set_vpe :: "vpe \<Rightarrow> kernel \<Rightarrow> kernel" where
  "set_vpe v k = k\<lparr>k_vpes := (k_vpes k)(v_id v \<mapsto> v)\<rparr>"

definition mod_vpe :: "nat \<Rightarrow> (vpe \<Rightarrow> vpe) \<Rightarrow> kernel \<Rightarrow> kernel" where
  "mod_vpe i f k = k\<lparr>k_vpes := (k_vpes k)(i := map_option f (k_vpes k i))\<rparr>"

definition k_table :: "kernel \<Rightarrow> nat \<Rightarrow> crd_type \<Rightarrow> cap_table option" where
  "k_table k i t = map_option (v_table t) (k_vpes k i)"

definition mod_table :: "nat \<times> crd_type \<Rightarrow> (cap_table \<Rightarrow> cap_table) \<Rightarrow> kernel \<Rightarrow> kernel" where
  "mod_table tbl f k = mod_vpe (fst tbl) (\<lambda>v. v_set_table (snd tbl) (f (v_table (snd tbl) v)) v) k"

text \<open>The capability that a table of a VPE holds at a selector.\<close>

definition k_cap :: "kernel \<Rightarrow> nat \<times> crd_type \<Rightarrow> capsel_t \<Rightarrow> capability option" where
  "k_cap k tbl sel =
     (case k_vpes k (fst tbl) of None \<Rightarrow> None | Some v \<Rightarrow> treap_find (ct_caps (v_table (snd tbl) v)) sel)"

definition mod_cap :: "nat \<times> crd_type \<Rightarrow> capsel_t \<Rightarrow> (capability \<Rightarrow> capability) \<Rightarrow> kernel \<Rightarrow> kernel" where
  "mod_cap tbl sel f k = mod_table tbl (\<lambda>ct. ct\<lparr>ct_caps := treap_modify sel f (ct_caps ct)\<rparr>) k"

definition fresh :: "kernel \<Rightarrow> nat \<times> kernel" where
  "fresh k = (k_next k, k\<lparr>k_next := k_next k + 1\<rparr>)"

section \<open>Lookups after an update\<close>

text \<open>The part of the state that lookups of VPEs and capabilities depend on.\<close>

lemma v_table_set [simp]: "v_table t (v_set_table t' ct v) = (if t = t' then ct else v_table t v)"
  by (cases t; cases t') (auto simp: v_table_def v_set_table_def)

lemma v_set_table_fields [simp]:
  "v_id (v_set_table t ct v) = v_id v" "v_core (v_set_table t ct v) = v_core v"
  "v_refs (v_set_table t ct v) = v_refs v" "v_state (v_set_table t ct v) = v_state v"
  "v_flags (v_set_table t ct v) = v_flags v"
  by (cases t; simp add: v_set_table_def)+

lemma emit_fields [simp]:
  "k_junk (emit e k) = k_junk k"
  "k_coord (emit e k) = k_coord k" "k_kpes (emit e k) = k_kpes k" "k_epOccup (emit e k) = k_epOccup k"
  "k_kcOccup (emit e k) = k_kcOccup k" "k_connReqs (emit e k) = k_connReqs k" "k_pending (emit e k) = k_pending k"
  "k_rservs (emit e k) = k_rservs k" "k_mods (emit e k) = k_mods k" "k_loaded (emit e k) = k_loaded k"
  "k_idles (emit e k) = k_idles k" "k_shutdown (emit e k) = k_shutdown k" "k_shutdownReplySent (emit e k) = k_shutdownReplySent k"
  "k_stopped (emit e k) = k_stopped k"
  "k_mht (emit e k) = k_mht k" "k_vpes (emit e k) = k_vpes k" "k_objs (emit e k) = k_objs k"
  "k_sess (emit e k) = k_sess k" "k_servs (emit e k) = k_servs k" "k_mem (emit e k) = k_mem k"
  "k_revs (emit e k) = k_revs k" "k_next (emit e k) = k_next k" "k_tid (emit e k) = k_tid k"
  "k_rbufs (emit e k) = k_rbufs k" "k_log (emit e k) = k_log k @ [e]" "k_count (emit e k) = k_count k"
  "k_daemons (emit e k) = k_daemons k" "k_env (emit e k) = k_env k"
  by (simp_all add: emit_def)

lemma mod_vpe_fields [simp]:
  "k_junk (mod_vpe i f k) = k_junk k"
  "k_coord (mod_vpe i f k) = k_coord k" "k_kpes (mod_vpe i f k) = k_kpes k" "k_epOccup (mod_vpe i f k) = k_epOccup k"
  "k_kcOccup (mod_vpe i f k) = k_kcOccup k" "k_connReqs (mod_vpe i f k) = k_connReqs k" "k_pending (mod_vpe i f k) = k_pending k"
  "k_rservs (mod_vpe i f k) = k_rservs k" "k_mods (mod_vpe i f k) = k_mods k" "k_loaded (mod_vpe i f k) = k_loaded k"
  "k_idles (mod_vpe i f k) = k_idles k" "k_shutdown (mod_vpe i f k) = k_shutdown k" "k_shutdownReplySent (mod_vpe i f k) = k_shutdownReplySent k"
  "k_stopped (mod_vpe i f k) = k_stopped k"
  "k_mht (mod_vpe i f k) = k_mht k" "k_objs (mod_vpe i f k) = k_objs k"
  "k_sess (mod_vpe i f k) = k_sess k" "k_servs (mod_vpe i f k) = k_servs k" "k_mem (mod_vpe i f k) = k_mem k"
  "k_revs (mod_vpe i f k) = k_revs k" "k_next (mod_vpe i f k) = k_next k" "k_tid (mod_vpe i f k) = k_tid k"
  "k_log (mod_vpe i f k) = k_log k" "k_rbufs (mod_vpe i f k) = k_rbufs k" "k_env (mod_vpe i f k) = k_env k"
  "k_count (mod_vpe i f k) = k_count k" "k_daemons (mod_vpe i f k) = k_daemons k"
  "k_vpes (mod_vpe i f k) = (k_vpes k)(i := map_option f (k_vpes k i))"
  by (simp_all add: mod_vpe_def)

lemma mod_table_fields [simp]:
  "k_junk (mod_table tbl g k) = k_junk k"
  "k_coord (mod_table tbl g k) = k_coord k" "k_kpes (mod_table tbl g k) = k_kpes k" "k_epOccup (mod_table tbl g k) = k_epOccup k"
  "k_kcOccup (mod_table tbl g k) = k_kcOccup k" "k_connReqs (mod_table tbl g k) = k_connReqs k" "k_pending (mod_table tbl g k) = k_pending k"
  "k_rservs (mod_table tbl g k) = k_rservs k" "k_mods (mod_table tbl g k) = k_mods k" "k_loaded (mod_table tbl g k) = k_loaded k"
  "k_idles (mod_table tbl g k) = k_idles k" "k_shutdown (mod_table tbl g k) = k_shutdown k" "k_shutdownReplySent (mod_table tbl g k) = k_shutdownReplySent k"
  "k_stopped (mod_table tbl g k) = k_stopped k" "k_count (mod_table tbl g k) = k_count k" "k_daemons (mod_table tbl g k) = k_daemons k"
  "k_mht (mod_table tbl g k) = k_mht k" "k_objs (mod_table tbl g k) = k_objs k"
  "k_sess (mod_table tbl g k) = k_sess k" "k_servs (mod_table tbl g k) = k_servs k"
  "k_mem (mod_table tbl g k) = k_mem k" "k_revs (mod_table tbl g k) = k_revs k"
  "k_next (mod_table tbl g k) = k_next k" "k_tid (mod_table tbl g k) = k_tid k"
  "k_log (mod_table tbl g k) = k_log k" "k_rbufs (mod_table tbl g k) = k_rbufs k"
  "k_env (mod_table tbl g k) = k_env k"
  by (simp_all add: mod_table_def)

lemma mod_cap_fields [simp]:
  "k_junk (mod_cap tbl sel g k) = k_junk k"
  "k_coord (mod_cap tbl sel g k) = k_coord k" "k_kpes (mod_cap tbl sel g k) = k_kpes k" "k_epOccup (mod_cap tbl sel g k) = k_epOccup k"
  "k_kcOccup (mod_cap tbl sel g k) = k_kcOccup k" "k_connReqs (mod_cap tbl sel g k) = k_connReqs k" "k_pending (mod_cap tbl sel g k) = k_pending k"
  "k_rservs (mod_cap tbl sel g k) = k_rservs k" "k_mods (mod_cap tbl sel g k) = k_mods k" "k_loaded (mod_cap tbl sel g k) = k_loaded k"
  "k_idles (mod_cap tbl sel g k) = k_idles k" "k_shutdown (mod_cap tbl sel g k) = k_shutdown k" "k_shutdownReplySent (mod_cap tbl sel g k) = k_shutdownReplySent k"
  "k_stopped (mod_cap tbl sel g k) = k_stopped k" "k_count (mod_cap tbl sel g k) = k_count k" "k_daemons (mod_cap tbl sel g k) = k_daemons k"
  "k_mht (mod_cap tbl sel g k) = k_mht k" "k_objs (mod_cap tbl sel g k) = k_objs k"
  "k_sess (mod_cap tbl sel g k) = k_sess k" "k_servs (mod_cap tbl sel g k) = k_servs k"
  "k_mem (mod_cap tbl sel g k) = k_mem k" "k_revs (mod_cap tbl sel g k) = k_revs k"
  "k_next (mod_cap tbl sel g k) = k_next k" "k_tid (mod_cap tbl sel g k) = k_tid k"
  "k_log (mod_cap tbl sel g k) = k_log k" "k_rbufs (mod_cap tbl sel g k) = k_rbufs k"
  "k_env (mod_cap tbl sel g k) = k_env k"
  by (simp_all add: mod_cap_def)

lemma k_cap_cong: "k_vpes k' = k_vpes k \<Longrightarrow> k_cap k' = k_cap k"
  by (simp add: k_cap_def fun_eq_iff)

lemma k_cap_emit [simp]: "k_cap (emit e k) = k_cap k"
  by (rule k_cap_cong) simp

lemma k_cap_updates [simp]:
  "k_cap (k\<lparr>k_objs := a\<rparr>) = k_cap k" "k_cap (k\<lparr>k_sess := b\<rparr>) = k_cap k" "k_cap (k\<lparr>k_servs := c\<rparr>) = k_cap k"
  "k_cap (k\<lparr>k_mem := d\<rparr>) = k_cap k" "k_cap (k\<lparr>k_revs := r\<rparr>) = k_cap k" "k_cap (k\<lparr>k_next := n\<rparr>) = k_cap k"
  "k_cap (k\<lparr>k_log := l\<rparr>) = k_cap k" "k_cap (k\<lparr>k_rbufs := rb\<rparr>) = k_cap k" "k_cap (k\<lparr>k_tid := t\<rparr>) = k_cap k"
  by (rule k_cap_cong, simp)+

lemma k_cap_mod_table:
  "k_cap (mod_table tbl g k) tbl' sel =
     (if tbl' = tbl then (case k_table k (fst tbl) (snd tbl) of None \<Rightarrow> None | Some ct \<Rightarrow> treap_find (ct_caps (g ct)) sel)
      else k_cap k tbl' sel)"
  by (cases tbl; cases tbl') (auto simp: k_cap_def mod_table_def k_table_def split: option.splits)

lemma k_cap_table: "k_cap k tbl sel = (case k_table k (fst tbl) (snd tbl) of None \<Rightarrow> None | Some ct \<Rightarrow> treap_find (ct_caps ct) sel)"
  by (simp add: k_cap_def k_table_def split: option.splits)

lemma k_cap_mod_cap [simp]:
  "k_cap (mod_cap tbl sel f k) tbl' sel' =
     (if tbl' = tbl \<and> sel' = sel then map_option f (k_cap k tbl sel) else k_cap k tbl' sel')"
  by (auto simp: mod_cap_def k_cap_mod_table k_cap_table [of k tbl] treap_find_modify split: option.splits)

text \<open>Every capability table is a well-formed treap that belongs to its VPE.\<close>

definition tables_ok :: "kernel \<Rightarrow> bool" where
  "tables_ok k \<longleftrightarrow> (\<forall>i v. k_vpes k i = Some v \<longrightarrow> v_id v = i \<and>
     (\<forall>t. treap_inv (ct_caps (v_table t v)) \<and> ct_id (v_table t v) = i \<and> ct_type (v_table t v) = t))"

lemma tables_okD:
  "tables_ok k \<Longrightarrow> k_table k i t = Some ct \<Longrightarrow> treap_inv (ct_caps ct) \<and> ct_id ct = i \<and> ct_type ct = t"
  by (auto simp: tables_ok_def k_table_def)

lemma tables_ok_cong: "k_vpes k' = k_vpes k \<Longrightarrow> tables_ok k' = tables_ok k"
  by (simp add: tables_ok_def)

lemma tables_ok_emit [simp]: "tables_ok (emit e k) = tables_ok k"
  by (rule tables_ok_cong) simp

lemma tables_ok_updates [simp]:
  "tables_ok (k\<lparr>k_objs := a\<rparr>) = tables_ok k" "tables_ok (k\<lparr>k_sess := b\<rparr>) = tables_ok k"
  "tables_ok (k\<lparr>k_servs := c\<rparr>) = tables_ok k" "tables_ok (k\<lparr>k_mem := d\<rparr>) = tables_ok k"
  "tables_ok (k\<lparr>k_revs := r\<rparr>) = tables_ok k" "tables_ok (k\<lparr>k_next := n\<rparr>) = tables_ok k"
  "tables_ok (k\<lparr>k_log := l\<rparr>) = tables_ok k"
  by (rule tables_ok_cong, simp)+

lemma tables_ok_mod_table:
  assumes "tables_ok k" "\<And>ct. k_table k (fst tbl) (snd tbl) = Some ct \<Longrightarrow> treap_inv (ct_caps ct) \<Longrightarrow>
    treap_inv (ct_caps (g ct)) \<and> ct_id (g ct) = ct_id ct \<and> ct_type (g ct) = ct_type ct"
  shows "tables_ok (mod_table tbl g k)"
  using assms unfolding tables_ok_def mod_table_def k_table_def by (auto split: if_splits)

lemma tables_ok_mod_cap [simp]: "tables_ok k \<Longrightarrow> tables_ok (mod_cap tbl sel f k)"
  unfolding mod_cap_def by (rule tables_ok_mod_table) auto

end
