(* ===== verification/Cap_Table.thy ===== *)
theory Cap_Table
  imports Kernel_State
begin

unbundle bit_operations_syntax

text \<open>
  Capability tables (\<^verbatim>\<open>src/src/apps/kernel/cap/CapTable.h\<close> and \<^verbatim>\<open>CapTable.cc\<close>) without
  revocation: lookups, range checks, insertion, reservation, and the operations that hand a
  capability on (\<^verbatim>\<open>clone\<close>, \<^verbatim>\<open>obtain\<close>, \<^verbatim>\<open>inherit_and_set\<close>). A table is named by the VPE it belongs to
  and its type. The reference counts of the shared objects are kept as \<^verbatim>\<open>m3::Reference\<close> does.
\<close>

section \<open>Lookups and ranges\<close>

definition unused :: "kernel \<Rightarrow> nat \<times> crd_type \<Rightarrow> capsel_t \<Rightarrow> bool" where
  "unused k tbl i \<longleftrightarrow> k_cap k tbl i = None"

definition used :: "kernel \<Rightarrow> nat \<times> crd_type \<Rightarrow> capsel_t \<Rightarrow> bool" where
  "used k tbl i \<longleftrightarrow> k_cap k tbl i \<noteq> None"

definition cap_get :: "kernel \<Rightarrow> nat \<times> crd_type \<Rightarrow> capsel_t \<Rightarrow> u32 \<Rightarrow> capability option" where
  "cap_get k tbl i types =
     (case k_cap k tbl i of
        None \<Rightarrow> None
      | Some c \<Rightarrow> if c_type c AND types = 0 then None else Some c)"

definition range_valid :: "cap_rng \<Rightarrow> bool" where
  "range_valid crd \<longleftrightarrow> crd_count crd = 0 \<or> crd_start crd + crd_count crd > crd_start crd"

text \<open>The selectors that \<^verbatim>\<open>for(i = a; i < b; ++i)\<close> visits.\<close>

definition sel_loop :: "capsel_t \<Rightarrow> capsel_t \<Rightarrow> capsel_t list" where
  "sel_loop a b = map word_of_nat [unat a ..< unat b]"

definition range_unused :: "kernel \<Rightarrow> nat \<times> crd_type \<Rightarrow> cap_rng \<Rightarrow> bool" where
  "range_unused k tbl crd \<longleftrightarrow>
     range_valid crd \<and> list_all (\<lambda>i. k_cap k tbl i = None) (sel_loop (crd_start crd) (crd_start crd + crd_count crd))"

definition range_used :: "kernel \<Rightarrow> nat \<times> crd_type \<Rightarrow> cap_rng \<Rightarrow> bool" where
  "range_used k tbl crd \<longleftrightarrow>
     range_valid crd \<and> list_all (\<lambda>i. k_cap k tbl i \<noteq> None) (sel_loop (crd_start crd) (crd_start crd + crd_count crd))"

definition table_reserve :: "nat \<times> crd_type \<Rightarrow> capsel_t \<Rightarrow> kernel \<Rightarrow> kernel result" where
  "table_reserve tbl i k =
     (if k_cap k tbl i = None then Inr (mod_table tbl (\<lambda>ct. ct\<lparr>ct_reserved := ct_reserved ct @ [i]\<rparr>) k)
      else Inl Assert_failed)"

definition table_release :: "nat \<times> crd_type \<Rightarrow> capsel_t \<Rightarrow> kernel \<Rightarrow> kernel" where
  "table_release tbl i k = mod_table tbl (\<lambda>ct. ct\<lparr>ct_reserved := remove_first (\<lambda>x. x = i) (ct_reserved ct)\<rparr>) k"

section \<open>Insertion\<close>

definition table_put :: "nat \<times> crd_type \<Rightarrow> capsel_t \<Rightarrow> capability \<Rightarrow> kernel \<Rightarrow> kernel" where
  "table_put tbl i c k = mod_table tbl (\<lambda>ct. ct\<lparr>ct_caps := treap_insert i c (ct_caps ct)\<rparr>) k"

text \<open>\<^verbatim>\<open>set\<close>: the identifier of the capability is derived from the table and the selector.\<close>

definition table_set :: "nat \<times> crd_type \<Rightarrow> capsel_t \<Rightarrow> capability \<Rightarrow> kernel \<Rightarrow> (capability \<times> kernel) result" where
  "table_set tbl i c k =
     (case k_table k (fst tbl) (snd tbl) of
        None \<Rightarrow> Inl Use_after_free
      | Some ct \<Rightarrow>
          if treap_find (ct_caps ct) i \<noteq> None \<or> c_tbl c \<noteq> tbl \<or> c_sel c \<noteq> i then Inl Assert_failed
          else rbind (capTypeToItemType (c_type c)) (\<lambda>t.
            let c' = c\<lparr>c_id := structured_hash (word_of_nat (ct_id ct)) (word_of_nat (ct_id ct)) t i\<rparr>
            in Inr (c', table_put tbl i c' k)))"

section \<open>References\<close>

definition obj_ref :: "nat \<Rightarrow> kernel \<Rightarrow> kernel result" where
  "obj_ref p k =
     (case k_objs k p of
        None \<Rightarrow> Inl Use_after_free
      | Some ob \<Rightarrow> Inr (k\<lparr>k_objs := (k_objs k)(p \<mapsto> ob\<lparr>mo_refs := mo_refs ob + 1\<rparr>)\<rparr>))"

definition obj_unref :: "nat \<Rightarrow> kernel \<Rightarrow> kernel result" where
  "obj_unref p k =
     (case k_objs k p of
        None \<Rightarrow> Inl Use_after_free
      | Some ob \<Rightarrow> Inr (k\<lparr>k_objs := (k_objs k)(p := if mo_refs ob = 1 then None else Some (ob\<lparr>mo_refs := mo_refs ob - 1\<rparr>))\<rparr>))"

text \<open>\<^verbatim>\<open>new\<close> followed by the first reference.\<close>

definition new_obj :: "msg_object \<Rightarrow> kernel \<Rightarrow> nat \<times> kernel" where
  "new_obj ob k = (k_next k, k\<lparr>k_next := k_next k + 1, k_objs := (k_objs k)(k_next k \<mapsto> ob\<lparr>mo_refs := 1\<rparr>)\<rparr>)"

definition new_sess :: "session_object \<Rightarrow> kernel \<Rightarrow> nat \<times> kernel" where
  "new_sess so k = (k_next k, k\<lparr>k_next := k_next k + 1, k_sess := (k_sess k)(k_next k \<mapsto> so\<lparr>so_refs := 1\<rparr>)\<rparr>)"

definition sess_ref :: "nat \<Rightarrow> kernel \<Rightarrow> kernel result" where
  "sess_ref p k =
     (case k_sess k p of
        None \<Rightarrow> Inl Use_after_free
      | Some so \<Rightarrow> Inr (k\<lparr>k_sess := (k_sess k)(p \<mapsto> so\<lparr>so_refs := so_refs so + 1\<rparr>)\<rparr>))"

definition vpe_ref :: "nat option \<Rightarrow> kernel \<Rightarrow> kernel result" where
  "vpe_ref p k =
     (case p of
        None \<Rightarrow> Inl Null_deref
      | Some i \<Rightarrow> (case k_vpes k i of
          None \<Rightarrow> Inl Use_after_free
        | Some v \<Rightarrow> Inr (mod_vpe i (\<lambda>v. v\<lparr>v_refs := v_refs v + 1\<rparr>) k)))"

section \<open>Cloning and handing on\<close>

definition PAGE_BITS :: nat where "PAGE_BITS = 12"

text \<open>\<^verbatim>\<open>new MapCapability\<close> and \<^verbatim>\<open>remap\<close>: the page is mapped at \<^verbatim>\<open>sel << PAGE_BITS\<close>, a 32 bit shift.\<close>

definition map_addr :: "capsel_t \<Rightarrow> u64" where
  "map_addr sel = ucast (push_bit PAGE_BITS sel)"

definition new_MapCapability :: "nat \<times> crd_type \<Rightarrow> capsel_t \<Rightarrow> u64 \<Rightarrow> u32 \<Rightarrow> kernel \<Rightarrow> (capability \<times> kernel) result" where
  "new_MapCapability tbl sel phys attr k =
     rbind (pe_vpe k (fst tbl)) (\<lambda>v.
       let (p, k) = fresh k
       in Inr (new_Capability p tbl sel CAP_MAP 0 (MapCap phys attr),
               emit (Ev_dtu (DTU_map_page (v_id v) (map_addr sel) phys attr)) k))"

definition remap :: "capability \<Rightarrow> u32 \<Rightarrow> kernel \<Rightarrow> kernel result" where
  "remap c attr k =
     (case c_kind c of
        MapCap phys _ \<Rightarrow> rbind (pe_vpe k (fst (c_tbl c))) (\<lambda>v.
          Inr (emit (Ev_dtu (DTU_map_page (v_id v) (map_addr (c_sel c)) phys attr))
                (mod_cap (c_tbl c) (c_sel c) (\<lambda>c. c\<lparr>c_kind := MapCap phys attr\<rparr>) k)))
      | _ \<Rightarrow> Inl Null_deref)"

definition copy_cap :: "capability \<Rightarrow> nat \<times> crd_type \<Rightarrow> capsel_t \<Rightarrow> cap_kind \<Rightarrow> kernel \<Rightarrow> capability \<times> kernel" where
  "copy_cap c tbl sel kind k =
     (let (p, k) = fresh k
      in (c\<lparr>c_ptr := p, c_id := 0, c_tbl := tbl, c_sel := sel, c_children := [], c_kind := kind\<rparr>, k))"

definition cap_clone :: "capability \<Rightarrow> nat \<times> crd_type \<Rightarrow> capsel_t \<Rightarrow> kernel \<Rightarrow> (capability option \<times> kernel) result" where
  "cap_clone c tbl sel k =
     (case c_kind c of
        MsgCap _ ob objID \<Rightarrow> rbind (obj_ref ob k) (\<lambda>k.
          let (nc, k) = copy_cap c tbl sel (MsgCap (-1) ob objID) k in Inr (Some nc, k))
      | MemCap _ ob objID \<Rightarrow> rbind (obj_ref ob k) (\<lambda>k.
          let (nc, k) = copy_cap c tbl sel (MemCap (-1) ob objID) k in Inr (Some nc, k))
      | MapCap phys attr \<Rightarrow> rbind (new_MapCapability tbl sel phys attr k) (\<lambda>(nc, k). Inr (Some nc, k))
      | ServCap _ \<Rightarrow> Inr (None, k)
      | SessCap ob \<Rightarrow> rbind (sess_ref ob k) (\<lambda>k.
          let (nc, k) = copy_cap c tbl sel (SessCap ob) k in Inr (Some nc, k))
      | VPECap v _ \<Rightarrow> rbind (vpe_ref v k) (\<lambda>k.
          let (nc, k) = copy_cap c tbl sel (VPECap v (k_junk k)) k in Inr (Some nc, k)))"

definition inherit_and_set ::
  "capability \<Rightarrow> capability \<Rightarrow> nat \<times> crd_type \<Rightarrow> capsel_t \<Rightarrow> kernel \<Rightarrow> (capability \<times> kernel) result" where
  "inherit_and_set parent child tbl dst k =
     rbind (table_set tbl dst (child\<lparr>c_parent := c_id parent\<rparr>) k) (\<lambda>(nc, k).
       Inr (nc, if keyLocality (k_mht k) (c_id parent)
                then mod_cap (c_tbl parent) (c_sel parent) (addChild (k_mht k) (c_id nc)) k else k))"

definition setparent_and_set ::
  "mht_key_t \<Rightarrow> capability \<Rightarrow> nat \<times> crd_type \<Rightarrow> capsel_t \<Rightarrow> kernel \<Rightarrow> (capability \<times> kernel) result" where
  "setparent_and_set parent child tbl dst k = table_set tbl dst (child\<lparr>c_parent := parent\<rparr>) k"

definition obtain_cap ::
  "nat \<times> crd_type \<Rightarrow> capsel_t \<Rightarrow> capability option \<Rightarrow> kernel \<Rightarrow> (capability option \<times> kernel) result" where
  "obtain_cap tbl dst c k =
     (case c of
        None \<Rightarrow> Inr (None, k)
      | Some c \<Rightarrow> rbind (cap_clone c tbl dst k) (\<lambda>(nc, k).
          case nc of
            None \<Rightarrow> Inr (None, k)
          | Some nc \<Rightarrow> rbind (inherit_and_set c nc tbl dst k) (\<lambda>(nc, k). Inr (Some nc, k))))"

section \<open>Lookup by key\<close>

text \<open>\<^verbatim>\<open>MHTInstance::get\<close> for a key of the local partitions: object capabilities and map capabilities are
  found in the tables of their VPE, services in the service list; other items are those of the
  partition. \<^verbatim>\<open>getKPE\<close> of the own kernel panics.\<close>

datatype mht_data = IT_cap "capability option" | IT_service "service option" | IT_item

definition mht_get :: "kernel \<Rightarrow> mht_key_t \<Rightarrow> mht_data result" where
  "mht_get k key =
     (case findPartition (k_mht k) key of
        None \<Rightarrow> Inl Panic
      | Some _ \<Rightarrow>
          if hashToType key AND GENERICOCAP \<noteq> 0
          then rbind (pe_vpe k (unat (hashToPeId key)))
            (\<lambda>_. Inr (IT_cap (k_cap k (unat (hashToPeId key), OBJ) (hashToObjId key))))
          else if hashToType key = MAPCAP
          then rbind (pe_vpe k (unat (hashToPeId key)))
            (\<lambda>_. Inr (IT_cap (k_cap k (unat (hashToPeId key), MAP) (hashToObjId key))))
          else if hashToType key = SERVICE
          then Inr (IT_service (List.find (\<lambda>s. sv_id s = key) (k_servs k)))
          else Inr IT_item)"

text \<open>\<^verbatim>\<open>getData<Capability>()\<close> of the item found under a key: null if the type bits of the key are
  none of the object capability types.\<close>

definition get_cap_data :: "mht_key_t \<Rightarrow> mht_data \<Rightarrow> capability option" where
  "get_cap_data key d =
     (if hashToType key \<in> {GENERICOCAP, MSGCAP, SRVCAP, SESSCAP, VPECAP, MEMCAP}
      then (case d of IT_cap c \<Rightarrow> c | _ \<Rightarrow> None) else None)"

section \<open>Well-formed capabilities\<close>

fun kind_type :: "cap_kind \<Rightarrow> u32" where
  "kind_type (MsgCap _ _ _) = CAP_MSG"
| "kind_type (MemCap _ _ _) = CAP_MEM OR CAP_MSG"
| "kind_type (MapCap _ _) = CAP_MAP"
| "kind_type (ServCap _) = CAP_SERVICE"
| "kind_type (SessCap _) = CAP_SESSION"
| "kind_type (VPECap _ _) = CAP_VIRTPE"

fun kind_item :: "cap_kind \<Rightarrow> item_type" where
  "kind_item (MsgCap _ _ _) = MSGCAP"
| "kind_item (MemCap _ _ _) = MEMCAP"
| "kind_item (MapCap _ _) = MAPCAP"
| "kind_item (ServCap _) = SRVCAP"
| "kind_item (SessCap _) = SESSCAP"
| "kind_item (VPECap _ _) = VPECAP"

fun kind_obj :: "cap_kind \<Rightarrow> nat option" where
  "kind_obj (MsgCap _ p _) = Some p"
| "kind_obj (MemCap _ p _) = Some p"
| "kind_obj _ = None"

definition cap_key :: "nat \<Rightarrow> cap_kind \<Rightarrow> capsel_t \<Rightarrow> mht_key_t" where
  "cap_key i kind sel = structured_hash (word_of_nat i) (word_of_nat i) (kind_item kind) sel"

text \<open>A capability that sits in table \<open>tbl\<close> at selector \<open>sel\<close>.\<close>

definition cap_wf :: "nat \<times> crd_type \<Rightarrow> capsel_t \<Rightarrow> capability \<Rightarrow> bool" where
  "cap_wf tbl sel c \<longleftrightarrow> c_tbl c = tbl \<and> c_sel c = sel \<and> c_type c = kind_type (c_kind c) \<and>
     c_id c = cap_key (fst tbl) (c_kind c) sel \<and> (snd tbl = MAP \<longleftrightarrow> kind_item (c_kind c) = MAPCAP)"

definition refs_to :: "kernel \<Rightarrow> nat \<Rightarrow> ((nat \<times> crd_type) \<times> capsel_t) set" where
  "refs_to k p = {(tbl, sel). \<exists>c. k_cap k tbl sel = Some c \<and> kind_obj (c_kind c) = Some p}"

text \<open>The invariant of the capability system: tables are well-formed, capabilities carry the identifier
  of their slot, a gate or memory object exists exactly as long as capabilities refer to it, its
  reference count is their number, and addresses are fresh.\<close>

definition caps_inv :: "kernel \<Rightarrow> bool" where
  "caps_inv k \<longleftrightarrow> tables_ok k \<and> (\<forall>i. k_vpes k i \<noteq> None \<longrightarrow> i < MAX_PES) \<and>
     (\<forall>tbl sel c. k_cap k tbl sel = Some c \<longrightarrow> cap_wf tbl sel c \<and> c_ptr c < k_next k) \<and>
     (\<forall>p. finite (refs_to k p) \<and>
        card (refs_to k p) = (case k_objs k p of None \<Rightarrow> 0 | Some ob \<Rightarrow> mo_refs ob) \<and>
        (k_objs k p \<noteq> None \<longrightarrow> refs_to k p \<noteq> {} \<and> p < k_next k))"

lemma capTypeToItemType_kind: "capTypeToItemType (kind_type kind) = Inr (kind_item kind)"
  by (cases kind) (simp_all add: capTypeToItemType_def cap_type_defs or.commute)

lemma cap_key_fields:
  assumes "i < MAX_PES"
  shows "hashToPeId (cap_key i kind sel) = word_of_nat i" "hashToVpeId (cap_key i kind sel) = word_of_nat i"
    "hashToType (cap_key i kind sel) = kind_item kind" "hashToObjId (cap_key i kind sel) = sel"
    "unat (hashToPeId (cap_key i kind sel)) = i"
proof -
  have u: "unat (word_of_nat i :: u16) = i"
    using assms by (simp add: MAX_PES_def unsigned_of_nat take_bit_nat_eq_self)
  have t: "unat (kind_item kind) < 2 ^ TYPE_BITS"
    by (cases kind) (simp_all add: item_type_defs TYPE_BITS_def)
  have p: "unat (word_of_nat i :: u16) < 2 ^ PE_BITS" "unat (word_of_nat i :: u16) < 2 ^ VPE_BITS"
    using assms by (simp_all add: u MAX_PES_def PE_BITS_def VPE_BITS_def)
  note f = hash_fields_structured [OF p t, of sel]
  show "hashToPeId (cap_key i kind sel) = word_of_nat i" "hashToVpeId (cap_key i kind sel) = word_of_nat i"
    "hashToType (cap_key i kind sel) = kind_item kind" "hashToObjId (cap_key i kind sel) = sel"
    "unat (hashToPeId (cap_key i kind sel)) = i"
    unfolding cap_key_def using f u by simp_all
qed

section \<open>Insertion keeps the invariant\<close>

lemma table_put_fields [simp]:
  "k_mht (table_put tbl i c k) = k_mht k" "k_objs (table_put tbl i c k) = k_objs k"
  "k_sess (table_put tbl i c k) = k_sess k" "k_servs (table_put tbl i c k) = k_servs k"
  "k_mem (table_put tbl i c k) = k_mem k" "k_revs (table_put tbl i c k) = k_revs k"
  "k_next (table_put tbl i c k) = k_next k" "k_log (table_put tbl i c k) = k_log k"
  "k_tid (table_put tbl i c k) = k_tid k" "k_rbufs (table_put tbl i c k) = k_rbufs k"
  by (simp_all add: table_put_def)

lemma k_vpes_mod_table_None: "k_vpes (mod_table tbl g k) j = None \<longleftrightarrow> k_vpes k j = None"
  by (auto simp: mod_table_def)

lemma k_cap_put:
  assumes "tables_ok k" "k_vpes k (fst tbl) \<noteq> None" "k_cap k tbl i = None"
  shows "k_cap (table_put tbl i c k) tbl' sel = (if tbl' = tbl \<and> sel = i then Some c else k_cap k tbl' sel)"
proof -
  obtain ct where ct: "k_table k (fst tbl) (snd tbl) = Some ct" using assms(2) by (auto simp: k_table_def)
  have "treap_find (ct_caps ct) i = None" using assms(3) ct by (simp add: k_cap_table)
  then have "treap_find (treap_insert i c (ct_caps ct)) = (treap_find (ct_caps ct))(i \<mapsto> c)"
    by (rule tr.lookup_ins [OF conjunct1 [OF tables_okD [OF assms(1) ct]]])
  then show ?thesis by (auto simp: table_put_def k_cap_mod_table k_cap_table [of k tbl] ct)
qed

lemma tables_ok_put:
  assumes "tables_ok k" "k_cap k tbl i = None"
  shows "tables_ok (table_put tbl i c k)"
  unfolding table_put_def
  by (rule tables_ok_mod_table [OF assms(1)]) (use assms(2) in \<open>auto simp: k_cap_table intro: tr.invar_ins\<close>)

lemma table_set_ok:
  assumes "tables_ok k" "k_vpes k (fst tbl) \<noteq> None" "k_cap k tbl i = None"
    and "c_tbl c = tbl" "c_sel c = i" "c_type c = kind_type (c_kind c)"
  shows "table_set tbl i c k = Inr (c\<lparr>c_id := cap_key (fst tbl) (c_kind c) i\<rparr>,
    table_put tbl i (c\<lparr>c_id := cap_key (fst tbl) (c_kind c) i\<rparr>) k)"
proof -
  obtain ct where ct: "k_table k (fst tbl) (snd tbl) = Some ct" using assms(2) by (auto simp: k_table_def)
  then have "treap_find (ct_caps ct) i = None" "ct_id ct = fst tbl"
    using assms(3) tables_okD [OF assms(1) ct] by (simp_all add: k_cap_table)
  then show ?thesis
    using assms by (simp add: table_set_def ct capTypeToItemType_kind cap_key_def Let_def)
qed

lemma table_set_occupied: "k_cap k tbl i = Some c' \<Longrightarrow> table_set tbl i c k = Inl Assert_failed"
  by (auto simp: table_set_def k_cap_table split: option.splits)

lemma refs_to_put:
  assumes "tables_ok k" "k_vpes k (fst tbl) \<noteq> None" "k_cap k tbl i = None"
  shows "refs_to (table_put tbl i c k) p =
    (if kind_obj (c_kind c) = Some p then insert (tbl, i) (refs_to k p) else refs_to k p)"
  unfolding refs_to_def using assms(3) by (auto simp: k_cap_put [OF assms])

lemma refs_to_cong:
  assumes "k_vpes k' = k_vpes k"
  shows "refs_to k' = refs_to k"
  by (rule ext) (simp add: refs_to_def k_cap_cong [OF assms])

text \<open>Putting a well-formed capability into a free slot, after its object got one more reference.\<close>

lemma caps_inv_put:
  assumes inv: "caps_inv k" and v: "k_vpes k (fst tbl) \<noteq> None" and free: "k_cap k tbl i = None"
    and wf: "cap_wf tbl i c" and ptr: "c_ptr c < k_next k'" and nxt: "k_next k \<le> k_next k'"
    and vpes: "k_vpes k' = k_vpes k"
    and objs: "k_objs k' = (case kind_obj (c_kind c) of None \<Rightarrow> k_objs k
      | Some p \<Rightarrow> (k_objs k)(p \<mapsto> ob))"
    and ob: "\<And>p. kind_obj (c_kind c) = Some p \<Longrightarrow> p < k_next k' \<and>
      mo_refs ob = (case k_objs k p of None \<Rightarrow> 1 | Some o' \<Rightarrow> mo_refs o' + 1)"
  shows "caps_inv (table_put tbl i c k')"
proof -
  have inv': "tables_ok k" "\<And>j. k_vpes k j \<noteq> None \<Longrightarrow> j < MAX_PES"
    "\<And>tbl sel c. k_cap k tbl sel = Some c \<Longrightarrow> cap_wf tbl sel c \<and> c_ptr c < k_next k"
    "\<And>p. finite (refs_to k p)" "\<And>p. card (refs_to k p) = (case k_objs k p of None \<Rightarrow> 0 | Some ob \<Rightarrow> mo_refs ob)"
    "\<And>p. k_objs k p \<noteq> None \<Longrightarrow> refs_to k p \<noteq> {} \<and> p < k_next k"
    using inv unfolding caps_inv_def by blast+
  have t': "tables_ok k'" "k_vpes k' (fst tbl) \<noteq> None" "k_cap k' tbl i = None"
    using inv'(1) v free by (simp_all add: vpes tables_ok_cong [OF vpes] k_cap_cong [OF vpes])
  have notin: "(tbl, i) \<notin> refs_to k p" for p using free by (simp add: refs_to_def)
  have card: "card (refs_to (table_put tbl i c k') p) =
      (case k_objs (table_put tbl i c k') p of None \<Rightarrow> 0 | Some ob \<Rightarrow> mo_refs ob)" for p
    using inv'(5) [of p] inv'(4) [of p] ob [of p] notin [of p]
    by (auto simp: refs_to_put [OF t'] refs_to_cong [OF vpes] objs split: option.splits)
  show ?thesis
    unfolding caps_inv_def
  proof (intro conjI allI impI)
    show "tables_ok (table_put tbl i c k')" by (rule tables_ok_put) (use t' in auto)
    show "j < MAX_PES" if "k_vpes (table_put tbl i c k') j \<noteq> None" for j
      using that inv'(2) [of j] unfolding table_put_def k_vpes_mod_table_None vpes by simp
    show "cap_wf tb sel c'" "c_ptr c' < k_next (table_put tbl i c k')"
      if "k_cap (table_put tbl i c k') tb sel = Some c'" for tb sel c'
      using that inv'(3) [of tb sel c'] wf ptr nxt
      by (auto simp: k_cap_put [OF t'] k_cap_cong [OF vpes] split: if_splits)
    show "finite (refs_to (table_put tbl i c k') p)" for p
      using inv'(4) [of p] by (simp add: refs_to_put [OF t'] refs_to_cong [OF vpes])
    show "card (refs_to (table_put tbl i c k') p) =
      (case k_objs (table_put tbl i c k') p of None \<Rightarrow> 0 | Some ob \<Rightarrow> mo_refs ob)" for p by (rule card)
    show "refs_to (table_put tbl i c k') p \<noteq> {}" "p < k_next (table_put tbl i c k')"
      if "k_objs (table_put tbl i c k') p \<noteq> None" for p
      using that inv'(6) [of p] ob [of p] nxt
      by (auto simp: refs_to_put [OF t'] refs_to_cong [OF vpes] objs split: option.splits if_splits)
  qed
qed

text \<open>A change of a capability that leaves identity, kind and place alone.\<close>

lemma caps_inv_mod_cap:
  assumes inv: "caps_inv k"
    and f: "\<And>c. c_tbl (f c) = c_tbl c \<and> c_sel (f c) = c_sel c \<and> c_type (f c) = c_type c \<and> c_id (f c) = c_id c \<and>
      c_ptr (f c) = c_ptr c \<and> c_kind (f c) = c_kind c"
  shows "caps_inv (mod_cap tbl sel f k)"
proof -
  have refs: "refs_to (mod_cap tbl sel f k) p = refs_to k p" for p
    unfolding refs_to_def by (auto simp: f split: if_splits)
  have vp: "k_vpes (mod_cap tbl sel f k) j = None \<longleftrightarrow> k_vpes k j = None" for j
    unfolding mod_cap_def by (rule k_vpes_mod_table_None)
  have wf: "cap_wf tb s (f c) = cap_wf tb s c" for tb s c by (simp add: cap_wf_def f)
  show ?thesis
    using inv unfolding caps_inv_def refs vp
    by (auto simp: wf f split: if_splits)
qed

lemma addChild_fields [simp]:
  "c_tbl (addChild s x c) = c_tbl c" "c_sel (addChild s x c) = c_sel c" "c_type (addChild s x c) = c_type c"
  "c_id (addChild s x c) = c_id c" "c_ptr (addChild s x c) = c_ptr c" "c_kind (addChild s x c) = c_kind c"
  "c_parent (addChild s x c) = c_parent c"
  by (auto simp: addChild_def Let_def)

lemma removeChild_fields [simp]:
  "c_tbl (removeChildAllTypes x c) = c_tbl c" "c_sel (removeChildAllTypes x c) = c_sel c"
  "c_type (removeChildAllTypes x c) = c_type c" "c_id (removeChildAllTypes x c) = c_id c"
  "c_ptr (removeChildAllTypes x c) = c_ptr c" "c_kind (removeChildAllTypes x c) = c_kind c"
  "c_parent (removeChildAllTypes x c) = c_parent c"
  by (auto simp: removeChildAllTypes_def)

end
