(* ===== verification/Revocation.thy ===== *)
theory Revocation
  imports Cap_Table
begin

unbundle bit_operations_syntax

text \<open>
  Distributed revocation: the list of ongoing revocations
  (\<^verbatim>\<open>src/src/apps/kernel/cap/Revocations.h\<close> and \<^verbatim>\<open>Revocations.cc\<close>), \<^verbatim>\<open>CapTable::revoke_rec\<close>,
  \<^verbatim>\<open>CapTable::revoke\<close> and \<^verbatim>\<open>revoke_all\<close> (\<^verbatim>\<open>cap/CapTable.cc\<close>), the virtual \<^verbatim>\<open>revoke\<close> of the capability classes
  (\<^verbatim>\<open>cap/Capability.cc\<close>), and the destruction of a VPE that the last VPE capability triggers
  (\<^verbatim>\<open>pes/VPE.cc\<close>, \<^verbatim>\<open>arch/baremetal/VPE.cc\<close>, \<^verbatim>\<open>pes/PEManager.cc\<close>). These call each other and share one fuel
  argument. A thread that waits for other kernels stops with \<^const>\<open>Blocked\<close>;
  \<open>revoke_resumed\<close> is what it does once it is woken up.
\<close>

section \<open>The list of ongoing revocations\<close>

text \<open>The assertions of the constructor: only generic identifiers are used.\<close>

definition generic_key :: "mht_key_t \<Rightarrow> bool" where
  "generic_key key \<longleftrightarrow>
     (if hashToType key = MAPCAP then key AND TYPE_MASK_MCAP = TYPE_MASK_MCAP
      else key AND TYPE_MASK_OCAP = TYPE_MASK_OCAP)"

definition new_Revocation :: "mht_key_t \<Rightarrow> mht_key_t \<Rightarrow> mht_key_t \<Rightarrow> int \<Rightarrow> int \<Rightarrow> revocation result" where
  "new_Revocation cap parent origin awaited tid =
     (if generic_key cap \<and> generic_key parent \<and> generic_key origin
      then Inr \<lparr>rv_capID = cap, rv_parent = parent, rv_origin = origin, rv_awaitedResp = awaited,
                rv_tid = tid, rv_subs = []\<rparr>
      else Inl Assert_failed)"

definition rev_add :: "mht_key_t \<Rightarrow> mht_key_t \<Rightarrow> mht_key_t \<Rightarrow> kernel \<Rightarrow> kernel result" where
  "rev_add cap parent origin k =
     (if list_ex (\<lambda>r. rv_capID r = cap) (k_revs k) then Inl Panic
      else rbind (new_Revocation cap parent origin 0 (if origin = cap then k_tid k else -1))
        (\<lambda>r. Inr (k\<lparr>k_revs := k_revs k @ [r]\<rparr>)))"

definition rev_key :: "mht_key_t \<Rightarrow> mht_key_t" where
  "rev_key cap = (if hashToType cap = MAPCAP then cap OR TYPE_MASK_MCAP else cap OR TYPE_MASK_OCAP)"

definition rev_find :: "kernel \<Rightarrow> mht_key_t \<Rightarrow> revocation option" where
  "rev_find k cap = List.find (\<lambda>r. rv_capID r = rev_key cap) (k_revs k)"

definition rev_remove :: "mht_key_t \<Rightarrow> kernel \<Rightarrow> kernel" where
  "rev_remove cap k = k\<lparr>k_revs := remove_first (\<lambda>r. rv_capID r = cap) (k_revs k)\<rparr>"

text \<open>A change of the revocation that a pointer refers to.\<close>

definition rev_mod :: "mht_key_t \<Rightarrow> (revocation \<Rightarrow> revocation) \<Rightarrow> kernel \<Rightarrow> kernel" where
  "rev_mod cap f k = k\<lparr>k_revs := update_first (\<lambda>r. rv_capID r = cap) f (k_revs k)\<rparr>"

definition rev_await :: "mht_key_t \<Rightarrow> int \<Rightarrow> kernel \<Rightarrow> kernel" where
  "rev_await cap n k = rev_mod cap (\<lambda>r. r\<lparr>rv_awaitedResp := rv_awaitedResp r + n\<rparr>) k"

definition rev_subscribe :: "mht_key_t \<Rightarrow> mht_key_t \<Rightarrow> kernel \<Rightarrow> kernel" where
  "rev_subscribe cap sub k = rev_mod cap (\<lambda>r. r\<lparr>rv_subs := rv_subs r @ [sub]\<rparr>) k"

text \<open>\<^verbatim>\<open>notifySubscribers\<close>. The subscriptions of one revocation are visited in order; a subscription is
  dropped if its revocation is found in the list. \<open>fin\<close> handles a subscriber that awaits nothing
  any more, after its own subscribers were notified.\<close>

definition notify_finished :: "revocation \<Rightarrow> kernel \<Rightarrow> kernel result" where
  "notify_finished it k =
     (let parentAuthority = responsibleKrnl (k_mht k) (hashToPeId (rv_parent it)) in
      if rv_tid it \<noteq> -1
      then if rv_capID it = rv_origin it then Inr (emit (Ev_notify (rv_tid it) []) k) else Inl Assert_failed
      else if parentAuthority \<noteq> mi_kid (k_mht k)
      then if rv_parent it \<noteq> 0 then krnl_call parentAuthority (KC_REVOKEFINISH (rv_parent it) (-1) False) k
           else Inl Assert_failed
      else Inr k)"

fun notifySubscribers :: "nat \<Rightarrow> mht_key_t \<Rightarrow> kernel \<Rightarrow> kernel result"
and notify_subs :: "nat \<Rightarrow> mht_key_t \<Rightarrow> mht_key_t list \<Rightarrow> kernel \<Rightarrow> kernel result" where
  "notifySubscribers 0 cap k = Inl Out_of_fuel"
| "notifySubscribers (Suc n) cap k =
     (case List.find (\<lambda>r. rv_capID r = cap) (k_revs k) of
        None \<Rightarrow> Inl Use_after_free
      | Some r \<Rightarrow> notify_subs n cap (rv_subs r) k)"
| "notify_subs n cap [] k = Inr k"
| "notify_subs 0 cap (sub # subs) k = Inl Out_of_fuel"
| "notify_subs (Suc n) cap (sub # subs) k =
     (if list_ex (\<lambda>r. rv_capID r = sub) (k_revs k)
      then (let k = rev_await sub (-1) k in
        rbind (case List.find (\<lambda>r. rv_capID r = sub) (k_revs k) of
                 None \<Rightarrow> Inr k
               | Some it \<Rightarrow>
                   if rv_awaitedResp it = 0
                   then rbind (notifySubscribers n sub k) (notify_finished it)
                   else Inr k)
          (\<lambda>k. notify_subs n cap subs (rev_mod cap (\<lambda>r. r\<lparr>rv_subs := remove_first (\<lambda>x. x = sub) (rv_subs r)\<rparr>) k)))
      else notify_subs n cap subs k)"

section \<open>Services and sessions\<close>

definition find_service :: "kernel \<Rightarrow> nat \<Rightarrow> service option" where
  "find_service k p = List.find (\<lambda>s. sv_ptr s = p) (k_servs k)"

definition mod_service :: "nat \<Rightarrow> (service \<Rightarrow> service) \<Rightarrow> kernel \<Rightarrow> kernel" where
  "mod_service p f k = k\<lparr>k_servs := update_first (\<lambda>s. sv_ptr s = p) f (k_servs k)\<rparr>"

text \<open>Releasing a reference to a service; the last one removes it from the service list.\<close>

definition service_unref :: "nat \<Rightarrow> kernel \<Rightarrow> kernel" where
  "service_unref p k =
     (case find_service k p of
        None \<Rightarrow> k
      | Some s \<Rightarrow> if sv_refs s = 1 then k\<lparr>k_servs := remove_first (\<lambda>s. sv_ptr s = p) (k_servs k)\<rparr>
                 else mod_service p (\<lambda>s. s\<lparr>sv_refs := sv_refs s - 1\<rparr>) k)"

definition srv_send :: "nat \<Rightarrow> srv_cmd \<Rightarrow> srv_closure \<Rightarrow> kernel \<Rightarrow> kernel result" where
  "srv_send p cmd cb k =
     (case find_service k p of
        None \<Rightarrow> Inl Use_after_free
      | Some s \<Rightarrow>
          (let (out, q) = sq_send (cmd, cb) (sv_queue s)
           in Inr (emit_all (map (\<lambda>(cmd, cb). Ev_srv p cmd cb) out)
                (mod_service p (\<lambda>s. s\<lparr>sv_queue := q, sv_refs := sv_refs s + 1\<rparr>) k))))"

text \<open>\<^verbatim>\<open>SessionObject::close\<close>; the lambda of \<^verbatim>\<open>send_and_receive\<close> keeps a reference to the service.\<close>

definition sess_close :: "session_object \<Rightarrow> kernel \<Rightarrow> kernel result" where
  "sess_close so k =
     (case so_srv so of
        None \<Rightarrow> Inl Null_deref
      | Some p \<Rightarrow> (case find_service k p of
          None \<Rightarrow> Inl Use_after_free
        | Some s \<Rightarrow> (case k_vpes k (sv_vpe s) of
            None \<Rightarrow> Inl Use_after_free
          | Some v \<Rightarrow> if v_state v = RUNNING then srv_send p (SRV_CLOSE (so_ident so)) CB_none k else Inr k)))"

definition sess_unref :: "nat \<Rightarrow> kernel \<Rightarrow> kernel result" where
  "sess_unref p k =
     (case k_sess k p of
        None \<Rightarrow> Inl Use_after_free
      | Some so \<Rightarrow>
          if so_refs so = 1
          then rbind (if so_servowned so then Inr k else sess_close so k) (\<lambda>k.
            Inr (let k = k\<lparr>k_sess := (k_sess k)(p := None)\<rparr>
                 in case so_srv so of None \<Rightarrow> k | Some s \<Rightarrow> service_unref s k))
          else Inr (k\<lparr>k_sess := (k_sess k)(p \<mapsto> so\<lparr>so_refs := so_refs so - 1\<rparr>)\<rparr>))"

section \<open>The virtual functions \<open>revoke\<close> of the capabilities\<close>

definition gate_revoke :: "capability \<Rightarrow> int \<Rightarrow> nat \<Rightarrow> kernel \<Rightarrow> kernel result" where
  "gate_revoke c localepid ob k =
     rbind (if localepid \<noteq> -1
            then rbind (pe_vpe k (fst (c_tbl c)))
              (\<lambda>v. Inr (emit (Ev_dtu (DTU_invalidate_ep (v_id v) (nat localepid))) k))
            else Inr k)
       (\<lambda>k. case k_objs k ob of
          None \<Rightarrow> Inl Use_after_free
        | Some o' \<Rightarrow>
            (let k = (if keyLocality (k_mht k) (mo_id o') \<and> mo_refs o' = 1
                      then k\<lparr>k_mem := revokeAction o' (k_mem k)\<rparr> else k)
             in obj_unref ob k))"

definition map_revoke :: "capability \<Rightarrow> kernel \<Rightarrow> kernel result" where
  "map_revoke c k =
     rbind (pe_vpe k (fst (c_tbl c))) (\<lambda>v. Inr (emit (Ev_dtu (DTU_unmap_page (v_id v) (map_addr (c_sel c)))) k))"

definition sess_revoke :: "nat \<Rightarrow> kernel \<Rightarrow> kernel result" where
  "sess_revoke ob k =
     (case k_sess k ob of
        None \<Rightarrow> Inl Use_after_free
      | Some so \<Rightarrow> rbind (if so_servowned so \<and> so_refs so = 2 then sess_close so k else Inr k) (sess_unref ob))"

definition serv_revoke :: "capability \<Rightarrow> nat \<Rightarrow> kernel \<Rightarrow> (code \<times> kernel) result" where
  "serv_revoke c p k =
     (case find_service k p of
        None \<Rightarrow> Inl Null_deref
      | Some s \<Rightarrow>
          (let k = mod_service p (\<lambda>s. s\<lparr>sv_closing := True\<rparr>) k
           in Inr (if sq_inflight (sv_queue s) + sq_pending (sv_queue s) > 0 \<or> (c_children c \<noteq> [] \<and> \<not> sv_closing s)
                   then MSGS_WAITING else NO_ERROR, k)))"

text \<open>\<^verbatim>\<open>delete c\<close> of a capability whose \<^verbatim>\<open>revoke\<close> was called: only the service reference is still held.\<close>

definition delete_cap :: "capability \<Rightarrow> kernel \<Rightarrow> kernel" where
  "delete_cap c k = (case c_kind c of ServCap p \<Rightarrow> service_unref p k | _ \<Rightarrow> k)"

definition table_unset :: "nat \<times> crd_type \<Rightarrow> capsel_t \<Rightarrow> kernel \<Rightarrow> kernel result" where
  "table_unset tbl i k =
     (case k_table k (fst tbl) (snd tbl) of
        None \<Rightarrow> Inl Use_after_free
      | Some ct \<Rightarrow> (case treap_find (ct_caps ct) i of
          None \<Rightarrow> Inr k
        | Some c \<Rightarrow> rbind (treap_remove i (ct_caps ct)) (\<lambda>caps.
            Inr (delete_cap c (mod_table tbl (\<lambda>ct. ct\<lparr>ct_caps := caps\<rparr>) k)))))"

section \<open>Detaching the receive buffers of a VPE\<close>

definition reply_to_vpe :: "nat \<Rightarrow> reply_info \<Rightarrow> code \<Rightarrow> stream \<Rightarrow> kernel \<Rightarrow> kernel result" where
  "reply_to_vpe i rinfo err payload k =
     (case k_vpes k i of None \<Rightarrow> Inl Use_after_free | Some v \<Rightarrow> Inr (emit (Ev_reply_to i rinfo err payload) k))"

text \<open>The callbacks on the wait list of a receive buffer, called with \<^verbatim>\<open>false\<close>.\<close>

fun waiters_gone :: "rb_waiter list \<Rightarrow> kernel \<Rightarrow> kernel result" where
  "waiters_gone [] k = Inr k"
| "waiters_gone (w # ws) k =
     rbind (case w of
              RB_activate i _ _ _ rinfo \<Rightarrow> reply_to_vpe i rinfo RECV_GONE [] k
            | RB_remote kid tid \<Rightarrow> krnl_call kid (KC_RECVBUFATTACHED tid RECV_GONE) k)
       (waiters_gone ws)"

definition detach_rbuf :: "vpe \<Rightarrow> nat \<Rightarrow> kernel \<Rightarrow> kernel result" where
  "detach_rbuf v ep k =
     rbind (rb_detach (v_core v) ep (k_rbufs k)) (\<lambda>(cfgs, ws, rbs).
       waiters_gone ws (emit_all (map (\<lambda>c. Ev_dtu (DTU_config_recv (v_id v) c)) cfgs) (k\<lparr>k_rbufs := rbs\<rparr>)))"

fun detach_rbufs_from :: "vpe \<Rightarrow> nat list \<Rightarrow> kernel \<Rightarrow> kernel result" where
  "detach_rbufs_from v [] k = Inr k"
| "detach_rbufs_from v (ep # eps) k = rbind (detach_rbuf v ep k) (detach_rbufs_from v eps)"

definition detach_rbufs :: "vpe \<Rightarrow> kernel \<Rightarrow> kernel result" where
  "detach_rbufs v k = detach_rbufs_from v [0..<EP_COUNT] k"

section \<open>Revocation\<close>

text \<open>Sequencing of steps that may fault or block.\<close>

type_synonym 'a step = "('a outcome \<times> kernel) result"

definition kbind :: "'a step \<Rightarrow> ('a \<Rightarrow> kernel \<Rightarrow> 'b step) \<Rightarrow> 'b step" where
  "kbind m f =
     (case m of
        Inl e \<Rightarrow> Inl e
      | Inr (Blocked, k) \<Rightarrow> Inr (Blocked, k)
      | Inr (Returns x, k) \<Rightarrow> f x k)"

definition lift :: "kernel result \<Rightarrow> unit step" where
  "lift m = rbind m (\<lambda>k. Inr (Returns (), k))"

lemma kbind_simps [simp]:
  "kbind (Inl e) f = Inl e" "kbind (Inr (Blocked, k)) f = Inr (Blocked, k)" "kbind (Inr (Returns x, k)) f = f x k"
  by (simp_all add: kbind_def)

lemma lift_simps [simp]: "lift (Inl e) = Inl e" "lift (Inr k) = Inr (Returns (), k)"
  by (simp_all add: lift_def)

definition generic_id :: "crd_type \<Rightarrow> mht_key_t \<Rightarrow> mht_key_t" where
  "generic_id t key = (case t of OBJ \<Rightarrow> key OR TYPE_MASK_OCAP | MAP \<Rightarrow> key OR TYPE_MASK_MCAP)"

text \<open>\<^verbatim>\<open>if(!ongoing) ongoing = RevocationList::get().add(id, parent, origin);\<close>\<close>

definition ensure_ongoing :: "bool \<Rightarrow> mht_key_t \<Rightarrow> mht_key_t \<Rightarrow> mht_key_t \<Rightarrow> kernel \<Rightarrow> kernel result" where
  "ensure_ongoing ongoing cid parent origin k = (if ongoing then Inr k else rev_add cid parent origin k)"

definition awaited_of :: "mht_key_t \<Rightarrow> kernel \<Rightarrow> int" where
  "awaited_of cid k = (case List.find (\<lambda>r. rv_capID r = cid) (k_revs k) of None \<Rightarrow> 0 | Some r \<Rightarrow> rv_awaitedResp r)"

text \<open>The end of the revocation at its root: the parent drops its child pointer.\<close>

definition drop_from_parent :: "mht_key_t \<Rightarrow> mht_key_t \<Rightarrow> kernel \<Rightarrow> kernel result" where
  "drop_from_parent cid parent k =
     (if parent AND NOT TYPE_MASK_CAP = 0 then Inr k
      else (let parentAuthority = responsibleKrnl (k_mht k) (hashToPeId parent) in
        if parentAuthority = mi_kid (k_mht k)
        then rbind (mht_get k parent) (\<lambda>d.
          case get_cap_data parent d of
            None \<Rightarrow> Inl Null_deref
          | Some p \<Rightarrow> Inr (mod_cap (c_tbl p) (c_sel p) (removeChildAllTypes cid) k))
        else krnl_call parentAuthority (KC_REMOVECHILDCAPPTR parent 1 cid 1) k))"

text \<open>What the thread of the root does after its wait.\<close>

definition revoke_resumed :: "nat \<Rightarrow> mht_key_t \<Rightarrow> mht_key_t \<Rightarrow> kernel \<Rightarrow> kernel result" where
  "revoke_resumed n cid parent k =
     rbind (notifySubscribers n cid k) (\<lambda>k. drop_from_parent cid parent (rev_remove cid k))"

text \<open>After the loop over the children.\<close>

definition revoke_end :: "nat \<Rightarrow> mht_key_t \<Rightarrow> mht_key_t \<Rightarrow> mht_key_t \<Rightarrow> bool \<Rightarrow> kernel \<Rightarrow> int step" where
  "revoke_end n cid parent origin ongoing k =
     (if cid = origin
      then if ongoing
        then if awaited_of cid k > 0 then Inr (Blocked, k)
             else kbind (lift (revoke_resumed n cid parent k)) (\<lambda>_ k. Inr (Returns 0, k))
        else kbind (lift (drop_from_parent cid parent k)) (\<lambda>_ k. Inr (Returns 0, k))
      else Inr (Returns (if ongoing then awaited_of cid k else 0), k))"

text \<open>
  The functions of the recursion take the functions they call as arguments; the fuel is introduced
  where the recursion is closed, below. In \<open>revoke_rec_body\<close>, \<^verbatim>\<open>c\<close> is passed as the object it points to;
  \<open>detached\<close> says that \<^verbatim>\<open>revoke_all\<close> has already taken it out of its table. If the call of \<^verbatim>\<open>c->revoke()\<close> has
  deleted a capability that was still in its table, the following \<^verbatim>\<open>c->table()\<close> reads freed memory.
\<close>

fun revoke_children ::
  "(capability \<Rightarrow> kernel \<Rightarrow> int step) \<Rightarrow> mht_key_t list \<Rightarrow> mht_key_t \<Rightarrow> mht_key_t \<Rightarrow> mht_key_t \<Rightarrow> bool \<Rightarrow> kernel \<Rightarrow> bool step" where
  "revoke_children rec [] cid parent origin ongoing k = Inr (Returns ongoing, k)"
| "revoke_children rec (it # its) cid parent origin ongoing k =
     (let authority = responsibleMember (k_mht k) it in
      if authority = mi_kid (k_mht k)
      then kbind (rbind (mht_get k it) (\<lambda>d. case get_cap_data it d of
             None \<Rightarrow> Inl Null_deref
           | Some c \<Rightarrow> rec c k)) (\<lambda>add k.
             if add \<noteq> 0
             then kbind (lift (rbind (ensure_ongoing ongoing cid parent origin k) (\<lambda>k.
                    case rev_find k it of
                      None \<Rightarrow> Inl Null_deref
                    | Some r \<Rightarrow> Inr (rev_subscribe (rv_capID r) cid (rev_await cid add k)))))
                  (\<lambda>_ k. revoke_children rec its cid parent origin True k)
             else revoke_children rec its cid parent origin ongoing k)
      else kbind (lift (rbind (ensure_ongoing ongoing cid parent origin k)
               (\<lambda>k. krnl_call authority (KC_REVOKE it cid origin) (rev_await cid 1 k))))
             (\<lambda>_ k. revoke_children rec its cid parent origin True k))"

text \<open>The virtual call \<^verbatim>\<open>c->revoke()\<close>.\<close>

definition cap_revoke :: "(nat \<Rightarrow> kernel \<Rightarrow> unit step) \<Rightarrow> capability \<Rightarrow> kernel \<Rightarrow> code step" where
  "cap_revoke unref c k =
     (case c_kind c of
        MsgCap localepid ob _ \<Rightarrow> kbind (lift (gate_revoke c localepid ob k)) (\<lambda>_ k. Inr (Returns NO_ERROR, k))
      | MemCap localepid ob _ \<Rightarrow> kbind (lift (gate_revoke c localepid ob k)) (\<lambda>_ k. Inr (Returns NO_ERROR, k))
      | MapCap _ _ \<Rightarrow> kbind (lift (map_revoke c k)) (\<lambda>_ k. Inr (Returns NO_ERROR, k))
      | SessCap ob \<Rightarrow> kbind (lift (sess_revoke ob k)) (\<lambda>_ k. Inr (Returns NO_ERROR, k))
      | ServCap p \<Rightarrow> rbind (serv_revoke c p k) (\<lambda>(res, k). Inr (Returns res, k))
      | VPECap None _ \<Rightarrow> Inl Null_deref
      | VPECap (Some i) _ \<Rightarrow> kbind (unref i k) (\<lambda>_ k. Inr (Returns NO_ERROR, k)))"

definition unset_revoked :: "bool \<Rightarrow> capability \<Rightarrow> kernel \<Rightarrow> unit step" where
  "unset_revoked detached c k =
     (if detached then Inr (Returns (), k)
      else case k_cap k (c_tbl c) (c_sel c) of
        None \<Rightarrow> Inl Use_after_free
      | Some c' \<Rightarrow> if c_ptr c' = c_ptr c then lift (table_unset (c_tbl c) (c_sel c) k) else Inl Use_after_free)"

definition revoke_rec_body ::
  "(nat \<Rightarrow> kernel \<Rightarrow> unit step) \<Rightarrow> (capability \<Rightarrow> kernel \<Rightarrow> int step) \<Rightarrow> nat \<Rightarrow>
   bool \<Rightarrow> capability \<Rightarrow> mht_key_t \<Rightarrow> crd_type \<Rightarrow> kernel \<Rightarrow> int step" where
  "revoke_rec_body unref rec n detached c origin t k =
     (let parent = generic_id t (c_parent c); cid = generic_id t (c_id c);
          k = mod_cap (c_tbl c) (c_sel c) (\<lambda>c. c\<lparr>c_children := []\<rparr>) k
      in kbind (cap_revoke unref (c\<lparr>c_children := []\<rparr>) k) (\<lambda>res k.
        if res \<noteq> NO_ERROR then Inl Shutdown
        else kbind (unset_revoked detached c k) (\<lambda>_ k.
          kbind (revoke_children rec (c_children c) cid parent origin False k) (\<lambda>ongoing k.
            revoke_end n cid parent origin ongoing k))))"

text \<open>\<^verbatim>\<open>PEManager::remove\<close> with the destructor of the VPE.\<close>

definition vpe_remove :: "(nat \<times> crd_type \<Rightarrow> kernel \<Rightarrow> unit step) \<Rightarrow> vpe \<Rightarrow> kernel \<Rightarrow> unit step" where
  "vpe_remove rev_all v k =
     (let i = v_id v in
      kbind (lift (detach_rbufs v (emit (Ev_dtu (DTU_invalidate_eps i 0)) k))) (\<lambda>_ k.
        kbind (rev_all (i, OBJ) (mod_vpe i (\<lambda>v. v\<lparr>v_requires := []\<rparr>) k)) (\<lambda>_ k.
          kbind (rev_all (i, MAP) k) (\<lambda>_ k.
            kbind (lift (case v_as v of
                     None \<Rightarrow> Inr k
                   | Some a \<Rightarrow> rbind (main_free (as_rootpt a) (k_mem k))
                       (\<lambda>mem. Inr ((emit (Ev_dtu (DTU_suspend i)) k)\<lparr>k_mem := mem\<rparr>)))) (\<lambda>_ k.
              let k = (emit (Ev_dtu (DTU_unset_vpeid i)) k)\<lparr>k_vpes := (k_vpes k)(i := None)\<rparr> in
              if v_flags v AND VPE_DAEMON \<noteq> 0 \<and> k_daemons k = 0 \<or> k_count k = 0 then Inl Assert_failed
              else Inr (Returns (), k\<lparr>k_daemons := if v_flags v AND VPE_DAEMON \<noteq> 0 then k_daemons k - 1 else k_daemons k,
                                     k_count := k_count k - 1\<rparr>))))))"

fun revoke_rec :: "nat \<Rightarrow> bool \<Rightarrow> mht_key_t \<Rightarrow> crd_type \<Rightarrow> capability \<Rightarrow> kernel \<Rightarrow> int step"
and vpe_unref :: "nat \<Rightarrow> nat \<Rightarrow> kernel \<Rightarrow> unit step"
and revoke_all :: "nat \<Rightarrow> nat \<times> crd_type \<Rightarrow> kernel \<Rightarrow> unit step" where
  "revoke_rec 0 detached origin t c k = Inl Out_of_fuel"
| "revoke_rec (Suc n) detached origin t c k =
     revoke_rec_body (\<lambda>i k. vpe_unref n i k) (\<lambda>c k. revoke_rec n False origin t c k) n detached c origin t k"
| "vpe_unref 0 i k = Inl Out_of_fuel"
| "vpe_unref (Suc n) i k =
     (case k_vpes k i of
        None \<Rightarrow> Inl Use_after_free
      | Some v \<Rightarrow>
          (if v_refs v - 1 = 1
           then vpe_remove (\<lambda>tbl k. revoke_all n tbl k) v (mod_vpe i (\<lambda>v. v\<lparr>v_refs := v_refs v - 1\<rparr>) k)
           else Inr (Returns (), mod_vpe i (\<lambda>v. v\<lparr>v_refs := v_refs v - 1\<rparr>) k)))"
| "revoke_all 0 tbl k = Inl Out_of_fuel"
| "revoke_all (Suc n) tbl k =
     (case k_table k (fst tbl) (snd tbl) of
        None \<Rightarrow> Inl Use_after_free
      | Some ct \<Rightarrow> rbind (treap_remove_root (ct_caps ct)) (\<lambda>(r, caps).
          case r of
            None \<Rightarrow> Inr (Returns (), k)
          | Some (_, c) \<Rightarrow>
              kbind (revoke_rec n True (generic_id (snd tbl) (c_id c)) (snd tbl) c (mod_table tbl (\<lambda>ct. ct\<lparr>ct_caps := caps\<rparr>) k))
                (\<lambda>_ k. revoke_all n tbl (delete_cap c k))))"

section \<open>Entry points\<close>

text \<open>\<^verbatim>\<open>CapTable::revoke(c, capID, origin)\<close>. If the capability is gone but its revocation is still going on,
  the caller subscribes to it; the subscriber is a revocation that is not entered into the list.\<close>

definition table_revoke ::
  "nat \<Rightarrow> nat \<times> crd_type \<Rightarrow> capability option \<Rightarrow> mht_key_t \<Rightarrow> mht_key_t \<Rightarrow> kernel \<Rightarrow> int step" where
  "table_revoke n tbl c capID origin k =
     (let origin = generic_id (snd tbl) origin in
      case c of
        Some c \<Rightarrow> revoke_rec n False origin (snd tbl) c k
      | None \<Rightarrow>
          (let capID = generic_id (snd tbl) capID in
           case rev_find k capID of
             None \<Rightarrow> Inr (Returns 0, k)
           | Some r \<Rightarrow>
               rbind (new_Revocation capID (rv_parent r) origin 1 (if capID = origin then k_tid k else -1))
                 (\<lambda>s. let k = rev_subscribe (rv_capID r) (rv_capID s) k
                      in if capID = origin then Inr (Blocked, k) else Inr (Returns 1, k))))"

text \<open>\<^verbatim>\<open>CapTable::revoke(crd, own)\<close> from index \<open>i\<close> of the range on. The identifier of a missing capability is
  built from the table type.\<close>

definition crd_cap_id :: "nat \<times> crd_type \<Rightarrow> capability option \<Rightarrow> capsel_t \<Rightarrow> mht_key_t" where
  "crd_cap_id tbl c sel =
     (case c of
        Some c \<Rightarrow> c_id c
      | None \<Rightarrow> structured_hash (word_of_nat (fst tbl)) (word_of_nat (fst tbl))
          (if snd tbl = MAP then GENERICOCAP else MAPCAP) sel)"

fun crd_revoke_from :: "nat \<Rightarrow> nat \<times> crd_type \<Rightarrow> capsel_t list \<Rightarrow> bool \<Rightarrow> kernel \<Rightarrow> code step" where
  "crd_revoke_from n tbl [] own k = Inr (Returns NO_ERROR, k)"
| "crd_revoke_from n tbl (sel # sels) own k =
     (let c = k_cap k tbl sel in
      if own
      then kbind (table_revoke n tbl c (crd_cap_id tbl c sel) (crd_cap_id tbl c sel) k)
             (\<lambda>_ k. crd_revoke_from n tbl sels own k)
      else if c \<noteq> None then Inl Panic
      else crd_revoke_from n tbl sels own k)"

definition crd_revoke :: "nat \<Rightarrow> nat \<times> crd_type \<Rightarrow> cap_rng \<Rightarrow> bool \<Rightarrow> kernel \<Rightarrow> code step" where
  "crd_revoke n tbl crd own k =
     crd_revoke_from n tbl (map (\<lambda>i. word_of_nat i + crd_start crd) [0..<unat (crd_count crd)]) own k"

text \<open>\<^verbatim>\<open>MHTInstance::get\<close> for any key: for a key of another kernel the thread sends a request and waits.\<close>

definition mht_fetch :: "mht_key_t \<Rightarrow> kernel \<Rightarrow> mht_data step" where
  "mht_fetch key k =
     (let authority = responsibleMember (k_mht k) key in
      if authority = mi_kid (k_mht k) then rbind (mht_get k key) (\<lambda>d. Inr (Returns d, k))
      else kbind (lift (krnl_call authority (KC_MHTGET (k_tid k) key) k)) (\<lambda>_ k. Inr (Blocked, k)))"

text \<open>\<^verbatim>\<open>KernelcallHandler::revoke\<close> and \<^verbatim>\<open>KernelcallHandler::revokeFinish\<close>; \<open>sender\<close> is the label of the message. An item
  of a partition that is no capability and no service counts as empty.\<close>

definition kc_revoke :: "nat \<Rightarrow> krnl_id_t \<Rightarrow> mht_key_t \<Rightarrow> mht_key_t \<Rightarrow> mht_key_t \<Rightarrow> kernel \<Rightarrow> unit step" where
  "kc_revoke n sender capID parent originCap k =
     kbind (kbind (mht_fetch capID k) (\<lambda>d k.
              if d = IT_service None \<or> d = IT_item
              then rbind (pe_vpe k (unat (hashToVpeId capID))) (\<lambda>_.
                     table_revoke n (unat (hashToVpeId capID), if hashToType capID = MAPCAP then MAP else OBJ)
                       None capID originCap k)
              else (case get_cap_data capID d of
                      None \<Rightarrow> Inl Null_deref
                    | Some c \<Rightarrow> table_revoke n (c_tbl c) (Some c) capID originCap k)))
       (\<lambda>awaited k. lift (if awaited = 0 then krnl_call sender (KC_REVOKEFINISH parent (-1) True) k
                         else krnl_call sender KC_REPLY k))"

definition kc_revokeFinish :: "nat \<Rightarrow> krnl_id_t \<Rightarrow> mht_key_t \<Rightarrow> int \<Rightarrow> bool \<Rightarrow> kernel \<Rightarrow> kernel result" where
  "kc_revokeFinish n sender initiator awaits includeReply k =
     rbind (if includeReply
            then rbind (getKPE sender (k_mht k)) (\<lambda>_. Inr (emit (Ev_received sender) k)) else Inr k) (\<lambda>k.
       case rev_find k initiator of
         None \<Rightarrow> Inl Null_deref
       | Some r \<Rightarrow>
           rbind (let k = rev_await (rv_capID r) awaits k in
                  if rv_awaitedResp r + awaits \<noteq> 0 then Inr k
                  else if rv_capID r = rv_origin r then Inr (emit (Ev_notify (rv_tid r) []) k)
                  else rbind (notifySubscribers n (rv_capID r) k) (\<lambda>k.
                    let parentAuthority = responsibleKrnl (k_mht k) (hashToPeId (rv_parent r)) in
                    rbind (if parentAuthority \<noteq> mi_kid (k_mht k)
                           then krnl_call parentAuthority (KC_REVOKEFINISH (rv_parent r) (-1) False) k else Inr k)
                      (\<lambda>k. Inr (rev_remove (rv_capID r) k))))
             (krnl_call sender KC_REPLY))"

text \<open>\<^verbatim>\<open>KernelcallHandler::removeChildCapPtr\<close>.\<close>

fun remove_child_ptrs :: "mht_key_t list \<Rightarrow> mht_key_t \<Rightarrow> mht_key_t \<Rightarrow> kernel \<Rightarrow> unit step" where
  "remove_child_ptrs [] parentStart childStart k = Inr (Returns (), k)"
| "remove_child_ptrs (i # is) parentStart childStart k =
     kbind (mht_fetch (parentStart + i) k) (\<lambda>d k.
       if d = IT_cap None \<or> d = IT_service None \<or> d = IT_item then remove_child_ptrs is parentStart childStart k
       else (case get_cap_data (parentStart + i) d of
               None \<Rightarrow> Inl Null_deref
             | Some p \<Rightarrow> remove_child_ptrs is parentStart childStart
                 (mod_cap (c_tbl p) (c_sel p) (removeChildAllTypes (childStart + i)) k)))"

definition kc_removeChildCapPtr :: "krnl_id_t \<Rightarrow> mht_key_t \<Rightarrow> u32 \<Rightarrow> mht_key_t \<Rightarrow> u32 \<Rightarrow> kernel \<Rightarrow> unit step" where
  "kc_removeChildCapPtr sender parentStart parentCount childStart childCount k =
     (if parentCount \<noteq> childCount then lift (krnl_call sender KC_REPLY k)
      else kbind (remove_child_ptrs (map word_of_nat [0..<unat parentCount]) parentStart childStart k)
        (\<lambda>_ k. lift (krnl_call sender KC_REPLY k)))"

end
