(* ===== verification/Revocation_Correct.thy ===== *)
theory Revocation_Correct
  imports Revocation
begin

unbundle bit_operations_syntax

text \<open>
  Correctness of the revocation of gate and memory capabilities: what the routines of theory
  \<open>Revocation\<close> do to the capability trees, the object store, the list of ongoing revocations and the
  messages to other kernels.
\<close>

section \<open>Removing one capability\<close>

definition is_gate :: "capability \<Rightarrow> bool" where
  "is_gate c \<longleftrightarrow> kind_obj (c_kind c) \<noteq> None"

text \<open>The calls to other kernels among the logged events.\<close>

definition krnl_msgs :: "kernel \<Rightarrow> (krnl_id_t \<times> krnl_msg) list" where
  "krnl_msgs k = concat (map (\<lambda>e. case e of Ev_krnl kid msg \<Rightarrow> [(kid, msg)] | _ \<Rightarrow> []) (k_log k))"

lemma krnl_msgs_emit [simp]:
  "krnl_msgs (emit (Ev_dtu d) k) = krnl_msgs k" "krnl_msgs (emit (Ev_notify t m) k) = krnl_msgs k"
  "krnl_msgs (emit (Ev_krnl kid msg) k) = krnl_msgs k @ [(kid, msg)]"
  "krnl_msgs (emit (Ev_received kid) k) = krnl_msgs k"
  by (simp_all add: krnl_msgs_def)

lemma krnl_msgs_cong: "k_log k' = k_log k \<Longrightarrow> krnl_msgs k' = krnl_msgs k"
  by (simp add: krnl_msgs_def)

text \<open>What removing capabilities leaves alone.\<close>

definition same_but_caps :: "kernel \<Rightarrow> kernel \<Rightarrow> bool" where
  "same_but_caps k k' \<longleftrightarrow> k_mht k' = k_mht k \<and> k_tid k' = k_tid k \<and> k_servs k' = k_servs k \<and> k_sess k' = k_sess k \<and>
     (\<forall>i. k_vpes k' i = None \<longleftrightarrow> k_vpes k i = None) \<and> k_next k' = k_next k"

lemma same_but_caps_refl [simp]: "same_but_caps k k"
  by (simp add: same_but_caps_def)

lemma same_but_caps_trans: "same_but_caps k k' \<Longrightarrow> same_but_caps k' k'' \<Longrightarrow> same_but_caps k k''"
  by (simp add: same_but_caps_def)

lemma caps_invD:
  assumes "caps_inv k" "k_cap k tbl sel = Some c"
  shows "cap_wf tbl sel c" "c_ptr c < k_next k" "fst tbl < MAX_PES" "c_tbl c = tbl" "c_sel c = sel"
    "c_id c = cap_key (fst tbl) (c_kind c) sel" "c_type c = kind_type (c_kind c)"
proof -
  show wf: "cap_wf tbl sel c" "c_ptr c < k_next k" using assms unfolding caps_inv_def by blast+
  have "k_vpes k (fst tbl) \<noteq> None" using assms(2) by (auto simp: k_cap_def split: option.splits)
  then show "fst tbl < MAX_PES" using assms(1) unfolding caps_inv_def by blast
  show "c_tbl c = tbl" "c_sel c = sel" "c_id c = cap_key (fst tbl) (c_kind c) sel" "c_type c = kind_type (c_kind c)"
    using wf by (simp_all add: cap_wf_def)
qed

lemma caps_inv_obj:
  assumes "caps_inv k" "k_cap k tbl sel = Some c" "kind_obj (c_kind c) = Some p"
  obtains ob where "k_objs k p = Some ob" "(tbl, sel) \<in> refs_to k p" "mo_refs ob = card (refs_to k p)"
    "finite (refs_to k p)"
proof -
  have m: "(tbl, sel) \<in> refs_to k p" using assms by (auto simp: refs_to_def)
  have c: "card (refs_to k p) = (case k_objs k p of None \<Rightarrow> 0 | Some ob \<Rightarrow> mo_refs ob)" "finite (refs_to k p)"
    using assms(1) unfolding caps_inv_def by blast+
  then have "card (refs_to k p) \<noteq> 0" using m by (metis card_eq_0_iff empty_iff)
  then show ?thesis using that c m by (cases "k_objs k p") auto
qed

text \<open>Taking a gate capability out of its table, once its object has lost one reference.\<close>

lemma table_unset_ok:
  assumes "tables_ok k" "k_cap k tbl sel = Some c" "\<And>p. c_kind c \<noteq> ServCap p"
  shows "\<exists>k'. table_unset tbl sel k = Inr k' \<and> tables_ok k' \<and>
    k_cap k' = (\<lambda>tbl' sel'. if tbl' = tbl \<and> sel' = sel then None else k_cap k tbl' sel') \<and>
    k_objs k' = k_objs k \<and> k_revs k' = k_revs k \<and> k_log k' = k_log k \<and> k_mem k' = k_mem k \<and> same_but_caps k k'"
proof -
  obtain ct where ct: "k_table k (fst tbl) (snd tbl) = Some ct" and f: "treap_find (ct_caps ct) sel = Some c"
    using assms(2) by (auto simp: k_cap_table split: option.splits)
  obtain caps where caps: "treap_remove sel (ct_caps ct) = Inr caps" "treap_inv caps"
      "treap_find caps = (treap_find (ct_caps ct))(sel := None)"
    by (rule treap_remove_present [OF conjunct1 [OF tables_okD [OF assms(1) ct]] f])
  let ?k = "mod_table tbl (\<lambda>ct. ct\<lparr>ct_caps := caps\<rparr>) k"
  have "delete_cap c k' = k'" for k' using assms(3) by (auto simp: delete_cap_def split: cap_kind.splits)
  then have eq: "table_unset tbl sel k = Inr ?k" by (simp add: table_unset_def ct f caps)
  have ok: "tables_ok ?k" by (rule tables_ok_mod_table [OF assms(1)]) (simp add: caps)
  have cap: "k_cap ?k = (\<lambda>tbl' sel'. if tbl' = tbl \<and> sel' = sel then None else k_cap k tbl' sel')"
    by (intro ext) (auto simp: k_cap_mod_table ct caps k_cap_table [of k tbl])
  show ?thesis
    using eq ok cap by (auto simp: same_but_caps_def k_vpes_mod_table_None)
qed

lemma gate_revoke_ok:
  assumes "k_vpes k (fst (c_tbl c)) \<noteq> None" "k_objs k p = Some ob"
  shows "\<exists>k1. gate_revoke c localepid p k = Inr k1 \<and> k_vpes k1 = k_vpes k \<and>
    k_objs k1 = (k_objs k)(p := if mo_refs ob = 1 then None else Some (ob\<lparr>mo_refs := mo_refs ob - 1\<rparr>)) \<and>
    k_mem k1 = (if keyLocality (k_mht k) (mo_id ob) \<and> mo_refs ob = 1 then revokeAction ob (k_mem k) else k_mem k) \<and>
    k_revs k1 = k_revs k \<and> krnl_msgs k1 = krnl_msgs k \<and> same_but_caps k k1"
proof -
  obtain v where v: "pe_vpe k (fst (c_tbl c)) = Inr v" using assms(1) by (auto simp: pe_vpe_def)
  define k0 where "k0 = (if localepid \<noteq> -1 then emit (Ev_dtu (DTU_invalidate_ep (v_id v) (nat localepid))) k else k)"
  define k2 where "k2 = (if keyLocality (k_mht k0) (mo_id ob) \<and> mo_refs ob = 1
    then k0\<lparr>k_mem := revokeAction ob (k_mem k0)\<rparr> else k0)"
  have k0: "k_objs k0 = k_objs k" "k_vpes k0 = k_vpes k" "k_mht k0 = k_mht k" "k_mem k0 = k_mem k" "k_revs k0 = k_revs k"
    "krnl_msgs k0 = krnl_msgs k" "same_but_caps k k0"
    by (simp_all add: k0_def same_but_caps_def)
  have k2: "k_objs k2 = k_objs k" "k_vpes k2 = k_vpes k" "k_revs k2 = k_revs k" "krnl_msgs k2 = krnl_msgs k" "same_but_caps k k2"
    "k_mem k2 = (if keyLocality (k_mht k) (mo_id ob) \<and> mo_refs ob = 1 then revokeAction ob (k_mem k) else k_mem k)"
    using k0 by (simp_all add: k2_def same_but_caps_def krnl_msgs_def)
  have "gate_revoke c localepid p k = obj_unref p k2"
    using assms(2) by (simp add: gate_revoke_def v k0_def k2_def Let_def)
  then show ?thesis
    using k2 assms(2) by (auto simp: obj_unref_def same_but_caps_def krnl_msgs_def)
qed

text \<open>The invariant after one gate capability and one reference to its object are gone.\<close>

lemma caps_inv_remove:
  assumes inv: "caps_inv k" and c: "k_cap k tbl sel = Some c" and p: "kind_obj (c_kind c) = Some p" "k_objs k p = Some ob"
    and t: "tables_ok k'" and same: "same_but_caps k k'"
    and caps: "k_cap k' = (\<lambda>tbl' sel'. if tbl' = tbl \<and> sel' = sel then None else k_cap k tbl' sel')"
    and objs: "k_objs k' = (k_objs k)(p := if mo_refs ob = 1 then None else Some (ob\<lparr>mo_refs := mo_refs ob - 1\<rparr>))"
  shows "caps_inv k'"
proof -
  have inv': "\<And>j. k_vpes k j \<noteq> None \<Longrightarrow> j < MAX_PES"
    "\<And>tbl sel c. k_cap k tbl sel = Some c \<Longrightarrow> cap_wf tbl sel c \<and> c_ptr c < k_next k"
    "\<And>p. finite (refs_to k p)" "\<And>p. card (refs_to k p) = (case k_objs k p of None \<Rightarrow> 0 | Some ob \<Rightarrow> mo_refs ob)"
    "\<And>p. k_objs k p \<noteq> None \<Longrightarrow> refs_to k p \<noteq> {} \<and> p < k_next k"
    using inv unfolding caps_inv_def by blast+
  have refs: "refs_to k' q = (if q = p then refs_to k p - {(tbl, sel)} else refs_to k q)" for q
    unfolding refs_to_def caps using c p(1) by auto
  have m: "(tbl, sel) \<in> refs_to k p" using c p by (auto simp: refs_to_def)
  have cp: "card (refs_to k p - {(tbl, sel)}) = mo_refs ob - 1" "card (refs_to k p) = mo_refs ob"
    using inv'(3,4) [of p] m p(2) by simp_all
  have ne: "refs_to k p - {(tbl, sel)} \<noteq> {}" if "mo_refs ob \<noteq> 1"
  proof
    assume e: "refs_to k p - {(tbl, sel)} = {}"
    have "mo_refs ob - 1 = 0" using cp(1) unfolding e by simp
    moreover have "mo_refs ob \<noteq> 0" using cp(2) m inv'(3) [of p] by (metis card_eq_0_iff empty_iff)
    ultimately show False using that by simp
  qed
  show ?thesis
    unfolding caps_inv_def refs
  proof (intro conjI allI impI)
    show "j < MAX_PES" if "k_vpes k' j \<noteq> None" for j using that same inv'(1) [of j] unfolding same_but_caps_def by metis
    show "cap_wf tb s c'" "c_ptr c' < k_next k'" if "k_cap k' tb s = Some c'" for tb s c'
      using that inv'(2) [of tb s c'] same by (auto simp: caps same_but_caps_def split: if_splits)
    show "finite (if q = p then refs_to k p - {(tbl, sel)} else refs_to k q)" for q using inv'(3) by simp
    show "card (if q = p then refs_to k p - {(tbl, sel)} else refs_to k q) =
        (case k_objs k' q of None \<Rightarrow> 0 | Some ob \<Rightarrow> mo_refs ob)" for q
      using cp(1) inv'(4) [of q] by (simp add: objs)
    show "(if q = p then refs_to k p - {(tbl, sel)} else refs_to k q) \<noteq> {}" "q < k_next k'" if "k_objs k' q \<noteq> None" for q
      using that ne inv'(5) [of q] p(2) same by (auto simp: objs same_but_caps_def split: if_splits)
  qed (rule t)
qed

text \<open>The three steps a revocation takes for a gate or memory capability: the child list is
  moved away, the object is released, the slot is cleared.\<close>

lemma revoke_gate:
  assumes inv: "caps_inv k" and c: "k_cap k tbl sel = Some c" and gate: "is_gate c"
  shows "\<exists>k1 k'. cap_revoke unref (c\<lparr>c_children := []\<rparr>) (mod_cap tbl sel (\<lambda>c. c\<lparr>c_children := []\<rparr>) k) = Inr (Returns NO_ERROR, k1) \<and>
    unset_revoked False c k1 = Inr (Returns (), k') \<and> caps_inv k' \<and> same_but_caps k k' \<and>
    k_cap k' = (\<lambda>tbl' sel'. if tbl' = tbl \<and> sel' = sel then None else k_cap k tbl' sel') \<and>
    k_revs k' = k_revs k \<and> krnl_msgs k' = krnl_msgs k"
proof -
  let ?c = "c\<lparr>c_children := []\<rparr>"
  let ?k = "mod_cap tbl sel (\<lambda>c. c\<lparr>c_children := []\<rparr>) k"
  obtain p where p: "kind_obj (c_kind c) = Some p" using gate by (auto simp: is_gate_def)
  obtain ob where ob: "k_objs k p = Some ob" by (rule caps_inv_obj [OF inv c p])
  have inv0: "caps_inv ?k" by (rule caps_inv_mod_cap [OF inv]) simp
  have c0: "k_cap ?k tbl sel = Some ?c" using c by simp
  have tbl: "c_tbl c = tbl" "c_sel c = sel" using caps_invD [OF inv c] by simp_all
  have same0: "same_but_caps k ?k"
    by (simp add: same_but_caps_def) (simp add: mod_cap_def k_vpes_mod_table_None)
  have v0: "k_vpes ?k (fst (c_tbl ?c)) \<noteq> None"
    using c0 by (auto simp: tbl k_cap_def split: option.splits)
  have "k_objs ?k p = Some ob" using ob by simp
  note gr = gate_revoke_ok [OF v0 this]
  obtain localepid oid where "c_kind c = MsgCap localepid p oid \<or> c_kind c = MemCap localepid p oid"
    using p by (cases "c_kind c") auto
  then obtain k1 where k1: "cap_revoke unref ?c ?k = Inr (Returns NO_ERROR, k1)" "k_vpes k1 = k_vpes ?k"
      "k_objs k1 = (k_objs ?k)(p := if mo_refs ob = 1 then None else Some (ob\<lparr>mo_refs := mo_refs ob - 1\<rparr>))"
      "k_revs k1 = k_revs ?k" "krnl_msgs k1 = krnl_msgs ?k" "same_but_caps ?k k1"
    using gr [of localepid] by (auto simp: cap_revoke_def)
  have t1: "tables_ok k1" using inv0 by (simp add: tables_ok_cong [OF k1(2)] caps_inv_def)
  have cap1: "k_cap k1 = k_cap ?k" by (rule k_cap_cong [OF k1(2)])
  then have c1: "k_cap k1 tbl sel = Some ?c" using c0 by simp
  have "\<And>q. c_kind ?c \<noteq> ServCap q" using p by auto
  from table_unset_ok [OF t1 c1 this]
  obtain k' where k': "table_unset tbl sel k1 = Inr k'" "tables_ok k'"
      "k_cap k' = (\<lambda>tbl' sel'. if tbl' = tbl \<and> sel' = sel then None else k_cap k1 tbl' sel')"
      "k_objs k' = k_objs k1" "k_revs k' = k_revs k1" "k_log k' = k_log k1" "same_but_caps k1 k'" by blast
  have caps: "k_cap k' = (\<lambda>tbl' sel'. if tbl' = tbl \<and> sel' = sel then None else k_cap k tbl' sel')"
    unfolding k'(3) cap1 by (auto simp: fun_eq_iff)
  have same: "same_but_caps k k'" using same0 k1(6) k'(7) same_but_caps_trans by blast
  have "caps_inv k'"
    by (rule caps_inv_remove [OF inv c p ob k'(2) same caps]) (use k'(4) k1(3) in simp)
  moreover have "unset_revoked False c k1 = Inr (Returns (), k')"
    using c1 k'(1) by (simp add: unset_revoked_def tbl)
  moreover have "krnl_msgs k' = krnl_msgs k" "k_revs k' = k_revs k"
    using k1(4,5) k'(5,6) by (simp_all add: krnl_msgs_def)
  ultimately show ?thesis using k1(1) caps same by blast
qed

section \<open>Identifiers\<close>

text \<open>The generic identifier of an object capability slot.\<close>

definition slot_id :: "(nat \<times> crd_type) \<times> capsel_t \<Rightarrow> mht_key_t" where
  "slot_id s = structured_hash (word_of_nat (fst (fst s))) (word_of_nat (fst (fst s))) GENERICOCAP (snd s)"

lemma bit_TYPE_MASK_OCAP: "bit TYPE_MASK_OCAP n \<longleftrightarrow> n \<in> {37, 38, 39}"
proof -
  have e: "TYPE_MASK_OCAP = push_bit 37 (mask 3)" by (simp add: TYPE_MASK_OCAP_def ddl_bits mask_eq_exp_minus_1)
  have "bit TYPE_MASK_OCAP n \<longleftrightarrow> 37 \<le> n \<and> n < 64 \<and> n - 37 < 3"
    unfolding e bit_push_bit_iff bit_mask_iff possible_bit_word by auto
  also have "\<dots> \<longleftrightarrow> n \<in> {37, 38, 39}" by auto
  finally show ?thesis .
qed

lemma bit_item_types:
  "bit MSGCAP n \<longleftrightarrow> n = 1" "bit MEMCAP n \<longleftrightarrow> n \<in> {1, 3}" "bit SRVCAP n \<longleftrightarrow> n = 2" "bit SESSCAP n \<longleftrightarrow> n \<in> {1, 2}"
  "bit VPECAP n \<longleftrightarrow> n = 3" "bit GENERICOCAP n \<longleftrightarrow> n \<in> {1, 2, 3}"
proof -
  have "MSGCAP = 2 ^ 1" "MEMCAP = 2 ^ 1 OR 2 ^ 3" "SRVCAP = 2 ^ 2" "SESSCAP = 2 ^ 1 OR 2 ^ 2" "VPECAP = 2 ^ 3"
    "GENERICOCAP = 2 ^ 1 OR 2 ^ 2 OR 2 ^ 3" by (simp_all add: item_type_defs)
  note e = this
  show "bit MSGCAP n \<longleftrightarrow> n = 1" "bit MEMCAP n \<longleftrightarrow> n \<in> {1, 3}" "bit SRVCAP n \<longleftrightarrow> n = 2"
    "bit SESSCAP n \<longleftrightarrow> n \<in> {1, 2}" "bit VPECAP n \<longleftrightarrow> n = 3" "bit GENERICOCAP n \<longleftrightarrow> n \<in> {1, 2, 3}"
    unfolding e bit_or_iff bit_exp_iff by (auto simp: possible_bit_word)
qed

lemma generic_id_cap_key:
  assumes "kind_item kind \<noteq> MAPCAP"
  shows "generic_id OBJ (cap_key i kind sel) = slot_id ((i, t), sel)"
proof (rule bit_eqI)
  fix n
  have "bit (kind_item kind) m \<Longrightarrow> m \<in> {1, 2, 3}" for m
    using assms by (cases kind) (auto simp: bit_item_types)
  then have k: "36 \<le> n \<and> bit (kind_item kind) (n - 36) \<Longrightarrow> bit TYPE_MASK_OCAP n"
    unfolding bit_TYPE_MASK_OCAP by force
  have g: "36 \<le> n \<and> bit GENERICOCAP (n - 36) \<longleftrightarrow> bit TYPE_MASK_OCAP n"
    unfolding bit_TYPE_MASK_OCAP bit_item_types by auto
  have l: "bit TYPE_MASK_OCAP n \<Longrightarrow> n < 64" unfolding bit_TYPE_MASK_OCAP by auto
  show "bit (generic_id OBJ (cap_key i kind sel)) n = bit (slot_id ((i, t), sel)) n"
    unfolding generic_id_def cap_key_def slot_id_def crd_type.case bit_or_iff bit_structured_hash fst_conv snd_conv g
    using k l by blast
qed

lemma generic_key_OCAP: "generic_key (x OR TYPE_MASK_OCAP)"
proof -
  have "bit (hashToType (x OR TYPE_MASK_OCAP)) 1" by (simp add: bit_hash_fields bit_or_iff bit_TYPE_MASK_OCAP)
  moreover have "\<not> bit MAPCAP 1" by (simp add: MAPCAP_def bit_1_iff)
  ultimately have "hashToType (x OR TYPE_MASK_OCAP) \<noteq> MAPCAP" by metis
  then show ?thesis by (auto simp: generic_key_def bit_eq_iff bit_simps)
qed

lemma generic_key_generic [simp]: "generic_key (generic_id OBJ x)"
  by (simp add: generic_id_def generic_key_OCAP)

lemma slot_id_inj:
  assumes "fst (fst s) < MAX_PES" "fst (fst s') < MAX_PES" "slot_id s = slot_id s'"
  shows "fst (fst s) = fst (fst s') \<and> snd s = snd s'"
proof -
  have f: "unat (hashToPeId (slot_id x)) = fst (fst x) \<and> hashToObjId (slot_id x) = snd x"
    if "fst (fst x) < MAX_PES" for x
  proof -
    have u: "unat (word_of_nat (fst (fst x)) :: u16) = fst (fst x)"
      using that by (simp add: MAX_PES_def unsigned_of_nat take_bit_nat_eq_self)
    then have "unat (word_of_nat (fst (fst x)) :: u16) < 2 ^ PE_BITS" "unat (word_of_nat (fst (fst x)) :: u16) < 2 ^ VPE_BITS"
      "unat GENERICOCAP < 2 ^ TYPE_BITS"
      using that by (simp_all add: MAX_PES_def PE_BITS_def VPE_BITS_def TYPE_BITS_def item_type_defs)
    from hash_fields_structured [OF this] u show ?thesis by (simp add: slot_id_def)
  qed
  show ?thesis using f [OF assms(1)] f [OF assms(2)] assms(3) by metis
qed

text \<open>Gate capabilities in the table of an object type.\<close>

lemma gate_item: "is_gate c \<Longrightarrow> kind_item (c_kind c) \<in> {MSGCAP, MEMCAP}"
  by (cases "c_kind c") (auto simp: is_gate_def)

lemma gate_key:
  assumes "caps_inv k" "k_cap k tbl sel = Some c" "is_gate c"
  shows "generic_id OBJ (c_id c) = slot_id (tbl, sel)" "rev_key (c_id c) = slot_id (tbl, sel)" "snd tbl = OBJ"
proof -
  have item: "kind_item (c_kind c) \<noteq> MAPCAP" using gate_item [OF assms(3)] by (auto simp: item_type_defs)
  note d = caps_invD [OF assms(1,2)]
  show gid: "generic_id OBJ (c_id c) = slot_id (tbl, sel)"
    unfolding d(6) using generic_id_cap_key [OF item, of "fst tbl" sel "snd tbl"] by simp
  have "hashToType (c_id c) \<noteq> MAPCAP" unfolding d(6) cap_key_fields [OF d(3)] by (rule item)
  then show "rev_key (c_id c) = slot_id (tbl, sel)" using gid by (simp add: rev_key_def generic_id_def)
  show "snd tbl = OBJ" using d(1) item by (cases "snd tbl") (auto simp: cap_wf_def)
qed

text \<open>The kernel is responsible for the PEs of its VPEs and has their partitions.\<close>

definition vpes_local :: "kernel \<Rightarrow> bool" where
  "vpes_local k \<longleftrightarrow> (\<forall>i key. k_vpes k i \<noteq> None \<longrightarrow> hashToPeId key = word_of_nat i \<longrightarrow>
     findPartition (k_mht k) key \<noteq> None)"

lemma vpes_local_same: "vpes_local k \<Longrightarrow> same_but_caps k k' \<Longrightarrow> vpes_local k'"
  by (simp add: vpes_local_def same_but_caps_def)

lemma gate_lookup:
  assumes "caps_inv k" "vpes_local k" "k_cap k tbl sel = Some c" "is_gate c"
  shows "responsibleMember (k_mht k) (c_id c) = mi_kid (k_mht k)"
    "mht_get k (c_id c) = Inr (IT_cap (Some c))" "get_cap_data (c_id c) (IT_cap x) = x"
proof -
  note d = caps_invD [OF assms(1,3)]
  have obj: "snd tbl = OBJ" using gate_key [OF assms(1,3,4)] by simp
  have v: "k_vpes k (fst tbl) \<noteq> None" using assms(3) by (auto simp: k_cap_def split: option.splits)
  then obtain p where p: "findPartition (k_mht k) (c_id c) = Some p"
    using assms(2) cap_key_fields(1) [OF d(3)] unfolding vpes_local_def d(6) by blast
  then show "responsibleMember (k_mht k) (c_id c) = mi_kid (k_mht k)"
    by (auto simp: findPartition_def split: if_splits)
  have fields: "hashToType (c_id c) = kind_item (c_kind c)" "unat (hashToPeId (c_id c)) = fst tbl" "hashToObjId (c_id c) = sel"
    unfolding d(6) using cap_key_fields [OF d(3)] by simp_all
  have item: "kind_item (c_kind c) \<in> {MSGCAP, MEMCAP}" by (rule gate_item [OF assms(4)])
  then have "kind_item (c_kind c) AND GENERICOCAP \<noteq> 0" by (auto simp: item_type_defs)
  moreover have "(fst tbl, OBJ) = tbl" using obj by (cases tbl) simp
  moreover obtain w where "pe_vpe k (fst tbl) = Inr w" using v by (auto simp: pe_vpe_def)
  ultimately show "mht_get k (c_id c) = Inr (IT_cap (Some c))"
    using assms(3) by (simp add: mht_get_def p fields)
  show "get_cap_data (c_id c) (IT_cap x) = x" using item by (auto simp: get_cap_data_def fields)
qed

section \<open>Ongoing revocations\<close>

definition rlook :: "kernel \<Rightarrow> mht_key_t \<Rightarrow> revocation option" where
  "rlook k key = List.find (\<lambda>r. rv_capID r = key) (k_revs k)"

lemma rlook_capID: "rlook k key = Some r \<Longrightarrow> rv_capID r = key"
  unfolding rlook_def using find_Some_memD by fastforce

lemma rlook_rev_mod:
  "(\<And>r. rv_capID (f r) = rv_capID r) \<Longrightarrow>
   rlook (rev_mod cap f k) key = (if key = cap then map_option f (rlook k cap) else rlook k key)"
  unfolding rlook_def rev_mod_def by (simp add: find_key_update_first)

lemma rlook_await:
  "rlook (rev_await cap n k) key =
     (if key = cap then map_option (\<lambda>r. r\<lparr>rv_awaitedResp := rv_awaitedResp r + n\<rparr>) (rlook k cap) else rlook k key)"
  unfolding rev_await_def by (rule rlook_rev_mod) simp

lemma rlook_subscribe:
  "rlook (rev_subscribe cap sub k) key =
     (if key = cap then map_option (\<lambda>r. r\<lparr>rv_subs := rv_subs r @ [sub]\<rparr>) (rlook k cap) else rlook k key)"
  unfolding rev_subscribe_def by (rule rlook_rev_mod) simp

lemma rlook_cong: "k_revs k' = k_revs k \<Longrightarrow> rlook k' = rlook k"
  by (simp add: rlook_def fun_eq_iff)

lemma rlook_emit [simp]: "rlook (emit e k) = rlook k"
  by (rule rlook_cong) simp

lemma awaited_rlook: "awaited_of cap k = (case rlook k cap of None \<Rightarrow> 0 | Some r \<Rightarrow> rv_awaitedResp r)"
  by (simp add: awaited_of_def rlook_def)

definition new_entry :: "mht_key_t \<Rightarrow> mht_key_t \<Rightarrow> mht_key_t \<Rightarrow> kernel \<Rightarrow> revocation" where
  "new_entry cap parent origin k =
     \<lparr>rv_capID = cap, rv_parent = parent, rv_origin = origin, rv_awaitedResp = 0,
      rv_tid = (if origin = cap then k_tid k else -1), rv_subs = []\<rparr>"

lemma rev_add_ok:
  assumes "generic_key cap" "generic_key parent" "generic_key origin" "rlook k cap = None"
  shows "\<exists>k'. rev_add cap parent origin k = Inr k' \<and> k' = k\<lparr>k_revs := k_revs k'\<rparr> \<and>
    rlook k' = (rlook k)(cap \<mapsto> new_entry cap parent origin k)"
proof -
  let ?k = "k\<lparr>k_revs := k_revs k @ [new_entry cap parent origin k]\<rparr>"
  have "\<not> list_ex (\<lambda>r. rv_capID r = cap) (k_revs k)"
    using assms(4) by (auto simp: rlook_def find_None_iff list_ex_iff)
  then have "rev_add cap parent origin k = Inr ?k"
    using assms(1-3) by (simp add: rev_add_def new_Revocation_def new_entry_def)
  moreover have "rlook ?k = (rlook k)(cap \<mapsto> new_entry cap parent origin k)"
    using assms(4) by (auto simp: rlook_def find_append new_entry_def fun_eq_iff split: option.splits)
  ultimately show ?thesis by (intro exI [of _ ?k]) simp
qed

section \<open>Steps of a revocation\<close>

lemma caps_inv_cong:
  assumes "k_vpes k' = k_vpes k" "k_objs k' = k_objs k" "k_next k' = k_next k"
  shows "caps_inv k' = caps_inv k"
  by (simp add: caps_inv_def assms tables_ok_cong [OF assms(1)] k_cap_cong [OF assms(1)] refs_to_cong [OF assms(1)])

text \<open>A part of a revocation removes the capabilities in \<open>S\<close>, sends the messages \<open>M\<close> and touches only the
  revocation entries with identifiers in \<open>K\<close>.\<close>

definition rstep ::
  "((nat \<times> crd_type) \<times> capsel_t) set \<Rightarrow> (krnl_id_t \<times> krnl_msg) list \<Rightarrow> mht_key_t set \<Rightarrow> kernel \<Rightarrow> kernel \<Rightarrow> bool" where
  "rstep S M K k k' \<longleftrightarrow> caps_inv k' \<and> same_but_caps k k' \<and>
     k_cap k' = (\<lambda>tbl sel. if (tbl, sel) \<in> S then None else k_cap k tbl sel) \<and>
     krnl_msgs k' = krnl_msgs k @ M \<and> (\<forall>key. key \<notin> K \<longrightarrow> rlook k' key = rlook k key)"

lemma rstep_trans:
  "rstep S M K k k' \<Longrightarrow> rstep S' M' K' k' k'' \<Longrightarrow> rstep (S \<union> S') (M @ M') (K \<union> K') k k''"
  unfolding rstep_def using same_but_caps_trans by (auto simp: fun_eq_iff)

lemma rstep_weaken: "rstep S M K k k' \<Longrightarrow> K \<subseteq> K' \<Longrightarrow> rstep S M K' k k'"
  unfolding rstep_def by blast

lemma rstepD:
  assumes "rstep S M K k k'"
  shows "caps_inv k'" "same_but_caps k k'" "k_cap k' tbl sel = (if (tbl, sel) \<in> S then None else k_cap k tbl sel)"
    "krnl_msgs k' = krnl_msgs k @ M" "key \<notin> K \<Longrightarrow> rlook k' key = rlook k key" "k_mht k' = k_mht k" "k_tid k' = k_tid k"
  using assms by (auto simp: rstep_def same_but_caps_def)

text \<open>Changes of the revocation list alone.\<close>

lemma rstep_revs:
  assumes "caps_inv k" "k' = k\<lparr>k_revs := k_revs k'\<rparr>" "\<And>key. key \<noteq> cid \<Longrightarrow> rlook k' key = rlook k key"
  shows "rstep {} [] {cid} k k'"
proof -
  have f: "k_vpes k' = k_vpes k" "k_objs k' = k_objs k" "k_next k' = k_next k" "k_log k' = k_log k" "k_mht k' = k_mht k"
    "k_tid k' = k_tid k" "k_servs k' = k_servs k" "k_sess k' = k_sess k"
    by (subst assms(2), simp)+
  show ?thesis
    unfolding rstep_def using assms(1,3) f
    by (simp add: caps_inv_cong [OF f(1-3)] k_cap_cong [OF f(1)] same_but_caps_def krnl_msgs_def)
qed

definition entry_of :: "mht_key_t \<Rightarrow> mht_key_t \<Rightarrow> mht_key_t \<Rightarrow> kernel \<Rightarrow> revocation" where
  "entry_of cid parent origin k = (case rlook k cid of Some r \<Rightarrow> r | None \<Rightarrow> new_entry cid parent origin k)"

lemma ensure_ongoing_ok:
  assumes "generic_key cid" "generic_key parent" "generic_key origin" "rlook k cid \<noteq> None \<longleftrightarrow> ongoing"
  shows "\<exists>k'. ensure_ongoing ongoing cid parent origin k = Inr k' \<and> k' = k\<lparr>k_revs := k_revs k'\<rparr> \<and>
    rlook k' = (rlook k)(cid \<mapsto> entry_of cid parent origin k)"
proof (cases ongoing)
  case True
  then have "rlook k = (rlook k)(cid \<mapsto> entry_of cid parent origin k)" using assms(4) by (auto simp: entry_of_def)
  then show ?thesis using True by (intro exI [of _ k]) (simp add: ensure_ongoing_def)
next
  case False
  then have "rlook k cid = None" using assms(4) by simp
  then show ?thesis using rev_add_ok [OF assms(1-3)] False by (simp add: ensure_ongoing_def entry_of_def)
qed

section \<open>Capability trees\<close>

text \<open>The tree below a capability: local capabilities with their children, and remote children,
  which are known by their identifier only.\<close>

datatype ctree = Local capability "ctree list" | Remote mht_key_t

fun root_key :: "ctree \<Rightarrow> mht_key_t" where
  "root_key (Local c ts) = c_id c"
| "root_key (Remote x) = x"

fun slots :: "ctree \<Rightarrow> ((nat \<times> crd_type) \<times> capsel_t) list" where
  "slots (Local c ts) = (c_tbl c, c_sel c) # concat (map slots ts)"
| "slots (Remote x) = []"

text \<open>The number of remote children in the tree, and the requests a revocation sends for them.\<close>

fun remote_count :: "ctree \<Rightarrow> nat" where
  "remote_count (Local c ts) = sum_list (map remote_count ts)"
| "remote_count (Remote x) = 1"

fun revoke_msgs :: "unit mht \<Rightarrow> mht_key_t \<Rightarrow> mht_key_t \<Rightarrow> ctree \<Rightarrow> (krnl_id_t \<times> krnl_msg) list" where
  "revoke_msgs s origin p (Local c ts) = concat (map (revoke_msgs s origin (slot_id (c_tbl c, c_sel c))) ts)"
| "revoke_msgs s origin p (Remote x) = [(responsibleMember s x, KC_REVOKE x p origin)]"

fun tree_ok :: "kernel \<Rightarrow> ctree \<Rightarrow> bool" where
  "tree_ok k (Local c ts) \<longleftrightarrow> k_cap k (c_tbl c) (c_sel c) = Some c \<and> is_gate c \<and> c_children c = map root_key ts \<and>
     (\<forall>t\<in>set ts. tree_ok k t)"
| "tree_ok k (Remote x) \<longleftrightarrow> responsibleMember (k_mht k) x \<noteq> mi_kid (k_mht k) \<and>
     (\<exists>p. getKPE (responsibleMember (k_mht k) x) (k_mht k) = Inr p)"

lemma tree_ok_step:
  "tree_ok k t \<Longrightarrow> rstep S M K k k' \<Longrightarrow> set (slots t) \<inter> S = {} \<Longrightarrow> tree_ok k' t"
proof (induction t)
  case (Local c ts)
  have "tree_ok k' t" if "t \<in> set ts" for t
  proof (rule Local.IH [OF that])
    show "tree_ok k t" using Local.prems(1) that by simp
    show "set (slots t) \<inter> S = {}" using Local.prems(3) that by auto
  qed (rule Local.prems)
  then show ?case using Local.prems rstepD(3) [OF Local.prems(2)] by auto
next
  case (Remote x)
  then show ?case using rstepD(6) [OF Remote.prems(2)] by simp
qed

lemma slots_bound: "caps_inv k \<Longrightarrow> tree_ok k t \<Longrightarrow> s \<in> set (slots t) \<Longrightarrow> fst (fst s) < MAX_PES \<and> snd (fst s) = OBJ"
proof (induction t)
  case (Local c ts)
  then show ?case
    using caps_invD(3) [OF Local.prems(1), of "c_tbl c" "c_sel c" c] gate_key(3) [OF Local.prems(1), of "c_tbl c" "c_sel c" c]
    by auto
qed simp

lemma msgs_mht_irrelevant: "revoke_msgs s origin p (Local c ts) = revoke_msgs s origin p' (Local c ts)"
  by simp

section \<open>Revoking a tree\<close>

text \<open>What a call of \<^verbatim>\<open>revoke_rec\<close> below the root does, as a statement about its result.\<close>

definition revokes :: "(capability \<Rightarrow> kernel \<Rightarrow> int step) \<Rightarrow> mht_key_t \<Rightarrow> ctree \<Rightarrow> bool" where
  "revokes rec origin t \<longleftrightarrow> (\<forall>c ts k. t = Local c ts \<longrightarrow> caps_inv k \<longrightarrow> vpes_local k \<longrightarrow> tree_ok k t \<longrightarrow> distinct (slots t) \<longrightarrow>
     (\<forall>s\<in>set (slots t). rlook k (slot_id s) = None \<and> slot_id s \<noteq> origin) \<longrightarrow>
     (\<exists>k'. rec c k = Inr (Returns (int (remote_count t)), k') \<and>
        rstep (set (slots t)) (revoke_msgs (k_mht k) origin 0 t) (slot_id ` set (slots t)) k k' \<and>
        rlook k' (slot_id (c_tbl c, c_sel c)) = (if remote_count t = 0 then None
          else Some ((new_entry (slot_id (c_tbl c, c_sel c)) (generic_id OBJ (c_parent c)) origin k)
                       \<lparr>rv_awaitedResp := int (remote_count t)\<rparr>))))"

text \<open>One step of the loop over the children: a remote child, and a local one.\<close>

lemma remote_child_step:
  assumes "caps_inv k" "generic_key cid" "generic_key parent" "generic_key origin" "rlook k cid \<noteq> None \<longleftrightarrow> ongoing"
    and "tree_ok k (Remote x)"
  shows "\<exists>k'. (\<forall>its. revoke_children rec (x # its) cid parent origin ongoing k = revoke_children rec its cid parent origin True k') \<and>
    rstep {} [(responsibleMember (k_mht k) x, KC_REVOKE x cid origin)] {cid} k k' \<and>
    rlook k' cid = Some ((entry_of cid parent origin k)\<lparr>rv_awaitedResp := rv_awaitedResp (entry_of cid parent origin k) + 1\<rparr>)"
proof -
  let ?kid = "responsibleMember (k_mht k) x"
  obtain k1 where k1: "ensure_ongoing ongoing cid parent origin k = Inr k1" "k1 = k\<lparr>k_revs := k_revs k1\<rparr>"
      "rlook k1 = (rlook k)(cid \<mapsto> entry_of cid parent origin k)"
    using ensure_ongoing_ok [OF assms(2-5)] by blast
  define k2 where "k2 = rev_await cid 1 k1"
  define k3 where "k3 = emit (Ev_krnl ?kid (KC_REVOKE x cid origin)) k2"
  have "k1\<lparr>k_revs := r\<rparr> = k\<lparr>k_revs := r\<rparr>" for r by (subst k1(2)) simp
  then have m2: "k2 = k\<lparr>k_revs := k_revs k2\<rparr>" by (simp add: k2_def rev_await_def rev_mod_def)
  have mht: "k_mht k2 = k_mht k" using arg_cong [OF m2, of k_mht] by simp
  have r2: "rlook k2 key = (if key = cid then Some ((entry_of cid parent origin k)
      \<lparr>rv_awaitedResp := rv_awaitedResp (entry_of cid parent origin k) + 1\<rparr>) else rlook k key)" for key
    by (simp add: k2_def rlook_await k1(3))
  have s: "rstep {} [] {cid} k k2" by (rule rstep_revs [OF assms(1) m2]) (simp add: r2)
  have call: "krnl_call ?kid (KC_REVOKE x cid origin) k2 = Inr k3"
    using assms(6) mht by (auto simp: krnl_call_def k3_def)
  have inv3: "caps_inv k3 = caps_inv k2" by (rule caps_inv_cong) (simp_all add: k3_def)
  have "rstep {} [(?kid, KC_REVOKE x cid origin)] {cid} k k3"
    using s inv3 by (simp add: rstep_def k3_def same_but_caps_def)
  moreover have "revoke_children rec (x # its) cid parent origin ongoing k = revoke_children rec its cid parent origin True k3" for its
    using assms(6) k1(1) call by (simp add: Let_def k2_def)
  moreover have "rlook k3 cid = Some ((entry_of cid parent origin k)\<lparr>rv_awaitedResp := rv_awaitedResp (entry_of cid parent origin k) + 1\<rparr>)"
    by (simp add: k3_def r2)
  ultimately show ?thesis by blast
qed

definition add_awaited :: "revocation \<Rightarrow> nat \<Rightarrow> revocation" where
  "add_awaited r n = r\<lparr>rv_awaitedResp := rv_awaitedResp r + int n\<rparr>"

lemma add_awaited_simps [simp]:
  "add_awaited r 0 = r" "add_awaited (add_awaited r m) n = add_awaited r (m + n)"
  "rv_capID (add_awaited r n) = rv_capID r" "rv_awaitedResp (add_awaited r n) = rv_awaitedResp r + int n"
  by (simp_all add: add_awaited_def)

lemma local_child_step:
  assumes rec: "revokes rec origin (Local c ts)" and inv: "caps_inv k" "vpes_local k" "tree_ok k (Local c ts)" "distinct (slots (Local c ts))"
    and fresh: "\<And>s. s \<in> set (slots (Local c ts)) \<Longrightarrow> rlook k (slot_id s) = None \<and> slot_id s \<noteq> origin \<and> slot_id s \<noteq> cid"
    and gen: "generic_key cid" "generic_key parent" "generic_key origin" and ong: "rlook k cid \<noteq> None \<longleftrightarrow> ongoing"
  defines "n \<equiv> remote_count (Local c ts)"
  shows "\<exists>k'. (\<forall>its. revoke_children rec (c_id c # its) cid parent origin ongoing k =
      revoke_children rec its cid parent origin (ongoing \<or> 0 < n) k') \<and>
    rstep (set (slots (Local c ts))) (revoke_msgs (k_mht k) origin cid (Local c ts)) (insert cid (slot_id ` set (slots (Local c ts)))) k k' \<and>
    rlook k' cid = (if ongoing \<or> 0 < n then Some (add_awaited (entry_of cid parent origin k) n) else None)"
proof -
  let ?t = "Local c ts" and ?s = "slot_id (c_tbl c, c_sel c)"
  have c: "k_cap k (c_tbl c) (c_sel c) = Some c" "is_gate c" using inv(3) by simp_all
  have pre: "\<forall>s\<in>set (slots ?t). rlook k (slot_id s) = None \<and> slot_id s \<noteq> origin" using fresh by blast
  have "\<exists>k1. rec c k = Inr (Returns (int (remote_count ?t)), k1) \<and>
      rstep (set (slots ?t)) (revoke_msgs (k_mht k) origin 0 ?t) (slot_id ` set (slots ?t)) k k1 \<and>
      rlook k1 ?s = (if remote_count ?t = 0 then None
        else Some ((new_entry ?s (generic_id OBJ (c_parent c)) origin k)\<lparr>rv_awaitedResp := int (remote_count ?t)\<rparr>))"
    using rec inv pre unfolding revokes_def by blast
  then obtain k1 where k1: "rec c k = Inr (Returns (int n), k1)"
      "rstep (set (slots ?t)) (revoke_msgs (k_mht k) origin 0 ?t) (slot_id ` set (slots ?t)) k k1"
      "n \<noteq> 0 \<Longrightarrow> rlook k1 ?s \<noteq> None" unfolding n_def by fastforce
  note look = gate_lookup [OF inv(1,2) c]
  have "cid \<notin> slot_id ` set (slots ?t)" using fresh by blast
  then have cid1: "rlook k1 cid = rlook k cid" by (rule rstepD(5) [OF k1(2)])
  have first: "revoke_children rec (c_id c # its) cid parent origin ongoing k =
      (if n \<noteq> 0
       then kbind (lift (rbind (ensure_ongoing ongoing cid parent origin k1) (\<lambda>k.
              case rev_find k (c_id c) of None \<Rightarrow> Inl Null_deref
              | Some r \<Rightarrow> Inr (rev_subscribe (rv_capID r) cid (rev_await cid (int n) k)))))
            (\<lambda>_ k. revoke_children rec its cid parent origin True k)
       else revoke_children rec its cid parent origin ongoing k1)" for its
    by (simp add: Let_def look k1(1))
  show ?thesis
  proof (cases "n = 0")
    case True
    have "rlook k1 cid = (if ongoing then Some (entry_of cid parent origin k) else None)"
      using ong cid1 by (auto simp: entry_of_def)
    moreover have "rstep (set (slots ?t)) (revoke_msgs (k_mht k) origin cid ?t) (insert cid (slot_id ` set (slots ?t))) k k1"
      by (rule rstep_weaken [of _ _ "slot_id ` set (slots ?t)"]) (use k1(2) in auto)
    ultimately show ?thesis using True first by (intro exI [of _ k1]) simp
  next
    case False
    have "rlook k1 cid \<noteq> None \<longleftrightarrow> ongoing" using ong cid1 by simp
    from ensure_ongoing_ok [OF gen this]
    obtain k2 where k2: "ensure_ongoing ongoing cid parent origin k1 = Inr k2" "k2 = k1\<lparr>k_revs := k_revs k2\<rparr>"
        "rlook k2 = (rlook k1)(cid \<mapsto> entry_of cid parent origin k1)" by blast
    have e: "entry_of cid parent origin k1 = entry_of cid parent origin k"
      using cid1 rstepD(7) [OF k1(2)] by (simp add: entry_of_def new_entry_def split: option.splits)
    have ne: "?s \<noteq> cid" using fresh [of "(c_tbl c, c_sel c)"] by simp
    have "rlook k2 ?s \<noteq> None" using k1(3) False ne by (simp add: k2(3))
    then obtain r where r: "rlook k2 ?s = Some r" by blast
    have "rev_find k2 (c_id c) = Some r" "rv_capID r = ?s"
      using r rlook_capID [OF r] gate_key(2) [OF inv(1) c] by (simp_all add: rev_find_def rlook_def)
    note found = this
    define k3 where "k3 = rev_subscribe ?s cid (rev_await cid (int n) k2)"
    have l3: "rlook k3 key = (if key = cid then Some (add_awaited (entry_of cid parent origin k) n)
        else if key = ?s then map_option (\<lambda>r. r\<lparr>rv_subs := rv_subs r @ [cid]\<rparr>) (rlook k1 ?s) else rlook k1 key)" for key
      using ne by (simp add: k3_def rlook_subscribe rlook_await k2(3) e add_awaited_def)
    have eqr: "k2\<lparr>k_revs := x\<rparr> = k1\<lparr>k_revs := x\<rparr>" for x by (subst k2(2)) simp
    have m3: "k3 = k1\<lparr>k_revs := k_revs k3\<rparr>" by (simp add: k3_def rev_subscribe_def rev_await_def rev_mod_def eqr)
    have v3: "k_vpes k3 = k_vpes k1" "k_objs k3 = k_objs k1" "k_next k3 = k_next k1" by (subst m3, simp)+
    have f3: "k_log k3 = k_log k1" "k_mht k3 = k_mht k1" "k_tid k3 = k_tid k1" "k_servs k3 = k_servs k1" "k_sess k3 = k_sess k1"
      by (subst m3, simp)+
    have "rstep {} [] (insert cid (slot_id ` set (slots ?t))) k1 k3"
      using rstepD(1) [OF k1(2)] unfolding rstep_def caps_inv_cong [OF v3] k_cap_cong [OF v3(1)]
      by (auto simp: l3 same_but_caps_def v3 f3 krnl_msgs_def)
    from rstep_trans [OF k1(2) this]
    have "rstep (set (slots ?t)) (revoke_msgs (k_mht k) origin cid ?t)
        (slot_id ` set (slots ?t) \<union> insert cid (slot_id ` set (slots ?t))) k k3" by simp
    then have "rstep (set (slots ?t)) (revoke_msgs (k_mht k) origin cid ?t) (insert cid (slot_id ` set (slots ?t))) k k3"
      by (rule rstep_weaken) auto
    moreover have "\<forall>its. revoke_children rec (c_id c # its) cid parent origin ongoing k =
        revoke_children rec its cid parent origin (ongoing \<or> 0 < n) k3"
      using first False by (simp add: k2(1) found k3_def)
    ultimately show ?thesis using l3 [of cid] False by (intro exI [of _ k3]) simp
  qed
qed

lemma revoke_children_ok:
  assumes rec: "\<And>t. t \<in> set ts \<Longrightarrow> revokes rec origin t"
    and inv: "caps_inv k" "vpes_local k" "\<And>t. t \<in> set ts \<Longrightarrow> tree_ok k t" "distinct (concat (map slots ts))"
    and fresh: "\<And>s. s \<in> set (concat (map slots ts)) \<Longrightarrow> rlook k (slot_id s) = None \<and> slot_id s \<noteq> origin \<and> slot_id s \<noteq> cid"
    and gen: "generic_key cid" "generic_key parent" "generic_key origin" and ong: "rlook k cid \<noteq> None \<longleftrightarrow> ongoing"
  shows "\<exists>k'. revoke_children rec (map root_key ts) cid parent origin ongoing k =
      Inr (Returns (ongoing \<or> 0 < sum_list (map remote_count ts)), k') \<and>
    rstep (set (concat (map slots ts))) (concat (map (revoke_msgs (k_mht k) origin cid) ts))
      (insert cid (slot_id ` set (concat (map slots ts)))) k k' \<and>
    rlook k' cid = (if ongoing \<or> 0 < sum_list (map remote_count ts)
      then Some (add_awaited (entry_of cid parent origin k) (sum_list (map remote_count ts))) else None)"
  using rec inv fresh ong
proof (induction ts arbitrary: ongoing k)
  case Nil
  have "rstep {} [] {cid} k k" using Nil.prems by (simp add: rstep_def)
  then show ?case using Nil.prems by (auto simp: entry_of_def)
next
  case (Cons t ts)
  let ?n = "remote_count t"
  have ok: "tree_ok k t" "distinct (slots t)" "set (slots t) \<inter> set (concat (map slots ts)) = {}"
    using Cons.prems(4,5) by auto
  have fr: "rlook k (slot_id s) = None \<and> slot_id s \<noteq> origin \<and> slot_id s \<noteq> cid" if "s \<in> set (slots t)" for s
    using Cons.prems(6) [of s] that by simp
  have "\<exists>k1. (\<forall>its. revoke_children rec (root_key t # its) cid parent origin ongoing k =
        revoke_children rec its cid parent origin (ongoing \<or> 0 < ?n) k1) \<and>
      rstep (set (slots t)) (revoke_msgs (k_mht k) origin cid t) (insert cid (slot_id ` set (slots t))) k k1 \<and>
      rlook k1 cid = (if ongoing \<or> 0 < ?n then Some (add_awaited (entry_of cid parent origin k) ?n) else None)"
  proof (cases t)
    case (Local c cs)
    have "revokes rec origin (Local c cs)" using Cons.prems(1) Local by simp
    from local_child_step [OF this Cons.prems(2,3) ok(1,2) [unfolded Local] _ gen Cons.prems(7)] fr
    show ?thesis unfolding Local by simp
  next
    case (Remote x)
    show ?thesis
      using remote_child_step [OF Cons.prems(2) gen Cons.prems(7) ok(1) [unfolded Remote], of rec]
      by (simp add: Remote add_awaited_def)
  qed
  then obtain k1 where k1: "\<And>its. revoke_children rec (root_key t # its) cid parent origin ongoing k =
        revoke_children rec its cid parent origin (ongoing \<or> 0 < ?n) k1"
      "rstep (set (slots t)) (revoke_msgs (k_mht k) origin cid t) (insert cid (slot_id ` set (slots t))) k k1"
      "rlook k1 cid = (if ongoing \<or> 0 < ?n then Some (add_awaited (entry_of cid parent origin k) ?n) else None)" by blast
  note d1 = rstepD [OF k1(2)]
  have fr1: "rlook k1 (slot_id s) = None \<and> slot_id s \<noteq> origin \<and> slot_id s \<noteq> cid" if s: "s \<in> set (concat (map slots ts))" for s
  proof -
    have old: "rlook k (slot_id s) = None \<and> slot_id s \<noteq> origin \<and> slot_id s \<noteq> cid" using Cons.prems(6) [of s] s by simp
    have "slot_id s \<notin> slot_id ` set (slots t)"
    proof
      assume "slot_id s \<in> slot_id ` set (slots t)"
      then obtain s' where s': "slot_id s = slot_id s'" "s' \<in> set (slots t)" by blast
      obtain t' where "t' \<in> set ts" "s \<in> set (slots t')" using s by auto
      then have "fst (fst s) < MAX_PES \<and> snd (fst s) = OBJ" using slots_bound [OF Cons.prems(2), of t' s] Cons.prems(4) by simp
      moreover have "fst (fst s') < MAX_PES \<and> snd (fst s') = OBJ" using slots_bound [OF Cons.prems(2) ok(1) s'(2)] .
      ultimately have "s = s'" using slot_id_inj [of s s'] s'(1) by (simp add: prod_eq_iff)
      then show False using ok(3) s s'(2) by blast
    qed
    then show ?thesis using d1(5) [of "slot_id s"] old by simp
  qed
  have "\<exists>k'. revoke_children rec (map root_key ts) cid parent origin (ongoing \<or> 0 < ?n) k1 =
      Inr (Returns ((ongoing \<or> 0 < ?n) \<or> 0 < sum_list (map remote_count ts)), k') \<and>
    rstep (set (concat (map slots ts))) (concat (map (revoke_msgs (k_mht k1) origin cid) ts))
      (insert cid (slot_id ` set (concat (map slots ts)))) k1 k' \<and>
    rlook k' cid = (if (ongoing \<or> 0 < ?n) \<or> 0 < sum_list (map remote_count ts)
      then Some (add_awaited (entry_of cid parent origin k1) (sum_list (map remote_count ts))) else None)"
  proof (rule Cons.IH)
    show "revokes rec origin t'" if "t' \<in> set ts" for t' using Cons.prems(1) that by simp
    show "vpes_local k1" using vpes_local_same [OF Cons.prems(3) d1(2)] .
    show "tree_ok k1 t'" if "t' \<in> set ts" for t'
      by (rule tree_ok_step [OF _ k1(2)]) (use Cons.prems(4) that ok(3) in auto)
    show "distinct (concat (map slots ts))" using Cons.prems(5) by simp
    show "rlook k1 cid \<noteq> None \<longleftrightarrow> ongoing \<or> 0 < ?n" using k1(3) by simp
  qed (use d1(1) fr1 in auto)
  then obtain k' where k': "revoke_children rec (map root_key ts) cid parent origin (ongoing \<or> 0 < ?n) k1 =
      Inr (Returns ((ongoing \<or> 0 < ?n) \<or> 0 < sum_list (map remote_count ts)), k')"
      "rstep (set (concat (map slots ts))) (concat (map (revoke_msgs (k_mht k1) origin cid) ts))
        (insert cid (slot_id ` set (concat (map slots ts)))) k1 k'"
      "rlook k' cid = (if (ongoing \<or> 0 < ?n) \<or> 0 < sum_list (map remote_count ts)
        then Some (add_awaited (entry_of cid parent origin k1) (sum_list (map remote_count ts))) else None)" by blast
  have e: "add_awaited (entry_of cid parent origin k1) m = add_awaited (entry_of cid parent origin k) (?n + m)" for m
    using k1(3) d1(7) Cons.prems(7) by (auto simp: entry_of_def new_entry_def split: if_splits)
  have "rstep (set (concat (map slots (t # ts)))) (concat (map (revoke_msgs (k_mht k) origin cid) (t # ts)))
      (insert cid (slot_id ` set (slots t)) \<union> insert cid (slot_id ` set (concat (map slots ts)))) k k'"
    using rstep_trans [OF k1(2) k'(2)] by (simp add: d1(6))
  then have step: "rstep (set (concat (map slots (t # ts)))) (concat (map (revoke_msgs (k_mht k) origin cid) (t # ts)))
      (insert cid (slot_id ` set (concat (map slots (t # ts))))) k k'"
    by (rule rstep_weaken) auto
  define m where "m = sum_list (map remote_count ts)"
  have m: "sum_list (map remote_count (t # ts)) = ?n + m" by (simp add: m_def)
  show ?case
    unfolding m using k'(1,3) [folded m_def] k1(1) step
    by (intro exI [of _ k']) (auto simp: e simp del: revoke_children.simps)
qed

text \<open>The body of \<^verbatim>\<open>revoke_rec\<close> up to the point where the root waits.\<close>

lemma revoke_body_ok:
  assumes rec: "\<And>t. t \<in> set ts \<Longrightarrow> revokes rec origin t" and gen: "generic_key origin"
    and inv: "caps_inv k" "vpes_local k" "tree_ok k (Local c ts)" "distinct (slots (Local c ts))"
    and fresh: "\<And>s. s \<in> set (slots (Local c ts)) \<Longrightarrow> rlook k (slot_id s) = None"
    and orig: "\<And>s. s \<in> set (concat (map slots ts)) \<Longrightarrow> slot_id s \<noteq> origin"
  defines "cid \<equiv> slot_id (c_tbl c, c_sel c)" and "n \<equiv> remote_count (Local c ts)"
    and "parent \<equiv> generic_id OBJ (c_parent c)"
  shows "\<exists>k'. revoke_rec_body unref rec fuel False c origin OBJ k = revoke_end fuel cid parent origin (0 < n) k' \<and>
    rstep (set (slots (Local c ts))) (revoke_msgs (k_mht k) origin 0 (Local c ts)) (slot_id ` set (slots (Local c ts))) k k' \<and>
    rlook k' cid = (if 0 < n then Some ((new_entry cid parent origin k)\<lparr>rv_awaitedResp := int n\<rparr>) else None)"
proof -
  let ?slot = "(c_tbl c, c_sel c)"
  have c: "k_cap k (c_tbl c) (c_sel c) = Some c" "is_gate c" "c_children c = map root_key ts" using inv(3) by simp_all
  obtain k1 k2 where k1: "cap_revoke unref (c\<lparr>c_children := []\<rparr>) (mod_cap (c_tbl c) (c_sel c) (\<lambda>c. c\<lparr>c_children := []\<rparr>) k) = Inr (Returns NO_ERROR, k1)"
    and k2: "unset_revoked False c k1 = Inr (Returns (), k2)" "caps_inv k2" "same_but_caps k k2"
      "k_cap k2 = (\<lambda>tbl' sel'. if tbl' = c_tbl c \<and> sel' = c_sel c then None else k_cap k tbl' sel')"
      "k_revs k2 = k_revs k" "krnl_msgs k2 = krnl_msgs k"
    using revoke_gate [OF inv(1) c(1,2), of unref] by blast
  have s2: "rstep {?slot} [] {} k k2"
    unfolding rstep_def using k2 rlook_cong [OF k2(5)] by (simp add: fun_eq_iff)
  note d2 = rstepD [OF s2]
  have dist: "?slot \<notin> set (concat (map slots ts))" "distinct (concat (map slots ts))" using inv(4) by auto
  have gid: "generic_id OBJ (c_id c) = cid" unfolding cid_def by (rule gate_key(1) [OF inv(1) c(1,2)])
  have cidg: "generic_key cid" unfolding gid [symmetric] by simp
  have lk: "rlook k2 = rlook k" by (rule rlook_cong [OF k2(5)])
  have fr: "rlook k2 (slot_id s) = None \<and> slot_id s \<noteq> origin \<and> slot_id s \<noteq> cid" if s: "s \<in> set (concat (map slots ts))" for s
  proof -
    obtain t where "t \<in> set ts" "s \<in> set (slots t)" using s by auto
    then have b: "fst (fst s) < MAX_PES \<and> snd (fst s) = OBJ" using slots_bound [OF inv(1), of t s] inv(3) by simp
    have b': "fst (fst ?slot) < MAX_PES \<and> snd (fst ?slot) = OBJ" using slots_bound [OF inv(1,3), of ?slot] by simp
    have "slot_id s \<noteq> cid"
    proof
      assume "slot_id s = cid"
      then have "s = ?slot" using slot_id_inj [of s ?slot] b b' by (simp add: cid_def prod_eq_iff)
      then show False using s dist(1) by blast
    qed
    then show ?thesis using fresh [of s] orig [OF s] s lk by simp
  qed
  have "\<exists>k'. revoke_children rec (map root_key ts) cid parent origin False k2 =
      Inr (Returns (False \<or> 0 < sum_list (map remote_count ts)), k') \<and>
    rstep (set (concat (map slots ts))) (concat (map (revoke_msgs (k_mht k2) origin cid) ts))
      (insert cid (slot_id ` set (concat (map slots ts)))) k2 k' \<and>
    rlook k' cid = (if False \<or> 0 < sum_list (map remote_count ts)
      then Some (add_awaited (entry_of cid parent origin k2) (sum_list (map remote_count ts))) else None)"
  proof (rule revoke_children_ok)
    show "tree_ok k2 t" if "t \<in> set ts" for t
      by (rule tree_ok_step [OF _ s2]) (use inv(3) that dist(1) in auto)
    show "vpes_local k2" using vpes_local_same [OF inv(2) k2(3)] .
    show "rlook k2 cid \<noteq> None \<longleftrightarrow> False" using fresh [of ?slot] lk by (simp add: cid_def)
  qed (use rec k2(2) dist(2) fr cidg gen parent_def in auto)
  then obtain k' where k': "revoke_children rec (map root_key ts) cid parent origin False k2 = Inr (Returns (0 < n), k')"
    "rstep (set (concat (map slots ts))) (concat (map (revoke_msgs (k_mht k2) origin cid) ts))
      (insert cid (slot_id ` set (concat (map slots ts)))) k2 k'"
    "rlook k' cid = (if 0 < n then Some (add_awaited (entry_of cid parent origin k2) n) else None)"
    unfolding n_def remote_count.simps simp_thms by blast
  have "rlook k2 cid = None" using fresh [of ?slot] lk by (simp add: cid_def)
  then have e: "add_awaited (entry_of cid parent origin k2) n = (new_entry cid parent origin k)\<lparr>rv_awaitedResp := int n\<rparr>"
    by (simp add: entry_of_def add_awaited_def new_entry_def d2(7))
  have "rstep (set (slots (Local c ts))) (revoke_msgs (k_mht k) origin 0 (Local c ts))
      ({} \<union> insert cid (slot_id ` set (concat (map slots ts)))) k k'"
    using rstep_trans [OF s2 k'(2)] by (simp add: d2(6) cid_def)
  then have "rstep (set (slots (Local c ts))) (revoke_msgs (k_mht k) origin 0 (Local c ts)) (slot_id ` set (slots (Local c ts))) k k'"
    by (rule rstep_weaken) (auto simp: cid_def)
  moreover have "revoke_rec_body unref rec fuel False c origin OBJ k = revoke_end fuel cid parent origin (0 < n) k'"
    using k'(1) by (simp add: revoke_rec_body_def k1 k2(1) gid c(3) parent_def Let_def)
  ultimately show ?thesis using k'(3) e by (intro exI [of _ k']) simp
qed

fun depth :: "ctree \<Rightarrow> nat" where
  "depth (Local c ts) = Suc (Max (set (0 # map depth ts)))"
| "depth (Remote x) = 0"

lemma revokes_tree:
  "generic_key origin \<Longrightarrow> depth t \<le> fuel \<Longrightarrow> revokes (\<lambda>c k. revoke_rec fuel False origin OBJ c k) origin t"
proof (induction fuel arbitrary: t)
  case 0
  then show ?case by (cases t) (auto simp: revokes_def)
next
  case (Suc fuel)
  show ?case unfolding revokes_def
  proof (intro allI impI)
    fix c ts k
    assume t: "t = Local c ts" and inv: "caps_inv k" "vpes_local k" "tree_ok k t" "distinct (slots t)"
      and fr: "\<forall>s\<in>set (slots t). rlook k (slot_id s) = None \<and> slot_id s \<noteq> origin"
    have rec: "revokes (\<lambda>c k. revoke_rec fuel False origin OBJ c k) origin t'" if "t' \<in> set ts" for t'
    proof (rule Suc.IH [OF Suc.prems(1)])
      show "depth t' \<le> fuel" using Suc.prems(2) that by (simp add: t)
    qed
    let ?cid = "slot_id (c_tbl c, c_sel c)" and ?p = "generic_id OBJ (c_parent c)"
    have "\<exists>k'. revoke_rec_body (\<lambda>i k. vpe_unref fuel i k) (\<lambda>c k. revoke_rec fuel False origin OBJ c k) fuel False c origin OBJ k =
          revoke_end fuel ?cid ?p origin (0 < remote_count (Local c ts)) k' \<and>
        rstep (set (slots (Local c ts))) (revoke_msgs (k_mht k) origin 0 (Local c ts)) (slot_id ` set (slots (Local c ts))) k k' \<and>
        rlook k' ?cid = (if 0 < remote_count (Local c ts)
          then Some ((new_entry ?cid ?p origin k)\<lparr>rv_awaitedResp := int (remote_count (Local c ts))\<rparr>) else None)"
      by (rule revoke_body_ok) (use rec Suc.prems(1) inv fr in \<open>auto simp: t\<close>)
    then obtain k' where k': "revoke_rec (Suc fuel) False origin OBJ c k = revoke_end fuel ?cid ?p origin (0 < remote_count t) k'"
        "rstep (set (slots t)) (revoke_msgs (k_mht k) origin 0 t) (slot_id ` set (slots t)) k k'"
        "rlook k' ?cid = (if 0 < remote_count t then Some ((new_entry ?cid ?p origin k)\<lparr>rv_awaitedResp := int (remote_count t)\<rparr>) else None)"
      unfolding t revoke_rec.simps by blast
    have "?cid \<noteq> origin" using fr by (simp add: t)
    then have "revoke_end fuel ?cid ?p origin (0 < remote_count t) k' = Inr (Returns (int (remote_count t)), k')"
      using k'(3) by (auto simp: revoke_end_def awaited_rlook)
    then show "\<exists>k'. revoke_rec (Suc fuel) False origin OBJ c k = Inr (Returns (int (remote_count t)), k') \<and>
        rstep (set (slots t)) (revoke_msgs (k_mht k) origin 0 t) (slot_id ` set (slots t)) k k' \<and>
        rlook k' ?cid = (if remote_count t = 0 then None
          else Some ((new_entry ?cid ?p origin k)\<lparr>rv_awaitedResp := int (remote_count t)\<rparr>))"
      using k' by (intro exI [of _ k']) (simp del: revoke_rec.simps)
  qed
qed

end
