(* ===== verification/Revocation_Protocol.thy ===== *)
theory Revocation_Protocol
  imports Revocation_Correct
begin

unbundle bit_operations_syntax

text \<open>
  Revocation seen from its callers. The parent and child pointers of the gate and memory
  capabilities form a forest; from this follows which capabilities a revocation removes, which
  requests it sends to other kernels, and how it ends when their answers arrive.
\<close>

section \<open>The forest of capabilities\<close>

type_synonym slot = "(nat \<times> crd_type) \<times> capsel_t"

text \<open>Child pointers lead to gate capabilities that point back and were created later, or to
  capabilities of another known kernel.\<close>

definition links_ok :: "kernel \<Rightarrow> bool" where
  "links_ok k \<longleftrightarrow> (\<forall>tbl sel c. k_cap k tbl sel = Some c \<longrightarrow> is_gate c \<longrightarrow>
     distinct (map (\<lambda>x. x AND NOT TYPE_MASK_CAP) (c_children c)) \<and>
     (\<forall>x\<in>set (c_children c).
        if responsibleMember (k_mht k) x = mi_kid (k_mht k)
        then \<exists>tbl' sel' c'. k_cap k tbl' sel' = Some c' \<and> is_gate c' \<and> c_id c' = x \<and> c_parent c' = c_id c \<and> c_ptr c < c_ptr c'
        else \<exists>p. getKPE (responsibleMember (k_mht k) x) (k_mht k) = Inr p))"

text \<open>The capabilities that were derived from the one in slot \<open>s\<close>, directly or not, on this kernel.\<close>

inductive derived :: "kernel \<Rightarrow> slot \<Rightarrow> slot \<Rightarrow> bool" for k :: kernel and s :: slot where
  derived_refl: "derived k s s"
| derived_step: "derived k s t \<Longrightarrow> k_cap k (fst t) (snd t) = Some c \<Longrightarrow> k_cap k (fst u) (snd u) = Some c' \<Longrightarrow>
    c_id c' \<in> set (c_children c) \<Longrightarrow> derived k s u"

text \<open>The remote children of the derived capabilities, with the slot of their parent.\<close>

definition remote_children :: "kernel \<Rightarrow> slot \<Rightarrow> (slot \<times> mht_key_t) set" where
  "remote_children k s = {(t, x). derived k s t \<and>
     (\<exists>c. k_cap k (fst t) (snd t) = Some c \<and> x \<in> set (c_children c) \<and> responsibleMember (k_mht k) x \<noteq> mi_kid (k_mht k))}"

lemma links_okD:
  assumes "links_ok k" "k_cap k tbl sel = Some c" "is_gate c"
  shows "distinct (map (\<lambda>x. x AND NOT TYPE_MASK_CAP) (c_children c))"
    "x \<in> set (c_children c) \<Longrightarrow> responsibleMember (k_mht k) x = mi_kid (k_mht k) \<Longrightarrow>
       \<exists>tbl' sel' c'. k_cap k tbl' sel' = Some c' \<and> is_gate c' \<and> c_id c' = x \<and> c_parent c' = c_id c \<and> c_ptr c < c_ptr c'"
    "x \<in> set (c_children c) \<Longrightarrow> responsibleMember (k_mht k) x \<noteq> mi_kid (k_mht k) \<Longrightarrow>
       \<exists>p. getKPE (responsibleMember (k_mht k) x) (k_mht k) = Inr p"
  using assms unfolding links_ok_def by metis+

lemma cap_id_slot:
  assumes "caps_inv k" "k_cap k tbl sel = Some c" "k_cap k tbl' sel' = Some c'" "c_id c = c_id c'"
  shows "tbl = tbl' \<and> sel = sel' \<and> c = c'"
proof -
  note d = caps_invD [OF assms(1,2)] and d' = caps_invD [OF assms(1,3)]
  have "fst tbl = fst tbl' \<and> sel = sel' \<and> kind_item (c_kind c) = kind_item (c_kind c')"
    using cap_key_fields [OF d(3), of "c_kind c" sel] cap_key_fields [OF d'(3), of "c_kind c'" sel'] assms(4)
    unfolding d(6) d'(6) by metis
  moreover have "snd tbl = snd tbl'"
    using d(1) d'(1) calculation crd_type.exhaust unfolding cap_wf_def by metis
  ultimately have "tbl = tbl'" "sel = sel'" by (simp_all add: prod_eq_iff)
  then show ?thesis using assms(2,3) by simp
qed

lemma cap_local:
  assumes "caps_inv k" "vpes_local k" "k_cap k tbl sel = Some c"
  shows "responsibleMember (k_mht k) (c_id c) = mi_kid (k_mht k)"
proof -
  note d = caps_invD [OF assms(1,3)]
  have "k_vpes k (fst tbl) \<noteq> None" using assms(3) by (auto simp: k_cap_def split: option.splits)
  then have "findPartition (k_mht k) (c_id c) \<noteq> None"
    using assms(2) cap_key_fields(1) [OF d(3)] unfolding vpes_local_def d(6) by blast
  then show ?thesis by (auto simp: findPartition_def split: if_splits)
qed

text \<open>The parent relation on slots.\<close>

definition par :: "kernel \<Rightarrow> slot \<Rightarrow> slot \<Rightarrow> bool" where
  "par k s p \<longleftrightarrow> (\<exists>c c'. k_cap k (fst s) (snd s) = Some c \<and> k_cap k (fst p) (snd p) = Some c' \<and> c_parent c = c_id c' \<and> c_ptr c' < c_ptr c)"

lemma par_det: "caps_inv k \<Longrightarrow> par k s p \<Longrightarrow> par k s p' \<Longrightarrow> p = p'"
  unfolding par_def by (metis cap_id_slot option.inject prod_eq_iff)

lemma par_ptr:
  "(par k)\<^sup>*\<^sup>* s p \<Longrightarrow> k_cap k (fst s) (snd s) = Some c \<Longrightarrow> k_cap k (fst p) (snd p) = Some c' \<Longrightarrow> s = p \<or> c_ptr c' < c_ptr c"
proof (induction arbitrary: c' rule: rtranclp_induct)
  case (step q p)
  then show ?case unfolding par_def by (metis dual_order.strict_trans option.inject)
qed simp

lemma par_linear: "(par k)\<^sup>*\<^sup>* s p \<Longrightarrow> caps_inv k \<Longrightarrow> (par k)\<^sup>*\<^sup>* s q \<Longrightarrow> (par k)\<^sup>*\<^sup>* p q \<or> (par k)\<^sup>*\<^sup>* q p"
proof (induction rule: rtranclp_induct)
  case (step a b)
  from step.IH [OF step.prems] show ?case
  proof
    assume "(par k)\<^sup>*\<^sup>* a q"
    then show ?thesis
      by (cases rule: converse_rtranclpE) (use step par_det in \<open>blast+\<close>)
  next
    assume "(par k)\<^sup>*\<^sup>* q a"
    then show ?thesis using step(2) by (meson rtranclp.rtrancl_into_rtrancl)
  qed
qed simp

text \<open>In a tree, every slot leads to the root along parents.\<close>

fun root_slot :: "ctree \<Rightarrow> slot" where
  "root_slot (Local c ts) = (c_tbl c, c_sel c)"
| "root_slot (Remote x) = ((0, OBJ), 0)"

lemma root_key_slot:
  "tree_ok k t \<Longrightarrow> slots t \<noteq> [] \<Longrightarrow> k_cap k (fst (root_slot t)) (snd (root_slot t)) = Some d \<Longrightarrow> root_key t = c_id d"
  by (cases t) auto

lemma child_par:
  assumes "caps_inv k" "vpes_local k" "links_ok k" "tree_ok k (Local c ts)" "t \<in> set ts" "slots t \<noteq> []"
  shows "par k (root_slot t) (c_tbl c, c_sel c)"
proof -
  obtain d us where t: "t = Local d us" using assms(6) by (cases t) auto
  have c: "k_cap k (c_tbl c) (c_sel c) = Some c" "is_gate c" "c_id d \<in> set (c_children c)" and d: "k_cap k (c_tbl d) (c_sel d) = Some d"
    using assms(4,5) by (force simp: t)+
  have "responsibleMember (k_mht k) (c_id d) = mi_kid (k_mht k)" by (rule cap_local [OF assms(1,2) d])
  from links_okD(2) [OF assms(3) c this]
  obtain tbl' sel' d' where d': "k_cap k tbl' sel' = Some d'" "c_id d' = c_id d" "c_parent d' = c_id c" "c_ptr c < c_ptr d'" by blast
  have "d' = d" using cap_id_slot [OF assms(1) d'(1) d d'(2)] by simp
  then show ?thesis using c d d' by (auto simp: par_def t)
qed

lemma slots_par:
  assumes "caps_inv k" "vpes_local k" "links_ok k"
  shows "tree_ok k t \<Longrightarrow> s \<in> set (slots t) \<Longrightarrow> (par k)\<^sup>*\<^sup>* s (root_slot t)"
proof (induction t)
  case (Local c ts)
  show ?case
  proof (cases "s = (c_tbl c, c_sel c)")
    case False
    then obtain t where t: "t \<in> set ts" "s \<in> set (slots t)" using Local.prems(2) by auto
    then have "(par k)\<^sup>*\<^sup>* s (root_slot t)" using Local by simp
    moreover have "par k (root_slot t) (c_tbl c, c_sel c)" by (rule child_par [OF assms Local.prems(1) t(1)]) (use t(2) in auto)
    ultimately show ?thesis by simp
  qed simp
qed simp

lemma distinct_slots_list:
  "distinct (map root_key ts) \<Longrightarrow> (\<And>t. t \<in> set ts \<Longrightarrow> distinct (slots t)) \<Longrightarrow>
   (\<And>t t'. t \<in> set ts \<Longrightarrow> t' \<in> set ts \<Longrightarrow> root_key t \<noteq> root_key t' \<Longrightarrow> set (slots t) \<inter> set (slots t') = {}) \<Longrightarrow>
   distinct (concat (map slots ts))"
proof (induction ts)
  case (Cons t ts)
  have "set (slots t) \<inter> set (slots t') = {}" if "t' \<in> set ts" for t'
    using Cons.prems(1,3) that by (metis distinct.simps(2) image_eqI list.set_intros list.set_map list.simps(9))
  then show ?case using Cons by auto
qed simp

lemma slots_distinct:
  assumes inv: "caps_inv k" "vpes_local k" "links_ok k"
  shows "tree_ok k t \<Longrightarrow> distinct (slots t)"
proof (induction t)
  case (Local c ts)
  have c: "k_cap k (c_tbl c) (c_sel c) = Some c" "is_gate c" "c_children c = map root_key ts" "\<And>t. t \<in> set ts \<Longrightarrow> tree_ok k t"
    using Local.prems by simp_all
  have sub: "par k (root_slot t) (c_tbl c, c_sel c) \<and> (par k)\<^sup>*\<^sup>* s (root_slot t)" if "t \<in> set ts" "s \<in> set (slots t)" for t s
    using child_par [OF inv Local.prems that(1)] slots_par [OF inv c(4) [OF that(1)] that(2)] that(2) by force
  have up: "\<not> (par k)\<^sup>*\<^sup>* (c_tbl c, c_sel c) r" if p: "par k r (c_tbl c, c_sel c)" for r
  proof
    assume r: "(par k)\<^sup>*\<^sup>* (c_tbl c, c_sel c) r"
    obtain d where d: "k_cap k (fst r) (snd r) = Some d" "c_ptr c < c_ptr d" using p c(1) by (auto simp: par_def)
    then show False using par_ptr [OF r] c(1) by fastforce
  qed
  have root: "(c_tbl c, c_sel c) \<notin> set (slots t)" if "t \<in> set ts" for t using sub [OF that] up by blast
  have below: "r = r' \<or> \<not> (par k)\<^sup>*\<^sup>* r r'" if "par k r (c_tbl c, c_sel c)" "par k r' (c_tbl c, c_sel c)" for r r'
    using that up par_det [OF inv(1)] by (metis converse_rtranclpE)
  have disj: "set (slots t) \<inter> set (slots t') = {}" if t: "t \<in> set ts" "t' \<in> set ts" "root_key t \<noteq> root_key t'" for t t'
  proof (rule ccontr)
    assume "set (slots t) \<inter> set (slots t') \<noteq> {}"
    then obtain s where s: "s \<in> set (slots t)" "s \<in> set (slots t')" by blast
    have "root_slot t = root_slot t'"
      using sub [OF t(1) s(1)] sub [OF t(2) s(2)] par_linear [OF _ inv(1)] below by metis
    moreover obtain d where "k_cap k (fst (root_slot t)) (snd (root_slot t)) = Some d"
      using sub [OF t(1) s(1)] by (auto simp: par_def)
    ultimately have "root_key t = root_key t'" using root_key_slot c(4) t(1,2) s by (metis empty_iff list.set(1))
    then show False using t(3) by simp
  qed
  have "distinct (map root_key ts)"
    using links_okD(1) [OF inv(3) c(1,2)] unfolding c(3) by (metis distinct_map)
  then have "distinct (concat (map slots ts))"
    by (rule distinct_slots_list) (use Local.IH c(4) disj in auto)
  then show ?case using root by auto
qed simp

text \<open>The tree below a capability consists of the derived capabilities.\<close>

lemma tree_exists:
  assumes inv: "caps_inv k" "vpes_local k" "links_ok k"
  shows "k_cap k tbl sel = Some c \<Longrightarrow> is_gate c \<Longrightarrow> \<exists>ts. tree_ok k (Local c ts) \<and> depth (Local c ts) \<le> k_next k - c_ptr c"
proof (induction "k_next k - c_ptr c" arbitrary: tbl sel c rule: less_induct)
  case less
  have "\<exists>t. root_key t = x \<and> tree_ok k t \<and> depth t < k_next k - c_ptr c" if x: "x \<in> set (c_children c)" for x
  proof (cases "responsibleMember (k_mht k) x = mi_kid (k_mht k)")
    case True
    from links_okD(2) [OF inv(3) less.prems x True]
    obtain tbl' sel' c' where c': "k_cap k tbl' sel' = Some c'" "is_gate c'" "c_id c' = x" "c_ptr c < c_ptr c'" by blast
    have lt: "k_next k - c_ptr c' < k_next k - c_ptr c" using caps_invD(2) [OF inv(1) c'(1)] c'(4) by simp
    obtain ts where ts: "tree_ok k (Local c' ts)" "depth (Local c' ts) \<le> k_next k - c_ptr c'"
      using less.hyps [OF lt c'(1,2)] by blast
    have "depth (Local c' ts) < k_next k - c_ptr c" using ts(2) lt by (rule le_less_trans)
    then show ?thesis using ts(1) c'(3) by (intro exI [of _ "Local c' ts"]) (simp del: depth.simps)
  next
    case False
    then show ?thesis
      using links_okD(3) [OF inv(3) less.prems x False] caps_invD(2) [OF inv(1) less.prems(1)]
      by (intro exI [of _ "Remote x"]) simp
  qed
  then obtain f where f: "\<And>x. x \<in> set (c_children c) \<Longrightarrow> root_key (f x) = x \<and> tree_ok k (f x) \<and> depth (f x) < k_next k - c_ptr c"
    by metis
  let ?t = "Local c (map f (c_children c))"
  have "tree_ok k ?t"
    using f less.prems caps_invD [OF inv(1) less.prems(1)] by (auto simp: map_idI)
  moreover have "depth ?t \<le> k_next k - c_ptr c"
  proof -
    have "Max (set (0 # map depth (map f (c_children c)))) < k_next k - c_ptr c"
      using f caps_invD(2) [OF inv(1) less.prems(1)] by (subst Max_less_iff) auto
    then show ?thesis by (simp only: depth.simps Suc_le_eq)
  qed
  ultimately show ?case by blast
qed

lemma slots_derived: "tree_ok k t \<Longrightarrow> slots t \<noteq> [] \<Longrightarrow> derived k s (root_slot t) \<Longrightarrow> u \<in> set (slots t) \<Longrightarrow> derived k s u"
proof (induction t)
  case (Local c ts)
  show ?case
  proof (cases "u = (c_tbl c, c_sel c)")
    case False
    then obtain t where t: "t \<in> set ts" "u \<in> set (slots t)" using Local.prems(4) by auto
    obtain d us where d: "t = Local d us" using t(2) by (cases t) auto
    have c: "k_cap k (c_tbl c) (c_sel c) = Some c" "c_id d \<in> set (c_children c)" and d': "k_cap k (c_tbl d) (c_sel d) = Some d"
      using Local.prems(1) t(1) by (force simp: d)+
    have "derived k s (c_tbl d, c_sel d)"
      by (rule derived_step [OF Local.prems(3)]) (use c d' in auto)
    then show ?thesis by (intro Local.IH [OF t(1)]) (use Local.prems(1) t d in auto)
  qed (use Local.prems(3) in simp)
qed simp

lemma slots_closed:
  assumes inv: "caps_inv k" "vpes_local k" and c: "k_cap k (fst s) (snd s) = Some c" "k_cap k (fst u) (snd u) = Some c'"
    "c_id c' \<in> set (c_children c)"
  shows "tree_ok k t \<Longrightarrow> s \<in> set (slots t) \<Longrightarrow> u \<in> set (slots t)"
proof (induction t)
  case (Local d ts)
  show ?case
  proof (cases "s = (c_tbl d, c_sel d)")
    case True
    then obtain t where t: "t \<in> set ts" "root_key t = c_id c'" using c(1,3) Local.prems(1) by auto
    show ?thesis
    proof (cases t)
      case (Local e us)
      then have "k_cap k (c_tbl e) (c_sel e) = Some e" "c_id e = c_id c'" using t \<open>tree_ok k (Local d ts)\<close> by auto
      then have "u = (c_tbl e, c_sel e)" using cap_id_slot [OF inv(1) c(2)] by (metis prod.collapse)
      then have "u \<in> set (slots t)" using Local by simp
      then show ?thesis using t(1) by auto
    next
      case (Remote x)
      then show ?thesis using t \<open>tree_ok k (Local d ts)\<close> cap_local [OF inv c(2)] by force
    qed
  next
    case False
    then show ?thesis using Local by auto
  qed
qed simp

lemma slots_eq_derived:
  assumes "caps_inv k" "vpes_local k" "tree_ok k (Local c ts)"
  shows "set (slots (Local c ts)) = {s. derived k (c_tbl c, c_sel c) s}"
proof (intro equalityI subsetI)
  fix s assume "s \<in> set (slots (Local c ts))"
  then show "s \<in> {s. derived k (c_tbl c, c_sel c) s}"
    using slots_derived [OF assms(3), of "(c_tbl c, c_sel c)" s] by (simp add: derived_refl)
next
  fix s assume "s \<in> {s. derived k (c_tbl c, c_sel c) s}"
  then have "derived k (c_tbl c, c_sel c) s" by simp
  then show "s \<in> set (slots (Local c ts))"
    by induction (use slots_closed [OF assms(1,2) _ _ _ assms(3)] in auto)
qed

text \<open>The requests of a tree, described by the remote children.\<close>

lemma length_revoke_msgs: "length (revoke_msgs mht origin p t) = remote_count t"
proof (induction t arbitrary: p)
  case (Local c ts)
  then show ?case by (simp add: length_concat comp_def cong: map_cong)
qed simp

definition remote_below :: "kernel \<Rightarrow> slot set \<Rightarrow> (slot \<times> mht_key_t) set" where
  "remote_below k S = {(s, x). s \<in> S \<and> (\<exists>c. k_cap k (fst s) (snd s) = Some c \<and> x \<in> set (c_children c) \<and>
     responsibleMember (k_mht k) x \<noteq> mi_kid (k_mht k))}"

lemma revoke_msgs_set:
  assumes inv: "caps_inv k" "vpes_local k"
  defines "msg \<equiv> \<lambda>origin (s, x). (responsibleMember (k_mht k) x, KC_REVOKE x (slot_id s) origin)"
  shows "tree_ok k t \<Longrightarrow> set (revoke_msgs (k_mht k) origin p t) =
    (case t of Local c ts \<Rightarrow> msg origin ` remote_below k (set (slots t))
     | Remote x \<Rightarrow> {(responsibleMember (k_mht k) x, KC_REVOKE x p origin)})"
proof (induction t arbitrary: p)
  case (Local c ts)
  let ?s = "(c_tbl c, c_sel c)" and ?m = "revoke_msgs (k_mht k) origin (slot_id (c_tbl c, c_sel c))"
  have c: "k_cap k (c_tbl c) (c_sel c) = Some c" "c_children c = map root_key ts" "\<And>t. t \<in> set ts \<Longrightarrow> tree_ok k t"
    using Local.prems by simp_all
  have here: "remote_below k {?s} = (\<lambda>x. (?s, x)) ` {x. Remote x \<in> set ts}"
  proof -
    have e: "x \<in> set (c_children c) \<and> responsibleMember (k_mht k) x \<noteq> mi_kid (k_mht k) \<longleftrightarrow> Remote x \<in> set ts" for x
    proof
      assume "x \<in> set (c_children c) \<and> responsibleMember (k_mht k) x \<noteq> mi_kid (k_mht k)"
      then obtain t where t: "t \<in> set ts" "root_key t = x" "responsibleMember (k_mht k) x \<noteq> mi_kid (k_mht k)" by (auto simp: c(2))
      have "t = Remote x" using c(3) [OF t(1)] t(2,3) by (cases t rule: ctree.exhaust) (auto dest: cap_local [OF inv])
      then show "Remote x \<in> set ts" using t(1) by simp
    qed (use c(2,3) in force)
    have "remote_below k {?s} = {(s, x). s = ?s \<and> x \<in> set (c_children c) \<and> responsibleMember (k_mht k) x \<noteq> mi_kid (k_mht k)}"
      using c(1) by (auto simp: remote_below_def)
    also have "\<dots> = (\<lambda>x. (?s, x)) ` {x. Remote x \<in> set ts}" unfolding e by blast
    finally show ?thesis .
  qed
  have sub: "set (?m t) = msg origin ` (remote_below k (set (slots t)) \<union> (\<lambda>x. (?s, x)) ` {x. t = Remote x})"
    if "t \<in> set ts" for t
    using Local.IH [OF that c(3) [OF that]] by (cases t) (auto simp: remote_below_def msg_def)
  have un: "remote_below k (set (slots (Local c ts))) = remote_below k {?s} \<union> (\<Union>t\<in>set ts. remote_below k (set (slots t)))"
    by (auto simp: remote_below_def)
  show ?case
    unfolding ctree.case un here image_Un image_UN revoke_msgs.simps set_concat set_map
    using sub by (auto simp: image_iff)
qed simp

section \<open>The parent of the revoked capability\<close>

lemma slot_id_fields:
  assumes "fst (fst s) < MAX_PES"
  shows "hashToPeId (slot_id s) = word_of_nat (fst (fst s))" "hashToType (slot_id s) = GENERICOCAP"
    "hashToObjId (slot_id s) = snd s" "unat (hashToPeId (slot_id s)) = fst (fst s)"
proof -
  have u: "unat (word_of_nat (fst (fst s)) :: u16) = fst (fst s)"
    using assms by (simp add: MAX_PES_def unsigned_of_nat take_bit_nat_eq_self)
  then have "unat (word_of_nat (fst (fst s)) :: u16) < 2 ^ PE_BITS" "unat (word_of_nat (fst (fst s)) :: u16) < 2 ^ VPE_BITS"
    "unat GENERICOCAP < 2 ^ TYPE_BITS"
    using assms by (simp_all add: MAX_PES_def PE_BITS_def VPE_BITS_def TYPE_BITS_def item_type_defs)
  note h = hash_fields_structured [OF this, of "snd s"]
  show "hashToPeId (slot_id s) = word_of_nat (fst (fst s))" "hashToType (slot_id s) = GENERICOCAP" "hashToObjId (slot_id s) = snd s"
    "unat (hashToPeId (slot_id s)) = fst (fst s)"
    using h u by (simp_all add: slot_id_def)
qed

lemma obj_key:
  assumes "caps_inv k" "k_cap k tbl sel = Some p" "snd tbl = OBJ"
  shows "generic_id OBJ (c_id p) = slot_id (tbl, sel)"
proof -
  note d = caps_invD [OF assms(1,2)]
  have "kind_item (c_kind p) \<noteq> MAPCAP" using d(1) assms(3) by (auto simp: cap_wf_def)
  then show ?thesis unfolding d(6) using generic_id_cap_key [of "c_kind p" "fst tbl" sel "snd tbl"] by simp
qed

lemma bit_TYPE_MASK_CAP: "bit TYPE_MASK_CAP n \<longleftrightarrow> 36 \<le> n \<and> n < 40"
proof -
  have e: "TYPE_MASK_CAP = push_bit 36 (mask 4)" by (simp add: TYPE_MASK_CAP_def ddl_bits mask_eq_exp_minus_1)
  show ?thesis unfolding e bit_push_bit_iff bit_mask_iff possible_bit_word by auto
qed

lemma mask_generic: "generic_id OBJ x AND NOT TYPE_MASK_CAP = x AND NOT TYPE_MASK_CAP"
proof (rule bit_eqI)
  fix n
  have "bit TYPE_MASK_OCAP n \<Longrightarrow> bit TYPE_MASK_CAP n" unfolding bit_TYPE_MASK_OCAP bit_TYPE_MASK_CAP by auto
  then show "bit (generic_id OBJ x AND NOT TYPE_MASK_CAP) n = bit (x AND NOT TYPE_MASK_CAP) n"
    unfolding generic_id_def crd_type.case bit_and_iff bit_or_iff bit_not_iff by blast
qed

lemma hashToPeId_generic: "hashToPeId (generic_id OBJ x) = hashToPeId x"
proof (rule bit_eqI)
  fix n
  show "bit (hashToPeId (generic_id OBJ x)) n = bit (hashToPeId x) n"
    unfolding generic_id_def crd_type.case bit_hash_fields bit_or_iff bit_TYPE_MASK_OCAP by auto
qed

text \<open>The capability has no parent, or a gate capability of this kernel, or one of another
  known kernel.\<close>

definition parent_ok :: "kernel \<Rightarrow> capability \<Rightarrow> bool" where
  "parent_ok k c \<longleftrightarrow>
     c_parent c AND NOT TYPE_MASK_CAP = 0 \<and> (\<forall>tbl sel p. k_cap k tbl sel = Some p \<longrightarrow> c_id p \<noteq> c_parent c) \<or>
     c_parent c AND NOT TYPE_MASK_CAP \<noteq> 0 \<and>
       ((\<exists>tbl sel p. k_cap k tbl sel = Some p \<and> is_gate p \<and> c_id p = c_parent c \<and> c_ptr p < c_ptr c) \<or>
        responsibleMember (k_mht k) (c_parent c) \<noteq> mi_kid (k_mht k) \<and>
          (\<exists>p. getKPE (responsibleMember (k_mht k) (c_parent c)) (k_mht k) = Inr p))"

definition parent_msgs :: "kernel \<Rightarrow> capability \<Rightarrow> (krnl_id_t \<times> krnl_msg) list" where
  "parent_msgs k c =
     (let kid = responsibleMember (k_mht k) (c_parent c) in
      if c_parent c AND NOT TYPE_MASK_CAP \<noteq> 0 \<and> kid \<noteq> mi_kid (k_mht k)
      then [(kid, KC_REMOVECHILDCAPPTR (generic_id OBJ (c_parent c)) 1 (generic_id OBJ (c_id c)) 1)] else [])"

definition drop_child :: "capability \<Rightarrow> capability \<Rightarrow> capability" where
  "drop_child c p = (if c_id p = c_parent c then removeChildAllTypes (c_id c) p else p)"

lemma drop_from_parent_ok:
  assumes inv: "caps_inv k" "vpes_local k" and par: "parent_ok k c"
  shows "\<exists>k'. drop_from_parent (generic_id OBJ (c_id c)) (generic_id OBJ (c_parent c)) k = Inr k' \<and> caps_inv k' \<and>
    k_cap k' = (\<lambda>tbl sel. map_option (drop_child c) (k_cap k tbl sel)) \<and> krnl_msgs k' = krnl_msgs k @ parent_msgs k c \<and>
    k_revs k' = k_revs k \<and> same_but_caps k k'"
proof -
  let ?p = "generic_id OBJ (c_parent c)" and ?f = "removeChildAllTypes (generic_id OBJ (c_id c))"
  have f: "?f = removeChildAllTypes (c_id c)" by (rule ext) (simp add: removeChildAllTypes_def mask_generic)
  have resp: "responsibleKrnl (k_mht k) (hashToPeId ?p) = responsibleMember (k_mht k) (c_parent c)"
    by (simp add: responsibleMember_def hashToPeId_generic)
  note unf = drop_from_parent_def mask_generic resp Let_def
  consider (none) "c_parent c AND NOT TYPE_MASK_CAP = 0" "\<And>tbl sel p. k_cap k tbl sel = Some p \<Longrightarrow> c_id p \<noteq> c_parent c"
    | (here) tbl sel p where "c_parent c AND NOT TYPE_MASK_CAP \<noteq> 0" "k_cap k tbl sel = Some p" "is_gate p" "c_id p = c_parent c"
    | (remote) q where "c_parent c AND NOT TYPE_MASK_CAP \<noteq> 0" "responsibleMember (k_mht k) (c_parent c) \<noteq> mi_kid (k_mht k)"
        "getKPE (responsibleMember (k_mht k) (c_parent c)) (k_mht k) = Inr q"
    using par unfolding parent_ok_def by blast
  then show ?thesis
  proof cases
    case none
    then have "map_option (drop_child c) (k_cap k tbl sel) = k_cap k tbl sel" for tbl sel
      by (cases "k_cap k tbl sel") (auto simp: drop_child_def)
    then show ?thesis using none(1) inv by (simp add: unf parent_msgs_def)
  next
    case here
    have l: "responsibleMember (k_mht k) (c_parent c) = mi_kid (k_mht k)" using cap_local [OF inv here(2)] here(4) by simp
    have obj: "snd tbl = OBJ" using gate_key [OF inv(1) here(2,3)] by simp
    have tbl: "c_tbl p = tbl" "c_sel p = sel" using caps_invD [OF inv(1) here(2)] by simp_all
    have p: "?p = slot_id (tbl, sel)" using obj_key [OF inv(1) here(2) obj] here(4) by simp
    have fields: "hashToType ?p = GENERICOCAP" "unat (hashToPeId ?p) = fst tbl" "hashToObjId ?p = sel"
      using slot_id_fields [of "(tbl, sel)"] caps_invD(3) [OF inv(1) here(2)] by (simp_all add: p)
    have v: "k_vpes k (fst tbl) \<noteq> None" using here(2) by (auto simp: k_cap_def split: option.splits)
    then obtain w where w: "pe_vpe k (fst tbl) = Inr w" by (auto simp: pe_vpe_def)
    have "findPartition (k_mht k) ?p \<noteq> None"
      using inv(2) v slot_id_fields(1) [of "(tbl, sel)"] caps_invD(3) [OF inv(1) here(2)]
      unfolding vpes_local_def p by simp
    moreover have "(fst tbl, OBJ) = tbl" using obj by (cases tbl) simp
    moreover have "GENERICOCAP AND GENERICOCAP \<noteq> 0" by (simp add: item_type_defs)
    ultimately have "mht_get k ?p = Inr (IT_cap (Some p))"
      using here(2) w by (auto simp: mht_get_def fields)
    then have eq: "drop_from_parent (generic_id OBJ (c_id c)) ?p k = Inr (mod_cap tbl sel ?f k)"
      using here(1) l by (simp add: unf get_cap_data_def fields tbl)
    have "k_cap (mod_cap tbl sel ?f k) tbl' sel' = map_option (drop_child c) (k_cap k tbl' sel')" for tbl' sel'
    proof (cases "k_cap k tbl' sel'")
      case (Some d)
      have "c_id d = c_parent c \<longleftrightarrow> tbl' = tbl \<and> sel' = sel"
        using cap_id_slot [OF inv(1) Some here(2)] here(2,4) Some by (metis option.inject)
      then show ?thesis using Some unfolding f k_cap_mod_cap drop_child_def by auto
    next
      case None
      then show ?thesis using here(2) unfolding k_cap_mod_cap by auto
    qed
    moreover have "caps_inv (mod_cap tbl sel ?f k)"
      by (rule caps_inv_mod_cap [OF inv(1)]) (simp add: removeChildAllTypes_def)
    ultimately show ?thesis
      using l by (intro exI [of _ "mod_cap tbl sel ?f k"])
        (simp add: eq fun_eq_iff krnl_msgs_def parent_msgs_def same_but_caps_def k_vpes_mod_table_None mod_cap_def)
  next
    case remote
    have "c_id d \<noteq> c_parent c" if "k_cap k tbl sel = Some d" for tbl sel d using cap_local [OF inv that] remote(2) by auto
    then have "map_option (drop_child c) (k_cap k tbl sel) = k_cap k tbl sel" for tbl sel
      by (cases "k_cap k tbl sel") (auto simp: drop_child_def)
    moreover have "caps_inv (emit e k)" for e by (rule iffD2 [OF caps_inv_cong [of "emit e k" k] inv(1)]) simp_all
    ultimately show ?thesis
      using remote by (simp add: unf krnl_call_def parent_msgs_def same_but_caps_def)
  qed
qed

lemma remove_first_gone: "distinct (map g xs) \<Longrightarrow> x \<notin> set (remove_first (\<lambda>y. g y = g x) xs)"
  by (induction xs) (auto simp: image_iff)

lemma drop_child_fields [simp]:
  "c_id (drop_child c d) = c_id d" "c_parent (drop_child c d) = c_parent d" "c_ptr (drop_child c d) = c_ptr d"
  "c_kind (drop_child c d) = c_kind d"
  by (simp_all add: drop_child_def removeChildAllTypes_def)

lemma drop_child_subset: "set (c_children (drop_child c d)) \<subseteq> set (c_children d)"
  by (simp add: drop_child_def removeChildAllTypes_def set_remove_first_subset)

lemma derived_gate:
  assumes "caps_inv k" "vpes_local k" "links_ok k" "k_cap k (fst s) (snd s) = Some c" "is_gate c"
  shows "derived k s t \<Longrightarrow> k_cap k (fst t) (snd t) = Some d \<Longrightarrow> is_gate d"
proof (induction arbitrary: d rule: derived.induct)
  case (derived_step t e u e')
  have "is_gate e" using derived_step by blast
  from links_okD(2) [OF assms(3) derived_step(2) this derived_step(4) cap_local [OF assms(1,2) derived_step(3)]]
  obtain tbl' sel' c' where "k_cap k tbl' sel' = Some c'" "is_gate c'" "c_id c' = c_id e'" by blast
  then have "is_gate e'" using cap_id_slot [OF assms(1) derived_step(3)] by metis
  then show ?case using derived_step(3,6) by simp
qed (use assms in simp)

lemma links_ok_revoked:
  assumes inv: "caps_inv k" "vpes_local k" "links_ok k" and c: "k_cap k tbl sel = Some c" "is_gate c"
    and mht: "k_mht k' = k_mht k"
    and caps: "k_cap k' = (\<lambda>t s. if derived k (tbl, sel) (t, s) then None else map_option (drop_child c) (k_cap k t s))"
  shows "links_ok k'"
  unfolding links_ok_def mht
proof (intro allI impI conjI ballI)
  fix t s d' assume "k_cap k' t s = Some d'" "is_gate d'"
  then obtain d where d: "k_cap k t s = Some d" "d' = drop_child c d" "\<not> derived k (tbl, sel) (t, s)" "is_gate d"
    by (auto simp: caps is_gate_def split: if_splits)
  note lk = links_okD [OF inv(3) d(1,4)]
  show "distinct (map (\<lambda>x. x AND NOT TYPE_MASK_CAP) (c_children d'))"
    using lk(1) by (simp add: d(2) drop_child_def removeChildAllTypes_def distinct_map_remove_first)
  fix x assume x': "x \<in> set (c_children d')"
  then have x: "x \<in> set (c_children d)" using subsetD [OF drop_child_subset] d(2) by simp
  show "if responsibleMember (k_mht k) x = mi_kid (k_mht k)
      then \<exists>tbl' sel' c'. k_cap k' tbl' sel' = Some c' \<and> is_gate c' \<and> c_id c' = x \<and> c_parent c' = c_id d' \<and> c_ptr d' < c_ptr c'
      else \<exists>p. getKPE (responsibleMember (k_mht k) x) (k_mht k) = Inr p"
  proof (cases "responsibleMember (k_mht k) x = mi_kid (k_mht k)")
    case True
    obtain tbl' sel' c' where c': "k_cap k tbl' sel' = Some c'" "is_gate c'" "c_id c' = x" "c_parent c' = c_id d" "c_ptr d < c_ptr c'"
      using lk(2) [OF x True] by blast
    have "\<not> derived k (tbl, sel) (tbl', sel')"
    proof
      assume "derived k (tbl, sel) (tbl', sel')"
      then show False
      proof cases
        case derived_refl
        then have "x = c_id c" "c_parent c = c_id d" using c' c by auto
        then show False
          using x' remove_first_gone [OF lk(1), of "c_id c"] by (simp add: d(2) drop_child_def removeChildAllTypes_def)
      next
        case (derived_step r e e')
        then have e': "e' = c'" using c'(1) by simp
        have "is_gate e" using derived_gate [OF inv _ c(2), of "(tbl, sel)" r e] c(1) derived_step by simp
        from links_okD(2) [OF inv(3) derived_step(2) this derived_step(4)] e' True c'(3)
        obtain tb se c2 where c2: "k_cap k tb se = Some c2" "c_id c2 = c_id c'" "c_parent c2 = c_id e" by metis
        have "c2 = c'" using cap_id_slot [OF inv(1) c2(1) c'(1) c2(2)] by simp
        then have "c_id e = c_id d" using c2(3) c'(4) by simp
        then have "r = (t, s)" using cap_id_slot [OF inv(1) derived_step(2) d(1)] by (metis prod.collapse)
        then show False using derived_step(1) d(3) by simp
      qed
    qed
    then have "k_cap k' tbl' sel' = Some (drop_child c c')" using c'(1) by (simp add: caps)
    moreover have "is_gate (drop_child c c')" using c'(2) by (simp add: is_gate_def)
    moreover have "c_id (drop_child c c') = x" "c_parent (drop_child c c') = c_id d'" "c_ptr d' < c_ptr (drop_child c c')"
      using c'(3-5) by (simp_all add: d(2))
    ultimately show ?thesis using True by metis
  next
    case False
    then show ?thesis using lk(3) [OF x] by simp
  qed
qed

section \<open>Revocation at its root\<close>

lemma revoke_root:
  assumes inv: "caps_inv k" "vpes_local k" "links_ok k" and c: "k_cap k tbl sel = Some c" "is_gate c"
    and fresh: "\<And>s. derived k (tbl, sel) s \<Longrightarrow> rlook k (slot_id s) = None" and fuel: "k_next k \<le> fuel"
  defines "cid \<equiv> slot_id (tbl, sel)"
  shows "\<exists>k' M. table_revoke fuel tbl (Some c) (c_id c) (c_id c) k =
      revoke_end (fuel - 1) cid (generic_id OBJ (c_parent c)) cid (M \<noteq> []) k' \<and>
    rstep {s. derived k (tbl, sel) s} M (slot_id ` {s. derived k (tbl, sel) s}) k k' \<and>
    set M = (\<lambda>(s, x). (responsibleMember (k_mht k) x, KC_REVOKE x (slot_id s) cid)) ` remote_children k (tbl, sel) \<and>
    rlook k' cid = (if M \<noteq> [] then Some ((new_entry cid (generic_id OBJ (c_parent c)) cid k)\<lparr>rv_awaitedResp := int (length M)\<rparr>) else None)"
proof -
  obtain ts where t: "tree_ok k (Local c ts)" "depth (Local c ts) \<le> k_next k - c_ptr c"
    using tree_exists [OF inv c] by blast
  have tbl: "c_tbl c = tbl" "c_sel c = sel" and ptr: "c_ptr c < k_next k" using caps_invD [OF inv(1) c(1)] by simp_all
  obtain fuel' where fuel': "fuel = Suc fuel'" using fuel ptr by (cases fuel) auto
  have gk: "generic_id OBJ (c_id c) = cid" "snd tbl = OBJ" using gate_key [OF inv(1) c] by (simp_all add: cid_def)
  have slots: "set (slots (Local c ts)) = {s. derived k (tbl, sel) s}" using slots_eq_derived [OF inv(1,2) t(1)] by (simp add: tbl)
  have dist: "distinct (slots (Local c ts))" by (rule slots_distinct [OF inv t(1)])
  have gen: "generic_key cid" unfolding gk(1) [symmetric] by simp
  have b: "fst (fst s) < MAX_PES \<and> snd (fst s) = OBJ" if "s \<in> set (slots (Local c ts))" for s
    using slots_bound [OF inv(1) t(1) that] .
  have orig: "slot_id s \<noteq> cid" if s: "s \<in> set (concat (map slots ts))" for s
  proof
    assume "slot_id s = cid"
    then have "s = (tbl, sel)"
      using slot_id_inj [of s "(tbl, sel)"] b [of s] b [of "(tbl, sel)"] s by (auto simp: cid_def tbl prod_eq_iff)
    then show False using dist s by (simp add: tbl)
  qed
  have rec: "revokes (\<lambda>c k. revoke_rec fuel' False cid OBJ c k) cid t'" if "t' \<in> set ts" for t'
  proof (rule revokes_tree [OF gen])
    have "depth t' \<le> Max (set (0 # map depth ts))" using that by (intro Max_ge) auto
    then show "depth t' \<le> fuel'" using t(2) fuel fuel' unfolding depth.simps by linarith
  qed
  let ?M = "revoke_msgs (k_mht k) cid 0 (Local c ts)"
  have len: "length ?M = remote_count (Local c ts)" by (rule length_revoke_msgs)
  have "\<exists>k'. revoke_rec_body (\<lambda>i k. vpe_unref fuel' i k) (\<lambda>c k. revoke_rec fuel' False cid OBJ c k) fuel' False c cid OBJ k =
          revoke_end fuel' (slot_id (c_tbl c, c_sel c)) (generic_id OBJ (c_parent c)) cid (0 < remote_count (Local c ts)) k' \<and>
        rstep (set (slots (Local c ts))) ?M (slot_id ` set (slots (Local c ts))) k k' \<and>
        rlook k' (slot_id (c_tbl c, c_sel c)) = (if 0 < remote_count (Local c ts)
          then Some ((new_entry (slot_id (c_tbl c, c_sel c)) (generic_id OBJ (c_parent c)) cid k)
            \<lparr>rv_awaitedResp := int (remote_count (Local c ts))\<rparr>) else None)"
    by (rule revoke_body_ok) (use rec gen inv t(1) dist orig fresh slots in blast)+
  then obtain k' where k': "revoke_rec fuel False cid OBJ c k = revoke_end fuel' cid (generic_id OBJ (c_parent c)) cid (0 < length ?M) k'"
      "rstep {s. derived k (tbl, sel) s} ?M (slot_id ` {s. derived k (tbl, sel) s}) k k'"
      "rlook k' cid = (if 0 < length ?M then Some ((new_entry cid (generic_id OBJ (c_parent c)) cid k)\<lparr>rv_awaitedResp := int (length ?M)\<rparr>) else None)"
    unfolding fuel' revoke_rec.simps len slots tbl cid_def [symmetric] by blast
  have set: "set ?M = (\<lambda>(s, x). (responsibleMember (k_mht k) x, KC_REVOKE x (slot_id s) cid)) ` remote_children k (tbl, sel)"
    using revoke_msgs_set [OF inv(1,2) t(1), of cid 0] unfolding ctree.case slots
    by (simp add: remote_children_def remote_below_def)
  have "table_revoke fuel tbl (Some c) (c_id c) (c_id c) k = revoke_end fuel' cid (generic_id OBJ (c_parent c)) cid (?M \<noteq> []) k'"
    using k'(1) unfolding table_revoke_def gk length_greater_0_conv by (simp add: Let_def gk(1) del: revoke_msgs.simps)
  then show ?thesis using k' set fuel' by (intro exI [of _ k'] exI [of _ ?M]) (simp del: revoke_msgs.simps)
qed

lemma crd_revoke_one:
  "crd_revoke fuel tbl \<lparr>crd_type = OBJ, crd_start = sel, crd_count = 1\<rparr> True k =
     kbind (table_revoke fuel tbl (k_cap k tbl sel) (crd_cap_id tbl (k_cap k tbl sel) sel) (crd_cap_id tbl (k_cap k tbl sel) sel) k)
       (\<lambda>_ k. Inr (Returns NO_ERROR, k))"
proof -
  have "crd_revoke_from fuel tbl [] True = (\<lambda>k. Inr (Returns NO_ERROR, k))" by (simp add: fun_eq_iff)
  then show ?thesis by (simp add: crd_revoke_def Let_def)
qed

section \<open>An example\<close>

text \<open>A kernel with the identifier 0 that manages PE 1; PE 2 belongs to kernel 7. VPE 1 has a send capability
  in slot 1 and one derived from it in slot 2, whose children are given.\<close>

definition demo_mht :: "unit mht" where
  "demo_mht =
     \<lparr>mi_kid = 0,
      mi_table = map (\<lambda>(pe, kid). \<lparr>me_pe = pe, me_krnl = kid, me_capacity = 1, me_flags = 0\<rparr>) [(0, 0), (1, 0), (2, 7)],
      mi_parts = [partition_new 0, partition_new 1], mi_migrating = [],
      mi_kpes = kv_put 7 2 [], mi_seed = 1, mi_out = []\<rparr>"

definition demo_kind :: cap_kind where
  "demo_kind = MsgCap (-1) 0 0"

definition demo_cap :: "nat \<Rightarrow> capsel_t \<Rightarrow> mht_key_t \<Rightarrow> mht_key_t list \<Rightarrow> capability" where
  "demo_cap p sel parent children =
     \<lparr>c_ptr = p, c_type = CAP_MSG, c_sel = sel, c_id = cap_key 1 demo_kind sel, c_tbl = (1, OBJ), c_parent = parent,
      c_children = children, c_kind = demo_kind\<rparr>"

definition demo_a :: capability where
  "demo_a = demo_cap 1 1 0 [cap_key 1 demo_kind 2]"

definition demo_b :: "mht_key_t list \<Rightarrow> capability" where
  "demo_b xs = demo_cap 2 2 (cap_key 1 demo_kind 1) xs"

lemmas demo_defs = demo_a_def demo_b_def demo_cap_def demo_kind_def

definition demo_caps :: "mht_key_t list \<Rightarrow> (capsel_t, capability) treap" where
  "demo_caps xs =
     treap_insert 2 (demo_b xs)
       (treap_insert 1 demo_a treap_new)"

definition demo_vpe :: "mht_key_t list \<Rightarrow> vpe" where
  "demo_vpe xs =
     \<lparr>v_id = 1, v_core = 1, v_flags = 0, v_refs = 1, v_state = RUNNING, v_exitcode = 0, v_sessAwaitingResp = 0, v_syscEP = 0,
      v_lookup = None, v_name = [], v_objcaps = (ct_new 1 OBJ)\<lparr>ct_caps := demo_caps xs\<rparr>, v_mapcaps = ct_new 1 MAP,
      v_as = None, v_requires = [], v_exitsubscr = []\<rparr>"

definition demo :: "mht_key_t list \<Rightarrow> kernel" where
  "demo xs =
     (new_kernel (new_KEnv [] 0 0 0 0 0 0) demo_mht [] [] True)
       \<lparr>k_vpes := [1 \<mapsto> demo_vpe xs], k_count := 1,
        k_objs := [0 \<mapsto> (new_MsgObject 0 1 1 0 0 0)\<lparr>mo_refs := 2\<rparr>], k_next := 3, k_tid := 5\<rparr>"

lemma demo_fields [simp]:
  "k_next (demo xs) = 3" "k_mht (demo xs) = demo_mht" "k_revs (demo xs) = []" "k_tid (demo xs) = 5"
  "k_log (demo xs) = []" "k_objs (demo xs) = [0 \<mapsto> (new_MsgObject 0 1 1 0 0 0)\<lparr>mo_refs := 2\<rparr>]"
  "k_vpes (demo xs) = [1 \<mapsto> demo_vpe xs]"
  by (simp_all add: demo_def new_kernel_def)

lemma demo_caps_inv: "treap_inv (demo_caps xs)"
  and demo_caps_find: "treap_find (demo_caps xs) =
    [1 \<mapsto> demo_a, 2 \<mapsto> demo_b xs]"
proof -
  let ?t = "treap_insert (1 :: capsel_t) demo_a treap_new"
  have n: "treap_find (treap_new :: (capsel_t, capability) treap) = Map.empty" by (auto simp: treap_find_def treap_new_def)
  have t: "treap_inv ?t" "treap_find ?t = [1 \<mapsto> demo_a]"
    using treap_inv_insert [OF treap_inv_new, of "1 :: capsel_t" demo_a]
      treap_find_insert [OF treap_inv_new, of "1 :: capsel_t" demo_a] by (simp_all add: n)
  have z: "treap_find ?t 2 = None" by (simp add: t(2))
  show "treap_inv (demo_caps xs)" unfolding demo_caps_def by (rule treap_inv_insert [OF t(1) z])
  show "treap_find (demo_caps xs) = [1 \<mapsto> demo_a, 2 \<mapsto> demo_b xs]"
    unfolding demo_caps_def treap_find_insert [OF t(1) z] t(2) by simp
qed

lemma demo_cap:
  "k_cap (demo xs) tbl sel =
     (if tbl = (1, OBJ) \<and> sel = 1 then Some demo_a
      else if tbl = (1, OBJ) \<and> sel = 2 then Some (demo_b xs) else None)"
proof -
  have "treap_find (ct_caps (v_table MAP (demo_vpe xs))) sel = None"
    by (simp add: demo_vpe_def v_table_def ct_new_def treap_find_def treap_new_def)
  moreover have "treap_find (ct_caps (v_table OBJ (demo_vpe xs))) sel =
      [1 \<mapsto> demo_a, 2 \<mapsto> demo_b xs] sel"
    by (simp add: demo_vpe_def v_table_def demo_caps_find)
  ultimately show ?thesis by (cases tbl; cases "snd tbl") (auto simp: k_cap_def)
qed

lemma demo_inv: "caps_inv (demo xs)"
  unfolding caps_inv_def
proof (intro conjI allI impI)
  show "tables_ok (demo xs)"
    unfolding tables_ok_def
    by (auto simp: demo_vpe_def v_table_def ct_new_def demo_caps_inv split: if_splits crd_type.splits)
  show "i < MAX_PES" if "k_vpes (demo xs) i \<noteq> None" for i using that by (auto simp: MAX_PES_def split: if_splits)
  show "cap_wf tbl sel c" "c_ptr c < k_next (demo xs)" if "k_cap (demo xs) tbl sel = Some c" for tbl sel c
    using that by (auto simp: demo_cap demo_defs cap_wf_def item_type_defs split: if_splits)
  have r: "refs_to (demo xs) p = (if p = 0 then {((1, OBJ), 1), ((1, OBJ), 2)} else {})" for p
    by (auto simp: refs_to_def demo_cap demo_defs split: if_splits)
  show "finite (refs_to (demo xs) p)" for p by (simp add: r)
  show "card (refs_to (demo xs) p) = (case k_objs (demo xs) p of None \<Rightarrow> 0 | Some ob \<Rightarrow> mo_refs ob)" for p
    by (simp add: r)
  show "refs_to (demo xs) p \<noteq> {}" "p < k_next (demo xs)" if "k_objs (demo xs) p \<noteq> None" for p
    using that by (auto simp: r split: if_splits)
qed

lemma demo_local: "vpes_local (demo xs)"
  by (auto simp: vpes_local_def demo_mht_def findPartition_def responsibleMember_def responsibleKrnl_def
      partition_new_def find_None_iff split: if_splits)

lemma demo_gates [simp]: "is_gate demo_a" "is_gate (demo_b xs)"
  by (simp_all add: demo_defs is_gate_def)

lemma demo_ids: "c_id demo_a = cap_key 1 demo_kind 1" "c_id (demo_b xs) = cap_key 1 demo_kind 2"
  "c_children demo_a = [cap_key 1 demo_kind 2]" "c_children (demo_b xs) = xs"
  "c_parent demo_a = 0" "c_parent (demo_b xs) = cap_key 1 demo_kind 1"
  by (simp_all add: demo_defs)

lemma demo_ptrs: "c_ptr demo_a < c_ptr (demo_b xs)"
  by (simp add: demo_defs)

lemma demo_resp: "responsibleMember demo_mht (cap_key 1 kind sel) = 0" "responsibleMember demo_mht (cap_key 2 kind sel) = 7"
  "mi_kid demo_mht = 0" "getKPE 7 demo_mht = Inr 7"
proof -
  have "hashToPeId (cap_key 1 kind sel) = 1" "hashToPeId (cap_key 2 kind sel) = 2"
    using cap_key_fields(1) [of 1 kind sel] cap_key_fields(1) [of 2 kind sel] by (simp_all add: MAX_PES_def)
  then show "responsibleMember demo_mht (cap_key 1 kind sel) = 0" "responsibleMember demo_mht (cap_key 2 kind sel) = 7"
    by (simp_all add: responsibleMember_def responsibleKrnl_def demo_mht_def)
qed (simp_all add: demo_mht_def getKPE_def kv_get_def kv_put_def)

lemma demo_links: "xs = [] \<or> xs = [cap_key 2 demo_kind 5] \<Longrightarrow> links_ok (demo xs)"
  unfolding links_ok_def
proof (intro allI impI conjI ballI)
  assume xs: "xs = [] \<or> xs = [cap_key 2 demo_kind 5]"
  fix tbl sel c assume c: "k_cap (demo xs) tbl sel = Some c"
  then have c': "c = demo_a \<or> c = demo_b xs" by (auto simp: demo_cap split: if_splits)
  then show "distinct (map (\<lambda>x. x AND NOT TYPE_MASK_CAP) (c_children c))" using xs by (auto simp: demo_ids)
  fix x assume x: "x \<in> set (c_children c)"
  have b: "k_cap (demo xs) (1, OBJ) 2 = Some (demo_b xs)" by (simp add: demo_cap)
  from c' show "if responsibleMember (k_mht (demo xs)) x = mi_kid (k_mht (demo xs))
    then \<exists>tbl' sel' c'. k_cap (demo xs) tbl' sel' = Some c' \<and> is_gate c' \<and> c_id c' = x \<and> c_parent c' = c_id c \<and> c_ptr c < c_ptr c'
    else \<exists>p. getKPE (responsibleMember (k_mht (demo xs)) x) (k_mht (demo xs)) = Inr p"
  proof
    assume a: "c = demo_a"
    have "c_id (demo_b xs) = x" "c_parent (demo_b xs) = c_id c" "c_ptr c < c_ptr (demo_b xs)" "responsibleMember demo_mht x = 0"
      using x demo_ptrs demo_resp(1) [of demo_kind 2] by (simp_all add: a demo_ids)
    then show ?thesis using b demo_gates(2) unfolding demo_fields demo_resp by metis
  next
    assume "c = demo_b xs"
    then have "x = cap_key 2 demo_kind 5" using x xs by (auto simp: demo_ids)
    then show ?thesis by (simp add: demo_resp)
  qed
qed

lemma demo_parent: "parent_ok (demo xs) demo_a"
proof -
  have "unat (hashToPeId 0) \<noteq> 1" by (simp add: hashToPeId_def)
  moreover have "unat (hashToPeId (cap_key 1 demo_kind sel)) = 1" for sel
    using cap_key_fields(5) [of 1 demo_kind sel] by (simp add: MAX_PES_def)
  ultimately have "cap_key 1 demo_kind sel \<noteq> 0" for sel by metis
  then show ?thesis unfolding parent_ok_def by (auto simp: demo_cap demo_ids split: if_splits)
qed

lemma demo_revs: "rlook (demo xs) key = None"
  by (simp add: rlook_def)

lemma demo_derived: "derived (demo xs) ((1, OBJ), 1) ((1, OBJ), 2)"
  by (rule derived_step [OF derived_refl, where c = demo_a and c' = "demo_b xs"]) (simp_all add: demo_cap demo_ids)

lemma demo_remote: "remote_children (demo []) s = {}"
  by (auto simp: remote_children_def demo_cap demo_resp [unfolded One_nat_def] demo_ids split: if_splits)

section \<open>Properties\<close>

lemma derived_ptr:
  assumes "caps_inv k" "vpes_local k" "links_ok k" "k_cap k (fst s) (snd s) = Some c" "is_gate c"
  shows "derived k s t \<Longrightarrow> k_cap k (fst t) (snd t) = Some d \<Longrightarrow> c_ptr c \<le> c_ptr d"
proof (induction arbitrary: d rule: derived.induct)
  case (derived_step t e u e')
  have "is_gate e" by (rule derived_gate [OF assms derived_step(1,2)])
  from links_okD(2) [OF assms(3) derived_step(2) this derived_step(4) cap_local [OF assms(1,2) derived_step(3)]]
  obtain tbl' sel' c' where c': "k_cap k tbl' sel' = Some c'" "c_id c' = c_id e'" "c_ptr e < c_ptr c'" by blast
  then have "c' = e'" using cap_id_slot [OF assms(1) c'(1) derived_step(3)] by simp
  then show ?case using derived_step(3,6) c'(3) derived_step.IH [OF derived_step(2)] by simp
qed (use assms in simp)

lemma parent_ok_step:
  assumes inv: "caps_inv k" "vpes_local k" "links_ok k" and c: "k_cap k tbl sel = Some c" "is_gate c" and par: "parent_ok k c"
    and step: "rstep {s. derived k (tbl, sel) s} M K k k'"
  shows "parent_ok k' c"
proof -
  note d = rstepD [OF step]
  have "k_cap k' t s = Some p" if "k_cap k t s = Some p" "c_ptr p < c_ptr c" for t s p
    using derived_ptr [OF inv, of "(tbl, sel)" c "(t, s)" p] c that by (auto simp: d(3))
  moreover have "k_cap k t s = Some p" if "k_cap k' t s = Some p" for t s p using that by (auto simp: d(3) split: if_splits)
  ultimately show ?thesis using par unfolding parent_ok_def d(6) by meson
qed

text \<open>C2. Revoking a gate or memory capability without remote descendants completes. It removes exactly
  the capability and everything derived from it, the parent (if it is of this kernel)
  loses its child pointer and nothing else changes in the capability tables; a parent of another
  kernel is told to drop the pointer, and no other message is sent. The well-formedness of the
  capability system, reference counts of the objects included, and the forest of the parent and
  child pointers are kept.\<close>

theorem revoke_removes_derived:
  assumes "caps_inv k" "vpes_local k" "links_ok k" "k_cap k tbl sel = Some c" "is_gate c" "parent_ok k c"
    "remote_children k (tbl, sel) = {}" "\<forall>s. derived k (tbl, sel) s \<longrightarrow> rlook k (slot_id s) = None" "k_next k \<le> fuel"
  shows "\<exists>k'. crd_revoke fuel tbl \<lparr>crd_type = OBJ, crd_start = sel, crd_count = 1\<rparr> True k = Inr (Returns NO_ERROR, k') \<and>
    caps_inv k' \<and> links_ok k' \<and> krnl_msgs k' = krnl_msgs k @ parent_msgs k c \<and>
    k_cap k' = (\<lambda>t s. if derived k (tbl, sel) (t, s) then None else map_option (drop_child c) (k_cap k t s))"
proof -
  let ?cid = "slot_id (tbl, sel)" and ?p = "generic_id OBJ (c_parent c)"
  obtain k1 where k1: "table_revoke fuel tbl (Some c) (c_id c) (c_id c) k = revoke_end (fuel - 1) ?cid ?p ?cid False k1"
      "rstep {s. derived k (tbl, sel) s} [] (slot_id ` {s. derived k (tbl, sel) s}) k k1"
    using revoke_root [OF assms(1-5) _ assms(9)] assms(7,8) by auto
  note d = rstepD [OF k1(2)]
  have gk: "generic_id OBJ (c_id c) = ?cid" by (rule gate_key(1) [OF assms(1,4,5)])
  have "parent_ok k1 c" by (rule parent_ok_step [OF assms(1-6) k1(2)])
  from drop_from_parent_ok [OF d(1) vpes_local_same [OF assms(2) d(2)] this]
  obtain k' where k': "drop_from_parent ?cid ?p k1 = Inr k'" "caps_inv k'" "k_cap k' = (\<lambda>t s. map_option (drop_child c) (k_cap k1 t s))"
      "krnl_msgs k' = krnl_msgs k1 @ parent_msgs k1 c" "same_but_caps k1 k'"
    unfolding gk by blast
  have caps: "k_cap k' = (\<lambda>t s. if derived k (tbl, sel) (t, s) then None else map_option (drop_child c) (k_cap k t s))"
    unfolding k'(3) by (auto simp: fun_eq_iff d(3))
  have "k_mht k' = k_mht k" using k'(5) d(6) by (simp add: same_but_caps_def)
  from links_ok_revoked [OF assms(1-5) this caps] have "links_ok k'" .
  moreover have "krnl_msgs k' = krnl_msgs k @ parent_msgs k c" using k'(4) d(4,6) by (simp add: parent_msgs_def)
  moreover have "crd_revoke fuel tbl \<lparr>crd_type = OBJ, crd_start = sel, crd_count = 1\<rparr> True k = Inr (Returns NO_ERROR, k')"
    unfolding crd_revoke_one using k1(1) k'(1) by (simp add: assms(4) crd_cap_id_def revoke_end_def)
  ultimately show ?thesis using k'(2) caps by blast
qed

theorem revoke_removes_derived_witness:
  "\<exists>k'. crd_revoke 3 (1, OBJ) \<lparr>crd_type = OBJ, crd_start = 1, crd_count = 1\<rparr> True (demo []) = Inr (Returns NO_ERROR, k') \<and>
     caps_inv k' \<and> k_cap k' (1, OBJ) 1 = None \<and> k_cap k' (1, OBJ) 2 = None"
proof -
  have "k_cap (demo []) (1, OBJ) 1 = Some demo_a" by (simp add: demo_cap)
  from revoke_removes_derived [OF demo_inv demo_local demo_links this _ demo_parent demo_remote, of 3] demo_derived [of "[]"]
  show ?thesis by (auto simp: demo_revs derived_refl)
qed

text \<open>The state in which the root of a distributed revocation waits.\<close>

lemma revoke_blocked:
  assumes "caps_inv k" "vpes_local k" "links_ok k" "k_cap k tbl sel = Some c" "is_gate c"
    "remote_children k (tbl, sel) \<noteq> {}" "\<forall>s. derived k (tbl, sel) s \<longrightarrow> rlook k (slot_id s) = None" "k_next k \<le> fuel"
  shows "\<exists>k' M. crd_revoke fuel tbl \<lparr>crd_type = OBJ, crd_start = sel, crd_count = 1\<rparr> True k = Inr (Blocked, k') \<and>
    rstep {s. derived k (tbl, sel) s} M (slot_id ` {s. derived k (tbl, sel) s}) k k' \<and> M \<noteq> [] \<and>
    set M = (\<lambda>(s, x). (responsibleMember (k_mht k) x, KC_REVOKE x (slot_id s) (slot_id (tbl, sel)))) ` remote_children k (tbl, sel) \<and>
    rlook k' (slot_id (tbl, sel)) =
      Some ((new_entry (slot_id (tbl, sel)) (generic_id OBJ (c_parent c)) (slot_id (tbl, sel)) k)\<lparr>rv_awaitedResp := int (length M)\<rparr>)"
proof -
  let ?cid = "slot_id (tbl, sel)" and ?p = "generic_id OBJ (c_parent c)"
  obtain k1 M where k1: "table_revoke fuel tbl (Some c) (c_id c) (c_id c) k = revoke_end (fuel - 1) ?cid ?p ?cid (M \<noteq> []) k1"
      "rstep {s. derived k (tbl, sel) s} M (slot_id ` {s. derived k (tbl, sel) s}) k k1"
      "set M = (\<lambda>(s, x). (responsibleMember (k_mht k) x, KC_REVOKE x (slot_id s) ?cid)) ` remote_children k (tbl, sel)"
      "rlook k1 ?cid = (if M \<noteq> [] then Some ((new_entry ?cid ?p ?cid k)\<lparr>rv_awaitedResp := int (length M)\<rparr>) else None)"
    using revoke_root [OF assms(1-5) _ assms(8)] assms(7) by blast
  have M: "M \<noteq> []" using k1(3) assms(6) by auto
  have "revoke_end (fuel - 1) ?cid ?p ?cid (M \<noteq> []) k1 = Inr (Blocked, k1)"
    using M k1(4) by (simp add: revoke_end_def awaited_rlook)
  then have "crd_revoke fuel tbl \<lparr>crd_type = OBJ, crd_start = sel, crd_count = 1\<rparr> True k = Inr (Blocked, k1)"
    unfolding crd_revoke_one using k1(1) by (simp add: assms(4) crd_cap_id_def)
  then show ?thesis using k1(2-4) M by (intro exI [of _ k1] exI [of _ M]) simp
qed



section \<open>Answers of other kernels\<close>

definition notified :: "kernel \<Rightarrow> int list" where
  "notified k = concat (map (\<lambda>e. case e of Ev_notify t m \<Rightarrow> [t] | _ \<Rightarrow> []) (k_log k))"

lemma notified_emit [simp]:
  "notified (emit (Ev_notify t m) k) = notified k @ [t]" "notified (emit (Ev_krnl kid msg) k) = notified k"
  "notified (emit (Ev_received kid) k) = notified k"
  by (simp_all add: notified_def)

text \<open>The answers for one revocation in the order in which they arrive.\<close>

fun finish_all :: "nat \<Rightarrow> mht_key_t \<Rightarrow> (krnl_id_t \<times> bool) list \<Rightarrow> kernel \<Rightarrow> kernel result" where
  "finish_all n cap [] k = Inr k"
| "finish_all n cap ((sender, includeReply) # as) k = rbind (kc_revokeFinish n sender cap (-1) includeReply k) (finish_all n cap as)"

lemma and_or_absorb:
  assumes "x AND m = (m :: u64)"
  shows "x OR m = x"
proof (rule bit_word_eqI)
  fix n
  have "bit (x AND m) n = bit m n" by (simp only: assms)
  then show "bit (x OR m) n = bit x n" unfolding bit_and_iff bit_or_iff by blast
qed

lemma rev_key_generic: "generic_key x \<Longrightarrow> rev_key x = x"
  unfolding generic_key_def rev_key_def by (simp add: and_or_absorb split: if_splits)

text \<open>Handling answers leaves the capabilities and the objects alone.\<close>

definition only_revs :: "kernel \<Rightarrow> kernel \<Rightarrow> bool" where
  "only_revs k k' \<longleftrightarrow> k_mht k' = k_mht k \<and> k_vpes k' = k_vpes k \<and> k_objs k' = k_objs k \<and> k_next k' = k_next k"

lemma only_revs_intros:
  "only_revs k k" "only_revs k k' \<Longrightarrow> only_revs k' k'' \<Longrightarrow> only_revs k k''" "only_revs k (emit e k)" "only_revs k (rev_mod cap g k)"
  "only_revs k (rev_remove cap k)" "only_revs k (rev_await cap n k)"
  by (simp_all add: only_revs_def rev_mod_def rev_remove_def rev_await_def)

lemma notified_cong [simp]: "notified (rev_mod cap f k) = notified k" "notified (rev_remove cap k) = notified k"
    "notified (rev_await cap n k) = notified k"
  and krnl_msgs_revs [simp]: "krnl_msgs (rev_mod cap f k) = krnl_msgs k" "krnl_msgs (rev_remove cap k) = krnl_msgs k"
    "krnl_msgs (rev_await cap n k) = krnl_msgs k"
  by (simp_all add: notified_def krnl_msgs_def rev_mod_def rev_remove_def rev_await_def)

text \<open>One answer for a revocation at its root.\<close>

lemma kc_revokeFinish_root:
  assumes "rlook k cap = Some r" "generic_key cap" "rv_origin r = cap" "getKPE sender (k_mht k) = Inr p"
  shows "\<exists>k'. kc_revokeFinish n sender cap (-1) b k = Inr k' \<and> only_revs k k' \<and>
    rlook k' cap = Some (r\<lparr>rv_awaitedResp := rv_awaitedResp r - 1\<rparr>) \<and> krnl_msgs k' = krnl_msgs k @ [(sender, KC_REPLY)] \<and>
    notified k' = notified k @ (if rv_awaitedResp r = 1 then [rv_tid r] else [])"
proof -
  define k0 where "k0 = (if b then emit (Ev_received sender) k else k)"
  have k0: "only_revs k k0" "rlook k0 = rlook k" "krnl_msgs k0 = krnl_msgs k" "notified k0 = notified k"
    by (simp_all add: k0_def only_revs_intros)
  have id: "rv_capID r = cap" by (rule rlook_capID [OF assms(1)])
  have find: "rev_find k0 cap = Some r"
    using assms(1) k0(2) by (simp add: rev_find_def rev_key_generic [OF assms(2)] rlook_def fun_eq_iff)
  define k1 where "k1 = rev_await cap (-1) k0"
  define k2 where "k2 = (if rv_awaitedResp r = 1 then emit (Ev_notify (rv_tid r) []) k1 else k1)"
  have "only_revs k k1" using only_revs_intros(2) [OF k0(1) only_revs_intros(6)] by (simp add: k1_def)
  then have k2: "only_revs k k2" "rlook k2 cap = Some (r\<lparr>rv_awaitedResp := rv_awaitedResp r - 1\<rparr>)" "krnl_msgs k2 = krnl_msgs k"
    "notified k2 = notified k @ (if rv_awaitedResp r = 1 then [rv_tid r] else [])"
    using k0 assms(1) by (auto simp: k2_def k1_def rlook_await only_revs_def)
  have "k_mht k2 = k_mht k" using k2(1) by (simp add: only_revs_def)
  moreover have "kc_revokeFinish n sender cap (-1) b k = krnl_call sender KC_REPLY k2"
    using assms(3,4) find id by (auto simp: kc_revokeFinish_def Let_def k2_def k1_def k0_def)
  ultimately show ?thesis
    using k2 assms(4) by (intro exI [of _ "emit (Ev_krnl sender KC_REPLY) k2"]) (simp add: krnl_call_def only_revs_def)
qed

lemma finish_all_root:
  "rlook k cap = Some r \<Longrightarrow> generic_key cap \<Longrightarrow> rv_origin r = cap \<Longrightarrow> as \<noteq> [] \<Longrightarrow> rv_awaitedResp r = int (length as) \<Longrightarrow>
   (\<And>a. a \<in> set as \<Longrightarrow> \<exists>p. getKPE (fst a) (k_mht k) = Inr p) \<Longrightarrow>
   \<exists>k'. finish_all n cap as k = Inr k' \<and> only_revs k k' \<and> rlook k' cap = Some (r\<lparr>rv_awaitedResp := 0\<rparr>) \<and>
     notified k' = notified k @ [rv_tid r]"
proof (induction as arbitrary: k r)
  case (Cons a as)
  obtain sender b where a: "a = (sender, b)" by fastforce
  obtain p where p: "getKPE sender (k_mht k) = Inr p" using Cons.prems(6) [of a] by (auto simp: a)
  from kc_revokeFinish_root [OF Cons.prems(1-3) p, of n b]
  obtain k1 where k1: "kc_revokeFinish n sender cap (-1) b k = Inr k1" "only_revs k k1"
      "rlook k1 cap = Some (r\<lparr>rv_awaitedResp := rv_awaitedResp r - 1\<rparr>)"
      "notified k1 = notified k @ (if rv_awaitedResp r = 1 then [rv_tid r] else [])" by blast
  show ?case
  proof (cases "as = []")
    case True
    then show ?thesis using k1 Cons.prems(5) by (simp add: a)
  next
    case False
    have "k_mht k1 = k_mht k" using k1(2) by (simp add: only_revs_def)
    then have "\<exists>k'. finish_all n cap as k1 = Inr k' \<and> only_revs k1 k' \<and>
        rlook k' cap = Some (r\<lparr>rv_awaitedResp := rv_awaitedResp r - 1\<rparr>\<lparr>rv_awaitedResp := 0\<rparr>) \<and>
        notified k' = notified k1 @ [rv_tid (r\<lparr>rv_awaitedResp := rv_awaitedResp r - 1\<rparr>)]"
      by (intro Cons.IH [OF k1(3)]) (use False Cons.prems in auto)
    then obtain k' where k': "finish_all n cap as k1 = Inr k'" "only_revs k1 k'" "rlook k' cap = Some (r\<lparr>rv_awaitedResp := 0\<rparr>)"
      "notified k' = notified k1 @ [rv_tid r]" by auto
    have "rv_awaitedResp r \<noteq> 1" using False Cons.prems(5) by (cases as) auto
    then show ?thesis using k' k1 only_revs_intros(2) [OF k1(2) k'(2)] by (simp add: a)
  qed
qed simp



lemma demo_parent_b: "parent_ok (demo xs) (demo_b xs)"
proof -
  have "c_parent (demo_b xs) AND NOT TYPE_MASK_CAP \<noteq> 0" by code_simp
  moreover have "k_cap (demo xs) (1, OBJ) 1 = Some demo_a" "c_id demo_a = c_parent (demo_b xs)"
    by (simp_all add: demo_cap demo_ids)
  ultimately show ?thesis unfolding parent_ok_def using demo_ptrs demo_gates(1) by blast
qed


text \<open>The answers for a revocation below the root of a tree, all of whose levels are on this
  kernel: the last one is passed on to the subscriber.\<close>

lemma rlook_remove_other: "key \<noteq> cap \<Longrightarrow> rlook (rev_remove cap k) key = rlook k key"
proof -
  assume ne: "key \<noteq> cap"
  have "List.find (\<lambda>r. rv_capID r = key) (remove_first (\<lambda>r. rv_capID r = cap) rs) = List.find (\<lambda>r. rv_capID r = key) rs" for rs
    using ne by (induction rs) auto
  then show ?thesis by (simp add: rlook_def rev_remove_def)
qed

lemma kc_revokeFinish_inner:
  assumes r: "rlook k b = Some rb" "rv_origin rb = root" "rv_subs rb = [root]" "b \<noteq> root" "generic_key b"
    and root: "rlook k root = Some r" "rv_awaitedResp r \<noteq> 1"
    and auth: "responsibleKrnl (k_mht k) (hashToPeId (rv_parent rb)) = mi_kid (k_mht k)" "getKPE sender (k_mht k) = Inr p"
  shows "\<exists>k'. kc_revokeFinish (Suc (Suc n)) sender b (-1) incl k = Inr k' \<and> only_revs k k' \<and> notified k' = notified k \<and>
    (rv_awaitedResp rb \<noteq> 1 \<longrightarrow> rlook k' b = Some (rb\<lparr>rv_awaitedResp := rv_awaitedResp rb - 1\<rparr>)) \<and>
    rlook k' root = Some (if rv_awaitedResp rb = 1 then r\<lparr>rv_awaitedResp := rv_awaitedResp r - 1\<rparr> else r)"
proof -
  define k0 where "k0 = (if incl then emit (Ev_received sender) k else k)"
  define k1 where "k1 = rev_await b (-1) k0"
  define k2 where "k2 = rev_mod b (\<lambda>r. r\<lparr>rv_subs := remove_first (\<lambda>x. x = root) (rv_subs r)\<rparr>) (rev_await root (-1) k1)"
  define k3 where "k3 = (if rv_awaitedResp rb = 1 then rev_remove b k2 else k1)"
  have f: "only_revs k k0" "only_revs k k1" "only_revs k k2" "only_revs k k3"
    by (simp_all add: k0_def k1_def k2_def k3_def only_revs_def rev_mod_def rev_remove_def rev_await_def)
  have n3: "notified k3 = notified k" by (simp add: k0_def k1_def k2_def k3_def)
  have l0: "rlook k0 = rlook k" by (simp add: k0_def)
  have id: "rv_capID rb = b" "rv_capID r = root" using rlook_capID [OF r(1)] rlook_capID [OF root(1)] .
  have l1: "rlook k1 b = Some (rb\<lparr>rv_awaitedResp := rv_awaitedResp rb - 1\<rparr>)" "rlook k1 root = Some r"
    using r(1,4) root(1) by (simp_all add: k1_def rlook_await l0)
  have lr: "rlook (rev_await root (-1) k1) root = Some (r\<lparr>rv_awaitedResp := rv_awaitedResp r - 1\<rparr>)"
    using l1(2) by (simp add: rlook_await)
  have "rlook k2 root = Some (r\<lparr>rv_awaitedResp := rv_awaitedResp r - 1\<rparr>)"
    using r(4) lr by (simp add: k2_def rlook_rev_mod)
  then have l3: "rlook k3 root = Some (if rv_awaitedResp rb = 1 then r\<lparr>rv_awaitedResp := rv_awaitedResp r - 1\<rparr> else r)"
    "rv_awaitedResp rb \<noteq> 1 \<longrightarrow> rlook k3 b = Some (rb\<lparr>rv_awaitedResp := rv_awaitedResp rb - 1\<rparr>)"
    using r(4) l1 by (simp_all add: k3_def rlook_remove_other)
  have find: "rev_find k0 b = Some rb"
    using r(1) l0 by (simp add: rev_find_def rev_key_generic [OF r(5)] rlook_def fun_eq_iff)
  have "list_ex (\<lambda>r. rv_capID r = root) (k_revs k1)"
    using l1(2) by (auto simp: rlook_def list_ex_iff find_Some_iff id)
  then have ns: "notifySubscribers (Suc (Suc n)) b k1 = Inr k2"
    using l1(1) lr r(3) root(2) by (simp add: rlook_def k2_def Let_def)
  have mht: "k_mht k2 = k_mht k" "k_mht k3 = k_mht k" using f by (simp_all add: only_revs_def)
  have eq: "kc_revokeFinish (Suc (Suc n)) sender b (-1) incl k = krnl_call sender KC_REPLY k3"
  proof (cases "rv_awaitedResp rb = 1")
    case True
    then have "rv_awaitedResp rb + -1 = 0" by simp
    then show ?thesis
      using auth r(2,4) find id ns mht True unfolding k1_def
      by (auto simp: kc_revokeFinish_def Let_def k3_def k0_def simp del: notifySubscribers.simps)
  next
    case False
    then show ?thesis using auth(2) find id by (auto simp: kc_revokeFinish_def Let_def k3_def k1_def k0_def)
  qed
  show ?thesis
    using eq auth(2) mht f(4) n3 l3 by (intro exI [of _ "emit (Ev_krnl sender KC_REPLY) k3"]) (simp add: krnl_call_def only_revs_def)
qed

lemma finish_all_inner:
  "rlook k b = Some rb \<Longrightarrow> rv_origin rb = root \<Longrightarrow> rv_subs rb = [root] \<Longrightarrow> b \<noteq> root \<Longrightarrow> generic_key b \<Longrightarrow>
   rlook k root = Some r \<Longrightarrow> rv_awaitedResp r \<noteq> 1 \<Longrightarrow>
   responsibleKrnl (k_mht k) (hashToPeId (rv_parent rb)) = mi_kid (k_mht k) \<Longrightarrow>
   as \<noteq> [] \<Longrightarrow> rv_awaitedResp rb = int (length as) \<Longrightarrow> (\<And>a. a \<in> set as \<Longrightarrow> \<exists>p. getKPE (fst a) (k_mht k) = Inr p) \<Longrightarrow>
   \<exists>k'. finish_all (Suc (Suc n)) b as k = Inr k' \<and> notified k' = notified k \<and>
     rlook k' root = Some (r\<lparr>rv_awaitedResp := rv_awaitedResp r - 1\<rparr>)"
proof (induction as arbitrary: k rb)
  case (Cons a as)
  obtain sender incl where a: "a = (sender, incl)" by fastforce
  obtain p where p: "getKPE sender (k_mht k) = Inr p" using Cons.prems(11) [of a] by (auto simp: a)
  from kc_revokeFinish_inner [OF Cons.prems(1-8) p, of n incl]
  obtain k1 where k1: "kc_revokeFinish (Suc (Suc n)) sender b (-1) incl k = Inr k1" "only_revs k k1" "notified k1 = notified k"
      "rv_awaitedResp rb \<noteq> 1 \<longrightarrow> rlook k1 b = Some (rb\<lparr>rv_awaitedResp := rv_awaitedResp rb - 1\<rparr>)"
      "rlook k1 root = Some (if rv_awaitedResp rb = 1 then r\<lparr>rv_awaitedResp := rv_awaitedResp r - 1\<rparr> else r)" by blast
  have fin: "finish_all (Suc (Suc n)) b (a # as) k = finish_all (Suc (Suc n)) b as k1" by (simp add: a k1(1))
  show ?case
  proof (cases "as = []")
    case True
    then show ?thesis using k1 Cons.prems(10) unfolding fin by simp
  next
    case False
    then have ne: "rv_awaitedResp rb \<noteq> 1" using Cons.prems(10) by (cases as) auto
    have mht: "k_mht k1 = k_mht k" using k1(2) by (simp add: only_revs_def)
    have "\<exists>k'. finish_all (Suc (Suc n)) b as k1 = Inr k' \<and> notified k' = notified k1 \<and>
        rlook k' root = Some (r\<lparr>rv_awaitedResp := rv_awaitedResp r - 1\<rparr>)"
      by (rule Cons.IH [of k1 "rb\<lparr>rv_awaitedResp := rv_awaitedResp rb - 1\<rparr>"]) (use Cons.prems False ne k1 mht in auto)
    then show ?thesis unfolding fin using k1(3) by simp
  qed
qed simp


definition demo_stuck :: kernel where
  "demo_stuck = (demo [])\<lparr>k_revs :=
     [\<lparr>rv_capID = slot_id ((1, OBJ), 2), rv_parent = slot_id ((1, OBJ), 1), rv_origin = slot_id ((1, OBJ), 1),
       rv_awaitedResp = 2, rv_tid = -1, rv_subs = [slot_id ((1, OBJ), 1)]\<rparr>,
      \<lparr>rv_capID = slot_id ((1, OBJ), 1), rv_parent = 0, rv_origin = slot_id ((1, OBJ), 1),
       rv_awaitedResp = 2, rv_tid = 5, rv_subs = []\<rparr>]\<rparr>"


text \<open>C12. The kernel that is asked to revoke a capability for another kernel removes the capability and
  everything derived from it. If no further kernel is involved it answers at once that the
  revocation of this child is finished, naming the waiting parent; otherwise it acknowledges the
  request and keeps an entry that awaits as many answers as it sent requests.\<close>

theorem kc_revoke_handled:
  assumes "caps_inv k" "vpes_local k" "links_ok k" "k_cap k tbl sel = Some c" "is_gate c"
    "\<forall>s. derived k (tbl, sel) s \<longrightarrow> rlook k (slot_id s) = None \<and> slot_id s \<noteq> generic_id OBJ origin" "k_next k \<le> fuel"
    "getKPE sender (k_mht k) = Inr p"
  shows "\<exists>k' M. kc_revoke fuel sender (c_id c) parent origin k = Inr (Returns (), k') \<and> caps_inv k' \<and>
    k_cap k' = (\<lambda>t s. if derived k (tbl, sel) (t, s) then None else k_cap k t s) \<and>
    krnl_msgs k' = krnl_msgs k @ M @ [(sender, if M = [] then KC_REVOKEFINISH parent (-1) True else KC_REPLY)] \<and>
    set M = (\<lambda>(s, x). (responsibleMember (k_mht k) x, KC_REVOKE x (slot_id s) (generic_id OBJ origin))) ` remote_children k (tbl, sel) \<and>
    rlook k' (slot_id (tbl, sel)) = (if M = [] then None
      else Some \<lparr>rv_capID = slot_id (tbl, sel), rv_parent = generic_id OBJ (c_parent c), rv_origin = generic_id OBJ origin,
                 rv_awaitedResp = int (length M), rv_tid = -1, rv_subs = []\<rparr>)"
proof -
  let ?o = "generic_id OBJ origin"
  obtain ts where t: "tree_ok k (Local c ts)" "depth (Local c ts) \<le> k_next k - c_ptr c"
    using tree_exists [OF assms(1-5)] by blast
  let ?t = "Local c ts" and ?M = "revoke_msgs (k_mht k) (generic_id OBJ origin) 0 (Local c ts)"
  have tbl: "c_tbl c = tbl" "c_sel c = sel" using caps_invD [OF assms(1,4)] by simp_all
  have slots: "set (slots ?t) = {s. derived k (tbl, sel) s}" using slots_eq_derived [OF assms(1,2) t(1)] by (simp add: tbl)
  have "depth ?t \<le> fuel" using t(2) assms(7) by linarith
  from revokes_tree [OF _ this, of ?o] have rev: "revokes (\<lambda>c k. revoke_rec fuel False ?o OBJ c k) ?o ?t" by simp
  have pre: "\<forall>s\<in>set (slots ?t). rlook k (slot_id s) = None \<and> slot_id s \<noteq> ?o" using assms(6) unfolding slots by blast
  have len: "remote_count ?t = length ?M" by (rule length_revoke_msgs [symmetric])
  have "\<exists>k1. revoke_rec fuel False ?o OBJ c k = Inr (Returns (int (remote_count ?t)), k1) \<and>
      rstep (set (slots ?t)) ?M (slot_id ` set (slots ?t)) k k1 \<and>
      rlook k1 (slot_id (c_tbl c, c_sel c)) = (if remote_count ?t = 0 then None
        else Some ((new_entry (slot_id (c_tbl c, c_sel c)) (generic_id OBJ (c_parent c)) ?o k)\<lparr>rv_awaitedResp := int (remote_count ?t)\<rparr>))"
    using rev assms(1,2) t(1) slots_distinct [OF assms(1-3) t(1)] pre unfolding revokes_def by blast
  then obtain k1 where k1: "revoke_rec fuel False ?o OBJ c k = Inr (Returns (int (length ?M)), k1)"
      "rstep {s. derived k (tbl, sel) s} ?M (slot_id ` {s. derived k (tbl, sel) s}) k k1"
      "rlook k1 (slot_id (tbl, sel)) = (if ?M = [] then None
        else Some ((new_entry (slot_id (tbl, sel)) (generic_id OBJ (c_parent c)) ?o k)\<lparr>rv_awaitedResp := int (length ?M)\<rparr>))"
    unfolding len slots tbl length_0_conv by blast
  note d = rstepD [OF k1(2)]
  define msg where "msg = (if ?M = [] then KC_REVOKEFINISH parent (-1) True else KC_REPLY)"
  define k2 where "k2 = emit (Ev_krnl sender msg) k1"
  have obj: "snd tbl = OBJ" using gate_key [OF assms(1,4,5)] by simp
  have rev: "table_revoke fuel (c_tbl c) (Some c) (c_id c) origin k = Inr (Returns (int (length ?M)), k1)"
    using k1(1) by (simp add: table_revoke_def Let_def tbl obj del: revoke_msgs.simps)
  have reply: "krnl_call sender msg k1 = Inr k2" using assms(8) d(6) by (simp add: krnl_call_def k2_def)
  have "kc_revoke fuel sender (c_id c) parent origin k = Inr (Returns (), k2)"
    using rev reply gate_lookup [OF assms(1,2,4,5)]
    by (cases "?M = []") (simp_all add: kc_revoke_def mht_fetch_def Let_def msg_def tbl del: revoke_msgs.simps)
  moreover have "caps_inv k2" using d(1) caps_inv_cong [of k2 k1] by (simp add: k2_def)
  moreover have "k_cap k2 = (\<lambda>t s. if derived k (tbl, sel) (t, s) then None else k_cap k t s)" by (auto simp: fun_eq_iff d(3) k2_def)
  moreover have "set ?M = (\<lambda>(s, x). (responsibleMember (k_mht k) x, KC_REVOKE x (slot_id s) ?o)) ` remote_children k (tbl, sel)"
    using revoke_msgs_set [OF assms(1,2) t(1), of ?o 0] unfolding ctree.case slots
    by (simp add: remote_children_def remote_below_def)
  moreover have "?o \<noteq> slot_id (tbl, sel)" using assms(6) derived_refl by metis
  ultimately show ?thesis
    using k1(3) d(4) by (intro exI [of _ k2] exI [of _ ?M]) (simp add: k2_def msg_def new_entry_def del: revoke_msgs.simps)
qed

theorem kc_revoke_handled_witness:
  "\<exists>k'. kc_revoke 3 7 (cap_key 1 demo_kind 1) 99 (cap_key 2 demo_kind 5) (demo []) = Inr (Returns (), k') \<and>
     krnl_msgs k' = [(7, KC_REVOKEFINISH 99 (-1) True)] \<and> k_cap k' (1, OBJ) 2 = None"
proof -
  have a: "k_cap (demo []) (1, OBJ) 1 = Some demo_a" by (simp add: demo_cap)
  have ne: "slot_id s \<noteq> generic_id OBJ (cap_key 2 demo_kind 5)" if "derived (demo []) ((1, OBJ), 1) s" for s
  proof
    assume "slot_id s = generic_id OBJ (cap_key 2 demo_kind 5)"
    moreover have "fst s = (1, OBJ)" using that by cases (auto simp: demo_cap split: if_splits)
    moreover have "hashToPeId (generic_id OBJ (cap_key 2 demo_kind 5)) = 2" by code_simp
    ultimately show False using slot_id_fields(1) [of s] by (simp add: MAX_PES_def)
  qed
  have p: "getKPE 7 (k_mht (demo [])) = Inr 7" by (simp add: demo_resp)
  have pre: "\<forall>s. derived (demo []) ((1, OBJ), 1) s \<longrightarrow>
      rlook (demo []) (slot_id s) = None \<and> slot_id s \<noteq> generic_id OBJ (cap_key 2 demo_kind 5)" using ne by (simp add: demo_revs)
  from kc_revoke_handled [OF demo_inv demo_local demo_links a demo_gates(1) pre _ p, of 3 99] demo_derived [of "[]"]
  show ?thesis by (auto simp: demo_remote krnl_msgs_def [of "demo []"] demo_ids)
qed

end
