(* ===== verification/VPE_Lifecycle.thy ===== *)
theory VPE_Lifecycle
  imports Revocation Kernel_DTU
begin

unbundle bit_operations_syntax

text \<open>
  The life of a VPE (\<^verbatim>\<open>src/src/apps/kernel/pes/VPE.h\<close>, \<^verbatim>\<open>pes/VPE.cc\<close>, \<^verbatim>\<open>arch/baremetal/VPE.cc\<close>,
  \<^verbatim>\<open>arch/gem5/VPE.cc\<close>): its construction with the first two capabilities and the default receive buffer, the
  activation of endpoints, the loading of boot modules, start and exit. Reads and writes of the memory of other
  PEs are logged; of a boot module the state holds what the loader reads from it. The copying
  of program arguments is one logged event.
\<close>

section \<open>Constants and strings\<close>

definition MOD_HEAP_SIZE :: u64 where "MOD_HEAP_SIZE = 64 * 1024"
definition RT_START :: u64 where "RT_START = 0x3000"
definition STACK_TOP :: u64 where "STACK_TOP = RT_START + 0x20000 + 0x1000"
definition RECVBUF_SIZE :: u64 where "RECVBUF_SIZE = 24 * PAGE_SIZE"
definition DEF_RCVBUF_ORDER :: int where "DEF_RCVBUF_ORDER = 8"
definition SYSC_CREDIT_ORD :: nat where "SYSC_CREDIT_ORD = 9"
definition SYSC_EP :: nat where "SYSC_EP = 0"
definition DEF_RECVEP :: nat where "DEF_RECVEP = 1"
definition FIRST_FREE_EP :: nat where "FIRST_FREE_EP = 2"
definition PTE_RW :: u32 where "PTE_RW = 3"

text \<open>\<^verbatim>\<open>String::contains\<close> and \<^verbatim>\<open>strncmp(a, b, strlen(b)) == 0\<close>.\<close>

definition starts_with :: "string \<Rightarrow> string \<Rightarrow> bool" where
  "starts_with s t \<longleftrightarrow> take (length t) s = t"

definition contains :: "string \<Rightarrow> string \<Rightarrow> bool" where
  "contains s t \<longleftrightarrow> list_ex (\<lambda>i. starts_with (drop i s) t) [0..<Suc (length s)]"

section \<open>Endpoints\<close>

text \<open>The object behind a pointer to a capability that was looked up earlier.\<close>

definition cap_at :: "kernel \<Rightarrow> nat \<Rightarrow> capsel_t \<times> nat \<Rightarrow> capability result" where
  "cap_at k i ptr =
     (case k_cap k (i, OBJ) (fst ptr) of
        None \<Rightarrow> Inl Use_after_free
      | Some c \<Rightarrow> if c_ptr c = snd ptr then Inr c else Inl Use_after_free)"

definition cap_obj :: "kernel \<Rightarrow> capability \<Rightarrow> msg_object result" where
  "cap_obj k c =
     (case kind_obj (c_kind c) of
        None \<Rightarrow> Inl Null_deref
      | Some p \<Rightarrow> (case k_objs k p of None \<Rightarrow> Inl Use_after_free | Some ob \<Rightarrow> Inr ob))"

definition set_localepid :: "int \<Rightarrow> capability \<Rightarrow> capability" where
  "set_localepid ep c =
     c\<lparr>c_kind := (case c_kind c of MsgCap _ ob oid \<Rightarrow> MsgCap ep ob oid | MemCap _ ob oid \<Rightarrow> MemCap ep ob oid | kd \<Rightarrow> kd)\<rparr>"

definition xchg_ep :: "nat \<Rightarrow> u64 \<Rightarrow> capability option \<Rightarrow> kernel \<Rightarrow> kernel result" where
  "xchg_ep i epid n k =
     (case n of
        None \<Rightarrow> Inr (emit (Ev_dtu (DTU_invalidate_ep i (unat epid))) k)
      | Some c \<Rightarrow> rbind (cap_obj k c) (\<lambda>ob.
          if c_type c AND CAP_MEM \<noteq> 0
          then Inr (emit (Ev_dtu (DTU_config_mem i (unat epid) (mo_core ob) (mo_vpe ob) (mem_addr ob) (mo_credits ob) (mem_perms ob))) k)
          else Inr (emit (Ev_dtu (DTU_config_send i (unat epid) (mo_label ob) (mo_core ob) (mo_vpe ob) (mo_epid ob)
                 (mo_credits ob) (mo_credits ob))) k)))"

text \<open>\<^verbatim>\<open>do_activate\<close> for capabilities of VPE \<open>i\<close>; the number of the endpoint is stored as an \<^verbatim>\<open>int\<close>.\<close>

definition do_activate :: "nat \<Rightarrow> u64 \<Rightarrow> capability option \<Rightarrow> capability option \<Rightarrow> kernel \<Rightarrow> kernel result" where
  "do_activate i epid oldc newc k =
     rbind (xchg_ep i epid newc k) (\<lambda>k.
       let k = (case oldc of None \<Rightarrow> k | Some c \<Rightarrow> mod_cap (c_tbl c) (c_sel c) (set_localepid (-1)) k)
       in Inr (case newc of None \<Rightarrow> k | Some c \<Rightarrow> mod_cap (c_tbl c) (c_sel c) (set_localepid (get_int epid)) k))"

definition opt_cap_at :: "kernel \<Rightarrow> nat \<Rightarrow> (capsel_t \<times> nat) option \<Rightarrow> capability option result" where
  "opt_cap_at k i p = (case p of None \<Rightarrow> Inr None | Some q \<Rightarrow> rbind (cap_at k i q) (\<lambda>c. Inr (Some c)))"

section \<open>Receive buffers\<close>

text \<open>The callbacks on the wait list of a receive buffer, called with \<^verbatim>\<open>true\<close>.\<close>

fun waiters_attached :: "rb_waiter list \<Rightarrow> kernel \<Rightarrow> kernel result" where
  "waiters_attached [] k = Inr k"
| "waiters_attached (w # ws) k =
     rbind (case w of
              RB_activate i epid oldc newc rinfo \<Rightarrow>
                (case k_vpes k i of
                   None \<Rightarrow> Inl Use_after_free
                 | Some _ \<Rightarrow>
                     rbind (opt_cap_at k i oldc) (\<lambda>oc. rbind (opt_cap_at k i newc) (\<lambda>nc.
                       rbind (do_activate i (word_of_nat epid) oc nc k) (reply_to_vpe i rinfo NO_ERROR []))))
            | RB_remote kid tid \<Rightarrow> krnl_call kid (KC_RECVBUFATTACHED tid NO_ERROR) k)
       (waiters_attached ws)"

definition attach_rbuf :: "vpe \<Rightarrow> nat \<Rightarrow> u64 \<Rightarrow> int \<Rightarrow> int \<Rightarrow> u32 \<Rightarrow> kernel \<Rightarrow> (code \<times> kernel) result" where
  "attach_rbuf v ep addr order msgorder flags k =
     rbind (rb_attach (v_core v) ep addr order msgorder flags (k_rbufs k)) (\<lambda>(err, cfgs, ws, rbs).
       rbind (waiters_attached ws (emit_all (map (\<lambda>c. Ev_dtu (DTU_config_recv (v_id v) c)) cfgs) (k\<lparr>k_rbufs := rbs\<rparr>)))
         (\<lambda>k. Inr (err, k)))"

section \<open>Loading\<close>

text \<open>\<^verbatim>\<open>1 << i\<close>, an \<^verbatim>\<open>int\<close>, widened to 64 bits.\<close>

definition int_shl1 :: "nat \<Rightarrow> u64" where
  "int_shl1 i = word_of_int (sint (push_bit (i mod 32) 1 :: u32))"

definition get_mod :: "string \<Rightarrow> kernel \<Rightarrow> ((boot_module \<times> bool) option \<times> kernel)" where
  "get_mod name k =
     (case List.find (\<lambda>i. starts_with (bm_name (k_mods k ! i)) name \<and>
               (length (bm_name (k_mods k ! i)) = length name \<or> bm_name (k_mods k ! i) ! length name = CHR '' '')) [0..<length (k_mods k)] of
        None \<Rightarrow> (None, k)
      | Some i \<Rightarrow> (Some (k_mods k ! i, k_loaded k AND int_shl1 i = 0), k\<lparr>k_loaded := k_loaded k OR int_shl1 i\<rparr>))"

definition alloc_mem :: "u64 \<Rightarrow> kernel \<Rightarrow> (u64 \<times> kernel) result" where
  "alloc_mem sz k =
     (let (al, mem) = main_allocate sz (k_mem k) in
      if \<not> alloc_valid al then Inl Panic
      else rbind (alloc_pe mem al) (\<lambda>pe. Inr (build_noc_addr (uint pe) (al_addr al), k\<lparr>k_mem := mem\<rparr>)))"

definition read_from_mod :: "boot_module \<Rightarrow> u64 \<Rightarrow> u64 \<Rightarrow> unit result" where
  "read_from_mod md sz offset =
     (if offset + sz < offset \<or> offset + sz > bm_size md then Inl Panic else Inr ())"

fun map_pages :: "nat \<times> crd_type \<Rightarrow> capsel_t \<Rightarrow> u32 \<Rightarrow> capsel_t list \<Rightarrow> u64 \<Rightarrow> kernel \<Rightarrow> kernel result" where
  "map_pages tbl dst perms [] phys k = Inr k"
| "map_pages tbl dst perms (i # is) phys k =
     rbind (new_MapCapability tbl (dst + i) phys perms k) (\<lambda>(c, k).
       rbind (table_set tbl (dst + i) c k) (\<lambda>(_, k). map_pages tbl dst perms is (phys + PAGE_SIZE) k))"

definition map_segment :: "vpe \<Rightarrow> u64 \<Rightarrow> u64 \<Rightarrow> u64 \<Rightarrow> u32 \<Rightarrow> kernel \<Rightarrow> kernel result" where
  "map_segment v phys virt sz perms k =
     rbind (pe_by_core (k_env k) (v_core v)) (\<lambda>d.
       if pe_has_virtmem d
       then (let dst = ucast (drop_bit PAGE_BITS virt); pages = drop_bit PAGE_BITS (round_up sz PAGE_SIZE)
             in map_pages (v_id v, MAP) dst perms (map word_of_nat [0..<unat pages]) phys k)
       else Inr (emit (Ev_dtu (DTU_copy (v_id v) virt phys sz False)) k))"

definition PT_LOAD :: u32 where "PT_LOAD = 1"
definition PF_X :: u32 where "PF_X = 1"
definition PF_W :: u32 where "PF_W = 2"
definition PF_R :: u32 where "PF_R = 4"

definition ph_perms :: "elf_ph \<Rightarrow> u32" where
  "ph_perms ph =
     (if p_flags ph AND PF_R \<noteq> 0 then 1 else 0) OR (if p_flags ph AND PF_W \<noteq> 0 then 2 else 0) OR
     (if p_flags ph AND PF_X \<noteq> 0 then 4 else 0)"

text \<open>One load segment; the result is the new end.\<close>

definition load_segment :: "vpe \<Rightarrow> boot_module \<Rightarrow> bool \<Rightarrow> elf_ph \<Rightarrow> kernel \<Rightarrow> (u64 \<times> kernel) result" where
  "load_segment v md copy ph k =
     (let perms = ph_perms ph; offset = round_dn (p_offset ph) PAGE_SIZE; virt = round_dn (p_vaddr ph) PAGE_SIZE in
      if copy \<and> perms AND 2 \<noteq> 0 \<or> p_filesz ph = 0
      then (let sz = round_up ((p_vaddr ph AND word_of_nat PAGE_BITS) + p_memsz ph) PAGE_SIZE in
        rbind (alloc_mem sz k) (\<lambda>(phys, k).
          rbind (map_segment v phys virt sz perms k) (\<lambda>k.
            Inr (virt + sz, emit (Ev_dtu (DTU_copy (v_id v) virt (bm_addr md + offset) sz (p_filesz ph = 0))) k))))
      else if p_memsz ph \<noteq> p_filesz ph then Inl Assert_failed
      else (let sz = (p_offset ph AND word_of_nat PAGE_BITS) + p_filesz ph in
        rbind (map_segment v (bm_addr md + offset) virt sz perms k) (\<lambda>k. Inr (virt + sz, k))))"

fun load_segments :: "vpe \<Rightarrow> boot_module \<Rightarrow> bool \<Rightarrow> elf_ph list \<Rightarrow> u64 \<Rightarrow> u64 \<Rightarrow> kernel \<Rightarrow> (u64 \<times> kernel) result" where
  "load_segments v md copy [] off end k = Inr (end, k)"
| "load_segments v md copy (ph # phs) off end k =
     rbind (read_from_mod md 56 off) (\<lambda>_.
       if p_type ph \<noteq> PT_LOAD \<or> p_memsz ph = 0 then load_segments v md copy phs (off + bm_phentsize md) end k
       else rbind (load_segment v md copy ph k) (\<lambda>(end, k).
         load_segments v md copy phs (off + bm_phentsize md) end k))"

definition load_mod :: "vpe \<Rightarrow> boot_module \<Rightarrow> bool \<Rightarrow> bool \<Rightarrow> kernel \<Rightarrow> (u64 \<times> kernel) result" where
  "load_mod v md copy needs_heap k =
     rbind (read_from_mod md 64 0) (\<lambda>_.
       if \<not> bm_magic md then Inl Panic
       else rbind (load_segments v md copy (bm_phs md) (bm_phoff md) 0 k) (\<lambda>(end, k).
         rbind (if needs_heap
                then rbind (alloc_mem MOD_HEAP_SIZE k) (\<lambda>(phys, k).
                  map_segment v phys (round_up end PAGE_SIZE) MOD_HEAP_SIZE PTE_RW k)
                else Inr k)
           (\<lambda>k. Inr (bm_entry md, k))))"

definition map_idle :: "vpe \<Rightarrow> kernel \<Rightarrow> kernel result" where
  "map_idle v k =
     rbind (case k_idles k (v_core v) of
              Some idle \<Rightarrow> Inr (idle, k)
            | None \<Rightarrow>
                (case get_mod ''idle'' k of
                   (None, k) \<Rightarrow> Inl Null_deref
                 | (Some (tmp, _), k) \<Rightarrow>
                     rbind (alloc_mem (round_up (bm_size tmp) PAGE_SIZE) k) (\<lambda>(phys, k).
                       let idle = tmp\<lparr>bm_name := ''idle'', bm_addr := phys\<rparr> in
                       Inr (idle, (emit (Ev_dtu (DTU_copy (unat (noc_to_pe phys)) phys (bm_addr tmp) (bm_size tmp) False)) k)
                         \<lparr>k_idles := (k_idles k)(v_core v \<mapsto> idle)\<rparr>))))
       (\<lambda>(idle, k). rbind (load_mod v idle False False k) (\<lambda>(_, k). Inr k))"

definition root_pt :: "addr_space \<Rightarrow> kernel \<Rightarrow> u64 result" where
  "root_pt a k = rbind (alloc_pe (k_mem k) (as_rootpt a)) (\<lambda>pe. Inr (build_noc_addr (uint pe) (al_addr (as_rootpt a))))"

text \<open>The additional receive buffer space of load generators.\<close>

definition rb_extra :: "vpe \<Rightarrow> u64" where
  "rb_extra v = (if contains (v_name v) ''loadgen'' then SECONDARY_RECVBUF_SIZE_SPM else 0)"

text \<open>The part of \<^verbatim>\<open>init_memory\<close> for boot modules.\<close>

definition load_boot_module :: "vpe \<Rightarrow> bool \<Rightarrow> int \<Rightarrow> string \<Rightarrow> kernel \<Rightarrow> kernel result" where
  "load_boot_module v vm argc argv k =
     (case get_mod argv k of
        (None, k) \<Rightarrow> Inl Panic
      | (Some (md, appFirst), k) \<Rightarrow>
          rbind (if vm
                 then (case v_as v of
                         None \<Rightarrow> Inl Null_deref
                       | Some a \<Rightarrow> rbind (root_pt a k) (\<lambda>rp.
                           rbind (alloc_mem (STACK_TOP - RT_START) (emit (Ev_dtu (DTU_config_pf (v_id v) rp (v_syscEP v))) k))
                             (\<lambda>(phys, k). map_segment v phys RT_START (STACK_TOP - RT_START) PTE_RW k)))
                 else Inr k) (\<lambda>k.
            rbind (load_mod v md (\<not> appFirst) True k) (\<lambda>(entry, k).
              Inr (emit (Ev_dtu (DTU_write_env (v_id v) argc argv entry (rb_extra v))) k))))"

definition init_memory :: "nat \<Rightarrow> int \<Rightarrow> string \<Rightarrow> kernel \<Rightarrow> kernel result" where
  "init_memory i argc argv k =
     rbind (pe_vpe k i) (\<lambda>v.
       if v_flags v AND VPE_MEMINIT \<noteq> 0 then Inr k
       else (let k = mod_vpe i (\<lambda>v. v\<lparr>v_flags := v_flags v OR VPE_MEMINIT\<rparr>) k in
         rbind (pe_by_core (k_env k) (v_core v)) (\<lambda>d.
           let vm = pe_has_virtmem d in
           rbind (if v_flags v AND VPE_BOOTMOD \<noteq> 0 then load_boot_module v vm argc argv k else Inr k) (\<lambda>k.
             rbind (map_idle v k) (\<lambda>k.
               rbind (if vm
                      then rbind (alloc_mem RECVBUF_SIZE k) (\<lambda>(phys, k). map_segment v phys RECVBUF_SPACE RECVBUF_SIZE PTE_RW k)
                      else Inr k) (\<lambda>k.
                 rbind (rw_barrier (k_env k) (v_core v)) (\<lambda>bar.
                   Inr (emit (Ev_dtu (DTU_set_rw_barrier i (bar - rb_extra v))) k))))))))"

section \<open>Construction, start and exit\<close>

definition new_AddrSpace :: "int \<Rightarrow> capsel_t \<Rightarrow> kernel \<Rightarrow> addr_space \<times> kernel" where
  "new_AddrSpace ep gate k =
     (let (al, mem) = main_allocate PAGE_SIZE (k_mem k)
      in (\<lparr>as_ep = ep, as_gate = gate, as_rootpt = al\<rparr>, k\<lparr>k_mem := mem\<rparr>))"

text \<open>\<^verbatim>\<open>new MemCapability\<close> and \<^verbatim>\<open>new MsgCapability\<close> with their objects.\<close>

definition new_MemCapability ::
  "nat \<times> crd_type \<Rightarrow> capsel_t \<Rightarrow> u64 \<Rightarrow> u64 \<Rightarrow> u64 \<Rightarrow> int \<Rightarrow> int \<Rightarrow> int \<Rightarrow> mht_key_t \<Rightarrow> kernel \<Rightarrow> (capability \<times> kernel) result" where
  "new_MemCapability tbl sel addr sz perms core vpe epid objid k =
     rbind (new_MemObject addr sz perms core vpe epid objid) (\<lambda>ob.
       let (q, k) = new_obj ob k; (p, k) = fresh k
       in Inr (new_Capability p tbl sel (CAP_MEM OR CAP_MSG) 0 (MemCap (-1) q objid), k))"

definition new_MsgCapability ::
  "nat \<times> crd_type \<Rightarrow> capsel_t \<Rightarrow> u64 \<Rightarrow> int \<Rightarrow> int \<Rightarrow> int \<Rightarrow> u64 \<Rightarrow> mht_key_t \<Rightarrow> kernel \<Rightarrow> capability \<times> kernel" where
  "new_MsgCapability tbl sel label core vpe epid credits objid k =
     (let (q, k) = new_obj (new_MsgObject label core vpe epid credits objid) k; (p, k) = fresh k
      in (new_Capability p tbl sel CAP_MSG 0 (MsgCap (-1) q objid), k))"

definition vpe_key :: "vpe \<Rightarrow> item_type \<Rightarrow> capsel_t \<Rightarrow> mht_key_t" where
  "vpe_key v t objId = structured_hash (word_of_nat (v_core v)) (word_of_nat (v_id v)) t objId"

definition new_VPECapability :: "nat \<times> crd_type \<Rightarrow> capsel_t \<Rightarrow> vpe \<Rightarrow> kernel \<Rightarrow> (capability \<times> kernel) result" where
  "new_VPECapability tbl sel v k =
     rbind (vpe_ref (Some (v_id v)) k) (\<lambda>k.
       let (p, k) = fresh k in Inr (new_Capability p tbl sel CAP_VIRTPE 0 (VPECap (Some (v_id v)) (vpe_key v VPECAP sel)), k))"

text \<open>\<^verbatim>\<open>VPE::init\<close>.\<close>

definition vpe_init :: "vpe \<Rightarrow> kernel \<Rightarrow> kernel result" where
  "vpe_init v k =
     rbind (def_recvbuf (k_env k) (v_core v)) (\<lambda>buf.
       rbind (attach_rbuf v DEF_RECVEP (buf - rb_extra v) DEF_RCVBUF_ORDER DEF_RCVBUF_ORDER 0 k) (\<lambda>(res, k).
         if res \<noteq> NO_ERROR then Inl Assert_failed
         else Inr (emit (Ev_dtu (DTU_config_send (v_id v) SYSC_EP (word_of_nat (v_id v)) (int (ke_kernel_pe (k_env k)))
                (uint (ke_kernelId (k_env k))) (v_syscEP v) (push_bit SYSC_CREDIT_ORD 1) (push_bit SYSC_CREDIT_ORD 1))) k)))"

definition VPE_new ::
  "string \<Rightarrow> nat \<Rightarrow> bool \<Rightarrow> int \<Rightarrow> addr_space option \<Rightarrow> vpe" where
  "VPE_new prog i bootmod syscEP as =
     \<lparr>v_id = i, v_core = i, v_flags = (if bootmod then VPE_BOOTMOD else 0), v_refs = 0, v_state = DEAD,
      v_exitcode = 0, v_sessAwaitingResp = 0, v_syscEP = syscEP, v_lookup = None, v_name = prog,
      v_objcaps = ct_new i OBJ, v_mapcaps = ct_new i MAP, v_as = as, v_requires = [], v_exitsubscr = []\<rparr>"

text \<open>The constructor. The VPE is entered into the table of VPEs before its body runs, which is visible only
  afterwards in the code; nothing in the body looks there.\<close>

definition new_VPE :: "string \<Rightarrow> nat \<Rightarrow> bool \<Rightarrow> int \<Rightarrow> int \<Rightarrow> capsel_t \<Rightarrow> kernel \<Rightarrow> kernel result" where
  "new_VPE prog i bootmod syscEP ep pfgate k =
     rbind (pe_by_core (k_env k) i) (\<lambda>d.
       let k = emit (Ev_dtu (DTU_set_vpeid i)) k;
           (as, k) = (if pe_has_virtmem d then (let (a, k) = new_AddrSpace ep pfgate k in (Some a, k)) else (None, k));
           v = VPE_new prog i bootmod syscEP as;
           k = set_vpe v k
       in rbind (new_VPECapability (i, OBJ) 0 v k) (\<lambda>(c, k).
            rbind (table_set (i, OBJ) 0 c k) (\<lambda>(_, k).
              rbind (new_MemCapability (i, OBJ) 1 0 MEMCAP_END PERM_RWX (int i) (int i) 0 (vpe_key v MEMOBJ 0) k) (\<lambda>(c, k).
                rbind (table_set (i, OBJ) 1 c k) (\<lambda>(_, k). vpe_init v k)))))"

definition vpe_start :: "nat \<Rightarrow> int \<Rightarrow> string \<Rightarrow> kernel \<Rightarrow> kernel result" where
  "vpe_start i argc argv k =
     rbind (vpe_ref (Some i) k) (\<lambda>k.
       rbind (init_memory i argc argv k) (\<lambda>k.
         Inr (mod_vpe i (\<lambda>v. v\<lparr>v_state := RUNNING\<rparr>) (emit (Ev_dtu (DTU_wakeup i)) k))))"

text \<open>\<^verbatim>\<open>VPE::exit\<close>; the callbacks are those of \<^verbatim>\<open>vpectrl\<close>.\<close>

fun exit_callbacks :: "(nat \<times> reply_info) list \<Rightarrow> int \<Rightarrow> kernel \<Rightarrow> kernel result" where
  "exit_callbacks [] exitcode k = Inr k"
| "exit_callbacks ((j, rinfo) # subs) exitcode k =
     rbind (reply_to_vpe j rinfo NO_ERROR [put_int exitcode] k) (exit_callbacks subs exitcode)"

definition vpe_exit :: "nat \<Rightarrow> int \<Rightarrow> kernel \<Rightarrow> kernel result" where
  "vpe_exit i exitcode k =
     rbind (pe_vpe k i) (\<lambda>v.
       rbind (detach_rbufs v (emit (Ev_dtu (DTU_invalidate_eps i FIRST_FREE_EP)) k)) (\<lambda>k.
         let k = mod_vpe i (\<lambda>v. v\<lparr>v_state := DEAD, v_exitcode := exitcode\<rparr>) k in
         rbind (exit_callbacks (v_exitsubscr v) exitcode k) (\<lambda>k.
           Inr (mod_vpe i (\<lambda>v. v\<lparr>v_exitsubscr := []\<rparr>) k))))"

end
