(* ===== verification/PE_Manager.thy ===== *)
theory PE_Manager
  imports VPE_Lifecycle
begin

unbundle bit_operations_syntax

text \<open>
  The management of PEs, services and other kernels: \<^verbatim>\<open>ServiceList\<close> and \<^verbatim>\<open>RemoteServiceList\<close>
  (\<^verbatim>\<open>src/src/apps/kernel/com/Services.h\<close>), the message slots of the two handlers (\<^verbatim>\<open>SyscallHandler.h\<close>,
  \<^verbatim>\<open>KernelcallHandler.h\<close>), the broadcasts of \<^verbatim>\<open>Coordinator\<close> (\<^verbatim>\<open>Coordinator.cc\<close>) and \<^verbatim>\<open>PEManager\<close>
  (\<^verbatim>\<open>pes/PEManager.h\<close>, \<^verbatim>\<open>pes/PEManager.cc\<close>): the choice of a free core, the creation of VPEs, the start of
  programs whose services are there, and the end of the system.
\<close>

section \<open>Services\<close>

definition MAX_KRNL_MSGS :: int where "MAX_KRNL_MSGS = 1"

definition services_find :: "kernel \<Rightarrow> string \<Rightarrow> service option" where
  "services_find k name = List.find (\<lambda>s. sv_name s = name) (k_servs k)"

text \<open>The new service has no reference yet; the service capability takes the first one.\<close>

definition services_add ::
  "nat \<Rightarrow> capsel_t \<Rightarrow> string \<Rightarrow> int \<Rightarrow> u64 \<Rightarrow> int \<Rightarrow> mht_key_t \<Rightarrow> kernel \<Rightarrow> service \<times> kernel" where
  "services_add i sel name ep label capacity key k =
     (let (p, k) = fresh k;
          s = \<lparr>sv_ptr = p, sv_vpe = i, sv_sel = sel, sv_name = name, sv_ep = ep, sv_label = label, sv_id = key,
               sv_closing = False, sv_refs = 0, sv_queue = sq_new capacity\<rparr>
      in (s, k\<lparr>k_servs := k_servs k @ [s]\<rparr>))"

definition service_ref :: "nat \<Rightarrow> kernel \<Rightarrow> kernel result" where
  "service_ref p k =
     (case find_service k p of
        None \<Rightarrow> Inl Use_after_free
      | Some s \<Rightarrow> Inr (mod_service p (\<lambda>s. s\<lparr>sv_refs := sv_refs s + 1\<rparr>) k))"

definition remote_add :: "string \<Rightarrow> mht_key_t \<Rightarrow> kernel \<Rightarrow> kernel" where
  "remote_add name key k = k\<lparr>k_rservs := k_rservs k @ [(key, name)]\<rparr>"

definition remote_exists :: "kernel \<Rightarrow> string \<Rightarrow> bool" where
  "remote_exists k name \<longleftrightarrow> list_ex (\<lambda>s. snd s = name) (k_rservs k)"

definition remote_find :: "kernel \<Rightarrow> string \<Rightarrow> (mht_key_t \<times> string) option" where
  "remote_find k name = List.find (\<lambda>s. snd s = name) (k_rservs k)"

section \<open>Message slots\<close>

text \<open>The first free slot is taken; a slot is never given back.\<close>

fun take_slot :: "int \<Rightarrow> nat \<Rightarrow> int list \<Rightarrow> (nat \<times> int list) option" where
  "take_slot i n [] = None"
| "take_slot i n (x # xs) =
     (if x = -1 then Some (n, i # xs)
      else case take_slot i (Suc n) xs of None \<Rightarrow> None | Some (m, ys) \<Rightarrow> Some (m, x # ys))"

definition sysc_ep_of :: "nat \<Rightarrow> int" where
  "sysc_ep_of slot = int (slot div MAX_MSG_SLOTS + SYSC_EP)"

definition reserve_ep :: "int \<Rightarrow> kernel \<Rightarrow> int \<times> kernel" where
  "reserve_ep i k =
     (case take_slot i 0 (k_epOccup k) of
        None \<Rightarrow> (-1, k)
      | Some (slot, occ) \<Rightarrow> (sysc_ep_of slot, k\<lparr>k_epOccup := occ\<rparr>))"

definition ep_for :: "int \<Rightarrow> kernel \<Rightarrow> int" where
  "ep_for i k = (case index_of (\<lambda>x. x = i) 0 (k_epOccup k) of None \<Rightarrow> -1 | Some slot \<Rightarrow> sysc_ep_of slot)"

definition krnlc_ep_of :: "nat \<Rightarrow> int" where
  "krnlc_ep_of slot = int (slot * nat MAX_MSG_INFLIGHT div MAX_MSG_SLOTS + KRNLC_EP)"

definition kc_reserve_ep :: "krnl_id_t \<Rightarrow> kernel \<Rightarrow> int \<times> kernel" where
  "kc_reserve_ep kid k =
     (case take_slot (uint kid) 0 (k_kcOccup k) of
        None \<Rightarrow> (-1, k)
      | Some (slot, occ) \<Rightarrow> (krnlc_ep_of slot, k\<lparr>k_kcOccup := occ\<rparr>))"

definition kc_ep_for :: "krnl_id_t \<Rightarrow> kernel \<Rightarrow> int" where
  "kc_ep_for kid k = (case index_of (\<lambda>x. x = uint kid) 0 (k_kcOccup k) of None \<Rightarrow> -1 | Some slot \<Rightarrow> krnlc_ep_of slot)"

section \<open>Other kernels\<close>

definition kpe_list :: "kernel \<Rightarrow> (krnl_id_t, pe_id_t) kvstore" where
  "kpe_list k = mi_kpes (k_mht k)"

definition kid :: "kernel \<Rightarrow> krnl_id_t" where
  "kid k = mi_kid (k_mht k)"

definition numKPEs :: "kernel \<Rightarrow> nat" where
  "numKPEs k = kv_size (kpe_list k)"

definition addKPE :: "krnl_id_t \<Rightarrow> pe_id_t \<Rightarrow> int \<Rightarrow> int \<Rightarrow> kernel \<Rightarrow> kernel" where
  "addKPE krnl core localEp remoteEp k =
     k\<lparr>k_mht := (k_mht k)\<lparr>mi_kpes := kv_put krnl core (kpe_list k)\<rparr>,
       k_kpes := (k_kpes k)(krnl := new_KPE localEp remoteEp)\<rparr>"

definition removeKPE :: "krnl_id_t \<Rightarrow> kernel \<Rightarrow> kernel result" where
  "removeKPE krnl k =
     rbind (getKPE krnl (k_mht k)) (\<lambda>_.
       Inr (k\<lparr>k_mht := (k_mht k)\<lparr>mi_kpes := snd (kv_remove krnl (kpe_list k))\<rparr>\<rparr>))"

definition broadcast :: "krnl_msg \<Rightarrow> kernel \<Rightarrow> kernel" where
  "broadcast msg k = emit_all (map (\<lambda>e. Ev_krnl (kv_id e) msg) (kpe_list k)) k"

definition broadcastCreateSess :: "int \<Rightarrow> string \<Rightarrow> mht_key_t \<Rightarrow> stream \<Rightarrow> kernel \<Rightarrow> nat \<times> kernel" where
  "broadcastCreateSess i srvname cap args k = (numKPEs k, broadcast (KC_CREATESESSFWD i srvname cap (k_tid k) args) k)"

definition broadcastAnnounceSrv :: "string \<Rightarrow> mht_key_t \<Rightarrow> kernel \<Rightarrow> nat \<times> kernel" where
  "broadcastAnnounceSrv srvname key k = (numKPEs k, broadcast (KC_ANNOUNCESRV key srvname) k)"

definition set_shutdown_state :: "krnl_id_t \<Rightarrow> shutdown_state \<Rightarrow> kernel \<Rightarrow> kernel" where
  "set_shutdown_state krnl st k = k\<lparr>k_kpes := (k_kpes k)(krnl := (k_kpes k krnl)\<lparr>kp_readyForShutdown := st\<rparr>)\<rparr>"

fun shutdown_requests :: "krnl_id_t list \<Rightarrow> nat \<Rightarrow> kernel \<Rightarrow> nat \<times> kernel" where
  "shutdown_requests [] n k = (n, k)"
| "shutdown_requests (krnl # krnls) n k =
     (if kp_readyForShutdown (k_kpes k krnl) = SS_NONE
      then shutdown_requests krnls (Suc n)
             (set_shutdown_state krnl SS_INFLIGHT (emit (Ev_krnl krnl (KC_SHUTDOWNREQUEST KREQUEST)) k))
      else shutdown_requests krnls n k)"

definition broadcastShutdownRequest :: "kernel \<Rightarrow> nat \<times> kernel" where
  "broadcastShutdownRequest k = shutdown_requests (map kv_id (kpe_list k)) 0 k"

definition broadcastShutdown :: "kernel \<Rightarrow> kernel" where
  "broadcastShutdown k = broadcast (KC_SHUTDOWN KREQUEST) k"

definition broadcastStartApps :: "kernel \<Rightarrow> kernel" where
  "broadcastStartApps k = broadcast KC_STARTAPPS k"

section \<open>Free cores\<close>

definition usable_core :: "kernel \<Rightarrow> (pe_desc \<Rightarrow> bool) \<Rightarrow> pe_desc \<Rightarrow> bool" where
  "usable_core k P d \<longleftrightarrow>
     responsibleKrnl (k_mht k) (word_of_nat (core_id d)) = kid k \<and> \<not> isKPE (word_of_nat (core_id d)) (k_mht k) \<and>
     k_vpes k (core_id d) = None \<and> P d"

fun first_free :: "kernel \<Rightarrow> (pe_desc \<Rightarrow> bool) \<Rightarrow> nat list \<Rightarrow> nat result" where
  "first_free k P [] = Inr MAX_PES"
| "first_free k P (i # is) =
     rbind (pe_by_index (k_env k) i) (\<lambda>d. if usable_core k P d then Inr (core_id d) else first_free k P is)"

text \<open>Both loops run to \<^verbatim>\<open>i <= Platform::pe_count()\<close>.\<close>

definition free_core :: "pe_desc \<Rightarrow> kernel \<Rightarrow> nat result" where
  "free_core pe k = first_free k (\<lambda>d. pe_type d = pe_type pe) [ke_first_pe (k_env k)..<Suc (ke_pe_count (k_env k))]"

definition free_compute_core :: "kernel \<Rightarrow> nat result" where
  "free_compute_core k = first_free k (\<lambda>d. pe_type d \<noteq> PE_MEM) [ke_first_pe (k_env k)..<Suc (ke_pe_count (k_env k))]"

text \<open>The loop that counts down compares unsigned numbers: it leaves the array if the first PE has index 0.\<close>

fun last_free :: "kernel \<Rightarrow> nat \<Rightarrow> nat list \<Rightarrow> nat result" where
  "last_free k offset [] = (if ke_first_pe (k_env k) = 0 then Inl Out_of_bounds else Inr MAX_PES)"
| "last_free k offset (i # is) =
     rbind (pe_by_index (k_env k) i) (\<lambda>d.
       if usable_core k (\<lambda>d. pe_type d \<noteq> PE_MEM) d
       then if offset = 0 then Inr (core_id d) else last_free k (offset - 1) is
       else last_free k offset is)"

definition free_compute_core_from_back :: "nat \<Rightarrow> kernel \<Rightarrow> nat result" where
  "free_compute_core_from_back offset k =
     (if ke_pe_count (k_env k) = 0 then Inl Out_of_bounds
      else last_free k offset (rev [ke_first_pe (k_env k)..<ke_pe_count (k_env k)]))"

fun deprivilege_each :: "nat list \<Rightarrow> kernel \<Rightarrow> kernel result" where
  "deprivilege_each [] k = Inr k"
| "deprivilege_each (i # is) k =
     rbind (pe_by_index (k_env k) i) (\<lambda>d.
       deprivilege_each is (if pe_type d \<noteq> PE_MEM then emit (Ev_dtu (DTU_deprivilege (core_id d))) k else k))"

definition deprivilege_pes :: "kernel \<Rightarrow> kernel result" where
  "deprivilege_pes k = deprivilege_each [ke_first_pe (k_env k)..<ke_pe_count (k_env k)] k"

section \<open>Creating and starting VPEs\<close>

definition path_to_name :: "string \<Rightarrow> string option \<Rightarrow> string" where
  "path_to_name path suffix =
     rev (takeWhile (\<lambda>c. c \<noteq> CHR ''/'') (rev (take 255 path))) @
     (case suffix of None \<Rightarrow> [] | Some s \<Rightarrow> ''-'' @ s)"

definition pe_create :: "string \<Rightarrow> pe_desc \<Rightarrow> int \<Rightarrow> capsel_t \<Rightarrow> kernel \<Rightarrow> (nat option \<times> kernel) result" where
  "pe_create name pe ep pfgate k =
     rbind (free_core pe k) (\<lambda>i.
       if i = MAX_PES then Inr (None, k)
       else rbind (pe_by_core (k_env k) i) (\<lambda>d.
         if \<not> pe_has_virtmem d \<and> pfgate \<noteq> INV_SEL then Inr (None, k)
         else (let (e, k) = reserve_ep (int i) k;
                   syscEP = (if e = -1 then int (SYSC_EP + SYSC_GATES - 1) else e)
               in rbind (new_VPE name i False syscEP ep pfgate k)
                    (\<lambda>k. Inr (Some i, k\<lparr>k_count := k_count k + 1\<rparr>)))))"

text \<open>A number as the output stream prints it.\<close>

fun print_nat :: "nat \<Rightarrow> string" where
  "print_nat n = (if n < 10 then [] else print_nat (n div 10)) @ [char_of (48 + n mod 10)]"

declare print_nat.simps [simp del]

text \<open>The part of \<^verbatim>\<open>load\<close> that makes a VPE for a boot module.\<close>

definition load_vpe :: "string \<Rightarrow> kernel \<Rightarrow> (nat \<times> kernel) result" where
  "load_vpe arg k =
     rbind (free_compute_core k) (\<lambda>no.
       if no = MAX_PES then Inl Panic
       else (let (e, k) = reserve_ep (int no) k;
                 syscEP = (if e = -1 then int (SYSC_EP + SYSC_GATES - 1) else e)
             in rbind (new_VPE (path_to_name arg None @ ''-'' @ print_nat no) no True syscEP (-1) INV_SEL k)
                  (\<lambda>k. Inr (no, k\<lparr>k_count := k_count k + 1\<rparr>))))"

definition service_known :: "kernel \<Rightarrow> string \<Rightarrow> bool" where
  "service_known k name \<longleftrightarrow> services_find k name \<noteq> None \<or> remote_exists k name"

text \<open>One pass over the list of pending programs: those that satisfy \<open>P\<close> and whose requirements are fulfilled
  are started and removed.\<close>

fun start_pass :: "(vpe \<Rightarrow> bool) \<Rightarrow> (nat \<times> int \<times> string) list \<Rightarrow> kernel \<Rightarrow> ((nat \<times> int \<times> string) list \<times> kernel) result" where
  "start_pass P [] k = Inr ([], k)"
| "start_pass P ((i, argc, argv) # ps) k =
     (case k_vpes k i of
        None \<Rightarrow> Inl Use_after_free
      | Some v \<Rightarrow>
          if list_all (service_known k) (v_requires v) \<and> P v
          then rbind (vpe_start i argc argv k) (start_pass P ps)
          else rbind (start_pass P ps k) (\<lambda>(rest, k). Inr ((i, argc, argv) # rest, k)))"

definition open_requirements :: "kernel \<Rightarrow> nat result" where
  "open_requirements k =
     foldr (\<lambda>(i, _) r. rbind r (\<lambda>n. case k_vpes k i of
         None \<Rightarrow> Inl Use_after_free
       | Some v \<Rightarrow> Inr (length (filter (\<lambda>name. \<not> service_known k name) (v_requires v)) + n)))
       (k_pending k) (Inr 0)"

text \<open>\<open>start_sign\<close> tells whether programs may be started now.\<close>

definition start_sign :: "kernel \<Rightarrow> (bool \<times> kernel) result" where
  "start_sign k =
     (let sent = (\<lambda>k. k\<lparr>k_coord := (k_coord k)\<lparr>co_startSignSent := True\<rparr>\<rparr>) in
      if co_startSignSent (k_coord k) then Inr (True, k)
      else rbind (open_requirements k) (\<lambda>openReqs.
        if kid k = 0
        then if openReqs = 0 \<and> co_startSignsAwaited (k_coord k) = 0
             then Inr (True, broadcastStartApps (sent k)) else Inr (False, k)
        else if openReqs = 0 then rbind (krnl_call 0 KC_STARTAPPS (sent k)) (\<lambda>k. Inr (True, k))
        else Inr (True, k)))"

definition start_pending :: "kernel \<Rightarrow> kernel result" where
  "start_pending k =
     rbind (start_pass (\<lambda>v. contains (v_name v) ''srvtrace'') (k_pending k) k) (\<lambda>(ps, k).
       rbind (start_sign (k\<lparr>k_pending := ps\<rparr>)) (\<lambda>(go, k).
         if \<not> go \<or> co_startSignsAwaited (k_coord k) \<noteq> 0 then Inr k
         else rbind (start_pass (\<lambda>_. True) (k_pending k) k) (\<lambda>(ps, k). Inr (k\<lparr>k_pending := ps\<rparr>))))"

section \<open>The end\<close>

fun send_shutdown :: "nat list \<Rightarrow> kernel \<Rightarrow> kernel result" where
  "send_shutdown [] k = Inr k"
| "send_shutdown (p # ps) k = rbind (srv_send p SRV_SHUTDOWN CB_none k) (send_shutdown ps)"

definition pe_shutdown :: "kernel \<Rightarrow> kernel result" where
  "pe_shutdown k =
     (if k_shutdown k then Inr k else send_shutdown (map sv_ptr (k_servs k)) (k\<lparr>k_shutdown := True\<rparr>))"

fun unref_all :: "nat \<Rightarrow> nat list \<Rightarrow> kernel \<Rightarrow> unit step" where
  "unref_all n [] k = Inr (Returns (), k)"
| "unref_all n (i # is) k =
     (if k_vpes k i = None then unref_all n is k
      else kbind (vpe_unref n i k) (\<lambda>_ k. unref_all n is k))"

definition pe_destroy :: "nat \<Rightarrow> kernel \<Rightarrow> unit step" where
  "pe_destroy n k =
     (if k_stopped k then Inr (Returns (), k)
      else kbind (unref_all n [0..<ke_pe_count (k_env k)] k) (\<lambda>_ k. Inr (Returns (), k\<lparr>k_stopped := True\<rparr>)))"

definition pe_terminate :: "nat \<Rightarrow> kernel \<Rightarrow> bool step" where
  "pe_terminate n k =
     (if list_ex (\<lambda>e. waitingThreads (k_kpes k (kv_id e)) \<noteq> 0) (kpe_list k) then Inr (Returns False, k)
      else if k_count k = 0 then kbind (pe_destroy n k) (\<lambda>_ k. Inr (Returns True, k))
      else if k_count k = k_daemons k then kbind (lift (pe_shutdown k)) (\<lambda>_ k. Inr (Returns False, k))
      else Inr (Returns False, k))"

text \<open>\<^verbatim>\<open>Kernelcalls::requestShutdown\<close> counts the replies.\<close>

definition requestShutdown :: "krnl_id_t \<Rightarrow> op_stage \<Rightarrow> kernel \<Rightarrow> kernel result" where
  "requestShutdown krnl stage k =
     rbind (krnl_call krnl (KC_SHUTDOWNREQUEST stage) k) (\<lambda>k.
       Inr (if stage = KREPLY then k\<lparr>k_coord := (k_coord k)\<lparr>co_shutdownRequests := co_shutdownRequests (k_coord k) - 1\<rparr>\<rparr> else k))"

definition checkShutdown :: "nat \<Rightarrow> kernel \<Rightarrow> unit step" where
  "checkShutdown n k =
     (if co_shutdownIssued (k_coord k) \<and> \<not> k_shutdownReplySent k
      then kbind (pe_terminate n k) (\<lambda>done k.
        if done then kbind (lift (krnl_call 0 (KC_SHUTDOWN KREPLY) k)) (\<lambda>_ k. Inr (Returns (), k\<lparr>k_shutdownReplySent := True\<rparr>))
        else Inr (Returns (), k))
      else Inr (Returns (), k))"

definition tryTerminate :: "nat \<Rightarrow> kernel \<Rightarrow> unit step" where
  "tryTerminate n k =
     (if numKPEs k = 0 then kbind (pe_terminate n k) (\<lambda>_ k. Inr (Returns (), k))
      else if k_count k \<le> k_daemons k
      then if kid k \<noteq> 0
        then if co_closingRequests (k_coord k) \<ge> 0
          then if co_shutdownIssued (k_coord k) \<and> k_daemons k = 0
            then kbind (pe_terminate n k) (\<lambda>done k. if done then lift (krnl_call 0 (KC_SHUTDOWN KREPLY) k) else Inr (Returns (), k))
            else if co_shutdownRequests (k_coord k) > 0 then lift (requestShutdown 0 KREPLY k)
            else Inr (Returns (), k)
          else kbind (lift (requestShutdown 0 KREQUEST k)) (\<lambda>_ k.
            Inr (Returns (), k\<lparr>k_coord := (k_coord k)\<lparr>co_closingRequests := co_closingRequests (k_coord k) + 1\<rparr>\<rparr>))
        else (let (m, k) = broadcastShutdownRequest k;
                  k = k\<lparr>k_coord := (k_coord k)\<lparr>co_closingRequests := int m\<rparr>\<rparr>
              in if m = 0 then kbind (pe_terminate n k) (\<lambda>_ k. Inr (Returns (), k)) else Inr (Returns (), k))
      else Inr (Returns (), k))"

end
