(* ===== verification/Syscalls.thy ===== *)
theory Syscalls
  imports PE_Manager
begin

unbundle bit_operations_syntax

text \<open>
  The system calls (\<^verbatim>\<open>src/src/apps/kernel/SyscallHandler.cc\<close>). A handler gets the VPE that called, the arguments it
  unmarshals from the message and, where it needs it, the reply information of the message and the rest of the message.
  A handler whose thread waits stops with \<^const>\<open>Blocked\<close>; what the thread does when it is woken up is a definition
  of its own with the suffix \<open>_resumed\<close>, and what the reply of a service triggers is one with the suffix \<open>_cb\<close>.
\<close>

section \<open>Helpers\<close>

definition UNLIM_CREDITS :: u64 where "UNLIM_CREDITS = -1"

text \<open>\<^verbatim>\<open>reply_vmsg(is, ...)\<close> and \<^verbatim>\<open>SYS_ERROR\<close>.\<close>

definition sys_reply :: "nat \<Rightarrow> code \<Rightarrow> stream \<Rightarrow> kernel \<Rightarrow> unit step" where
  "sys_reply i err payload k = Inr (Returns (), emit (Ev_reply i err payload) k)"

definition the_vpe :: "kernel \<Rightarrow> nat \<Rightarrow> vpe result" where
  "the_vpe k i = (case k_vpes k i of None \<Rightarrow> Inl Use_after_free | Some v \<Rightarrow> Inr v)"

text \<open>The VPE that a VPE capability points to.\<close>

definition cap_vpe :: "kernel \<Rightarrow> capability \<Rightarrow> vpe result" where
  "cap_vpe k c = (case c_kind c of VPECap (Some j) _ \<Rightarrow> the_vpe k j | _ \<Rightarrow> Inl Null_deref)"

text \<open>The check that \<open>tcap\<close> names a VPE capability of the caller.\<close>

definition with_vpe_cap :: "nat \<Rightarrow> capsel_t \<Rightarrow> (capability \<Rightarrow> unit step) \<Rightarrow> kernel \<Rightarrow> unit step" where
  "with_vpe_cap i tcap f k =
     (case cap_get k (i, OBJ) tcap CAP_VIRTPE of None \<Rightarrow> sys_reply i INV_ARGS [] k | Some c \<Rightarrow> f c)"

definition cap_localepid :: "capability \<Rightarrow> int" where
  "cap_localepid c = (case c_kind c of MsgCap ep _ _ \<Rightarrow> ep | MemCap ep _ _ \<Rightarrow> ep | _ \<Rightarrow> -1)"

definition size_of_int :: "int \<Rightarrow> nat" where
  "size_of_int i = unat (word_of_int i :: u64)"

definition new_SessionCapability ::
  "nat \<times> crd_type \<Rightarrow> capsel_t \<Rightarrow> nat option \<Rightarrow> mht_key_t \<Rightarrow> u64 \<Rightarrow> bool \<Rightarrow> mht_key_t \<Rightarrow> kernel \<Rightarrow> (capability \<times> kernel) result" where
  "new_SessionCapability tbl sel srv srvid ident servowned capid k =
     rbind (case srv of None \<Rightarrow> Inr k | Some p \<Rightarrow> service_ref p k) (\<lambda>k.
       let (q, k) = new_sess \<lparr>so_servowned = servowned, so_ident = ident, so_srv = srv, so_srvID = srvid, so_refs = 0\<rparr> k;
           (p, k) = fresh k
       in Inr (new_Capability p tbl sel CAP_SESSION capid (SessCap q), k))"

definition new_ServiceCapability :: "nat \<times> crd_type \<Rightarrow> capsel_t \<Rightarrow> nat \<Rightarrow> mht_key_t \<Rightarrow> kernel \<Rightarrow> (capability \<times> kernel) result" where
  "new_ServiceCapability tbl sel s capid k =
     rbind (service_ref s k) (\<lambda>k. let (p, k) = fresh k in Inr (new_Capability p tbl sel CAP_SERVICE capid (ServCap s), k))"

text \<open>\<^verbatim>\<open>received_reply\<close> of a service; a request that was queued is sent.\<close>

definition srv_received :: "nat \<Rightarrow> kernel \<Rightarrow> kernel result" where
  "srv_received p k =
     (case find_service k p of
        None \<Rightarrow> Inl Use_after_free
      | Some s \<Rightarrow> rbind (received_reply (sv_queue s)) (\<lambda>(out, q).
          Inr (emit_all (map (\<lambda>(cmd, cb). Ev_srv p cmd cb) out) (mod_service p (\<lambda>s. s\<lparr>sv_queue := q\<rparr>) k))))"

section \<open>Services and sessions\<close>

definition sys_createsrv :: "nat \<Rightarrow> capsel_t \<Rightarrow> capsel_t \<Rightarrow> string \<Rightarrow> kernel \<Rightarrow> unit step" where
  "sys_createsrv i gatesel srv name k =
     rbind (the_vpe k i) (\<lambda>v.
       case cap_get k (i, OBJ) gatesel CAP_MSG of
         None \<Rightarrow> sys_reply i INV_ARGS [] k
       | Some gatecap \<Rightarrow>
           if name = '''' then sys_reply i INV_ARGS [] k
           else if services_find k name \<noteq> None then sys_reply i EXISTS [] k
           else rbind (cap_obj k gatecap) (\<lambda>ob.
             let (s, k) = services_add i srv name (mo_epid ob) (mo_label ob) MAX_KRNL_MSGS (vpe_key v SERVICE srv) k in
             rbind (new_ServiceCapability (i, OBJ) srv (sv_ptr s) (vpe_key v SRVCAP srv) k) (\<lambda>(c, k).
               rbind (table_set (i, OBJ) srv c k) (\<lambda>(_, k).
                 let k = (if contains name ''pipe'' then k else snd (broadcastAnnounceSrv name (sv_id s) k)) in
                 rbind (start_pending k) (sys_reply i NO_ERROR [])))))"

definition sys_createsess_remote :: "nat \<Rightarrow> capsel_t \<Rightarrow> string \<Rightarrow> stream \<Rightarrow> kernel \<Rightarrow> unit step" where
  "sys_createsess_remote i cap name args k =
     rbind (the_vpe k i) (\<lambda>v.
       let sessCapId = vpe_key v SESSCAP cap;
           k = mod_vpe i (\<lambda>v. v\<lparr>v_lookup := None\<rparr>) k;
           await = (\<lambda>n k. if v_sessAwaitingResp v \<noteq> 0 then Inl Assert_failed
                         else Inr (Blocked, mod_vpe i (\<lambda>v. v\<lparr>v_sessAwaitingResp := n\<rparr>) k))
       in case remote_find k name of
            Some (key, _) \<Rightarrow>
              rbind (krnl_call (responsibleMember (k_mht k) key) (KC_CREATESESSFWD (int i) name sessCapId (k_tid k) args) k) (await 1)
          | None \<Rightarrow>
              (let (awaitedResp, k) = broadcastCreateSess (int i) name sessCapId args k in
               if awaitedResp = 0 then sys_reply i INV_ARGS [] k else await (int awaitedResp) k))"

definition sys_createsess ::
  "nat \<Rightarrow> reply_info \<Rightarrow> capsel_t \<Rightarrow> capsel_t \<Rightarrow> string \<Rightarrow> stream \<Rightarrow> kernel \<Rightarrow> unit step" where
  "sys_createsess i rinfo tvpe cap name args k =
     (case services_find k name of
        Some s \<Rightarrow>
          with_vpe_cap i tvpe (\<lambda>c. rbind (cap_vpe k c) (\<lambda>tv.
            if \<not> unused k (v_id tv, OBJ) cap then sys_reply i INV_ARGS [] k
            else if sv_closing s then sys_reply i INV_ARGS [] k
            else lift (srv_send (sv_ptr s) (SRV_OPEN args) (CB_createsess i cap (tvpe, c_ptr c) rinfo) k))) k
      | None \<Rightarrow> sys_createsess_remote i cap name args k)"

text \<open>The reply of the service: a session number in the case of success. The session capability becomes a child of the
  service capability.\<close>

definition createsess_cb ::
  "nat \<Rightarrow> nat \<Rightarrow> capsel_t \<Rightarrow> capsel_t \<times> nat \<Rightarrow> reply_info \<Rightarrow> code \<Rightarrow> stream \<Rightarrow> kernel \<Rightarrow> unit step" where
  "createsess_cb p i cap tvpe rinfo res payload k =
     rbind (the_vpe k i) (\<lambda>v.
       rbind (case find_service k p of None \<Rightarrow> Inl Use_after_free | Some s \<Rightarrow> Inr s) (\<lambda>s.
         rbind (if res \<noteq> NO_ERROR then reply_to_vpe i rinfo res [] k
                else (case payload of
                        [] \<Rightarrow> Inl Assert_failed
                      | sess # _ \<Rightarrow>
                          rbind (the_vpe k (sv_vpe s)) (\<lambda>sv.
                            case cap_get k (v_id sv, OBJ) (sv_sel s) CAP_SERVICE of
                              None \<Rightarrow> Inl Assert_failed
                            | Some srvcap \<Rightarrow>
                                rbind (cap_at k i tvpe) (\<lambda>c. rbind (cap_vpe k c) (\<lambda>tv.
                                  rbind (new_SessionCapability (v_id tv, OBJ) cap (Some p) (vpe_key sv SERVICE (sv_sel s)) sess False
                                           (vpe_key v SESSCAP cap) k) (\<lambda>(c, k).
                                    rbind (inherit_and_set srvcap c (v_id tv, OBJ) cap k) (\<lambda>(_, k).
                                      reply_to_vpe i rinfo res [] k)))))))
           (\<lambda>k. rbind (srv_received p k) (\<lambda>k. Inr (Returns (), service_unref p k)))))"

text \<open>The thread that asked other kernels continues when all of them have answered.\<close>

definition createsess_resumed :: "nat \<Rightarrow> capsel_t \<Rightarrow> capsel_t \<Rightarrow> kernel \<Rightarrow> unit step" where
  "createsess_resumed i tvpe cap k =
     rbind (the_vpe k i) (\<lambda>v.
       let sessCapId = vpe_key v SESSCAP cap in
       case v_lookup v of
         None \<Rightarrow> sys_reply i INV_ARGS [] k
       | Some (srvLocation, res, payload) \<Rightarrow>
           if res \<noteq> NO_ERROR then sys_reply i res [] k
           else (case payload of
             sess # srvcap # _ \<Rightarrow>
               (let srvkey = structured_hash (hashToPeId srvcap) (hashToVpeId srvcap) SERVICE (hashToObjId srvcap);
                    failed = rbind (krnl_call srvLocation (KC_CREATESESSFAIL sessCapId srvkey) k) (sys_reply i INV_ARGS [])
                in case cap_get k (i, OBJ) tvpe CAP_VIRTPE of
                     None \<Rightarrow> failed
                   | Some c \<Rightarrow> rbind (cap_vpe k c) (\<lambda>tv.
                       if \<not> unused k (v_id tv, OBJ) cap then failed
                       else rbind (new_SessionCapability (v_id tv, OBJ) cap None srvkey sess False sessCapId k) (\<lambda>(sc, k).
                         rbind (setparent_and_set srvcap sc (v_id tv, OBJ) cap k) (\<lambda>(_, k). sys_reply i res [] k))))
           | _ \<Rightarrow> Inl Assert_failed))"

definition sys_createsessat :: "nat \<Rightarrow> capsel_t \<Rightarrow> capsel_t \<Rightarrow> u64 \<Rightarrow> kernel \<Rightarrow> unit step" where
  "sys_createsessat i srvcap sesscap ident k =
     (if \<not> unused k (i, OBJ) sesscap then sys_reply i INV_ARGS [] k
      else case cap_get k (i, OBJ) srvcap CAP_SERVICE of
        None \<Rightarrow> sys_reply i INV_ARGS [] k
      | Some scap \<Rightarrow>
          (case c_kind scap of
             ServCap p \<Rightarrow>
               (case find_service k p of
                  None \<Rightarrow> Inl Null_deref
                | Some s \<Rightarrow>
                    if sv_closing s then sys_reply i INV_ARGS [] k
                    else rbind (new_SessionCapability (i, OBJ) sesscap (Some p) 0 ident True 0 k) (\<lambda>(c, k).
                      rbind (table_set (i, OBJ) sesscap c k) (\<lambda>(_, k). sys_reply i NO_ERROR [] k)))
           | _ \<Rightarrow> Inl Null_deref))"

section \<open>Gates, memory and mappings\<close>

definition sys_pagefault :: "nat \<Rightarrow> u64 \<Rightarrow> u64 \<Rightarrow> kernel \<Rightarrow> unit step" where
  "sys_pagefault i virt access k =
     rbind (the_vpe k i) (\<lambda>v.
       case v_as v of
         None \<Rightarrow> sys_reply i NOT_SUP [] k
       | Some a \<Rightarrow>
           (case cap_get k (i, OBJ) (as_gate a) CAP_MSG of
              None \<Rightarrow> sys_reply i (if virt AND NOT PAGE_MASK = 0 then NO_MAPPING else INV_ARGS) [] k
            | Some msg \<Rightarrow>
                if cap_localepid msg \<noteq> -1 then sys_reply i INV_ARGS [] k
                else rbind (do_activate i (word_of_int (as_ep a)) None (Some msg) k) (sys_reply i NO_ERROR [])))"

definition sys_creategate :: "nat \<Rightarrow> capsel_t \<Rightarrow> capsel_t \<Rightarrow> u64 \<Rightarrow> u64 \<Rightarrow> u64 \<Rightarrow> kernel \<Rightarrow> unit step" where
  "sys_creategate i tcap dstcap label epid credits k =
     (if credits = UNLIM_CREDITS then Inl Panic
      else with_vpe_cap i tcap (\<lambda>c.
        if epid = 0 \<or> epid \<ge> word_of_nat EP_COUNT \<or> \<not> unused k (i, OBJ) dstcap then sys_reply i INV_ARGS [] k
        else rbind (cap_vpe k c) (\<lambda>tv.
          let (nc, k) = new_MsgCapability (i, OBJ) dstcap label (int (v_core tv)) (int (v_id tv)) (get_int epid) credits
                (vpe_key tv MSGOBJ (ucast label)) k
          in rbind (table_set (i, OBJ) dstcap nc k) (\<lambda>(_, k). sys_reply i NO_ERROR [] k))) k)"

definition sys_reqmem :: "nat \<Rightarrow> capsel_t \<Rightarrow> u64 \<Rightarrow> u64 \<Rightarrow> u32 \<Rightarrow> kernel \<Rightarrow> unit step" where
  "sys_reqmem i cap addr sz perms k =
     rbind (the_vpe k i) (\<lambda>v.
       if \<not> unused k (i, OBJ) cap then sys_reply i INV_ARGS [] k
       else if sz = 0 \<or> sz AND PERM_RWX \<noteq> 0 \<or> perms = 0 \<or> perms AND NOT (ucast PERM_RWX) \<noteq> 0
       then sys_reply i INV_ARGS [] k
       else (let (al, mem) = (if addr = -1 then main_allocate sz (k_mem k) else (main_allocate_at addr sz (k_mem k), k_mem k));
                 k = k\<lparr>k_mem := mem\<rparr>
             in if \<not> alloc_valid al then sys_reply i OUT_OF_MEM [] k
                else rbind (alloc_pe (k_mem k) al) (\<lambda>pe.
                  rbind (new_MemCapability (i, OBJ) cap (al_addr al) (al_size al) (ucast perms) (get_int pe) 0 0
                           (vpe_key v MEMOBJ (ucast (al_addr al))) k) (\<lambda>(c, k).
                    rbind (table_set (i, OBJ) cap c k) (\<lambda>(_, k). sys_reply i NO_ERROR [] k)))))"

text \<open>\<^verbatim>\<open>dercap->obj = ...\<close>: the capability lets go of the object of its parent and gets one of its own.\<close>

definition set_cap_obj :: "nat \<Rightarrow> capability \<Rightarrow> capability" where
  "set_cap_obj q c =
     c\<lparr>c_kind := (case c_kind c of MsgCap ep _ oid \<Rightarrow> MsgCap ep q oid | MemCap ep _ oid \<Rightarrow> MemCap ep q oid | kd \<Rightarrow> kd)\<rparr>"

definition sys_derivemem :: "nat \<Rightarrow> capsel_t \<Rightarrow> capsel_t \<Rightarrow> u64 \<Rightarrow> u64 \<Rightarrow> u32 \<Rightarrow> kernel \<Rightarrow> unit step" where
  "sys_derivemem i src dst offset sz perms k =
     (case cap_get k (i, OBJ) src CAP_MEM of
        None \<Rightarrow> sys_reply i INV_ARGS [] k
      | Some srccap \<Rightarrow>
          if \<not> unused k (i, OBJ) dst then sys_reply i INV_ARGS [] k
          else rbind (cap_obj k srccap) (\<lambda>sob.
            if offset + sz < offset \<or> offset + sz > mem_size sob \<or> sz = 0 \<or> perms AND NOT (ucast PERM_RWX) \<noteq> 0
            then sys_reply i INV_ARGS [] k
            else rbind (obtain_cap (i, OBJ) dst (Some srccap) k) (\<lambda>(dercap, k).
              case dercap of
                None \<Rightarrow> Inl Null_deref
              | Some dercap \<Rightarrow>
                  rbind (new_MemObject (mem_addr sob + offset) sz (ucast perms AND mem_perms sob) (mo_core sob) (mo_vpe sob) (mo_epid sob)
                           (structured_hash (word_of_int (mo_core sob)) (word_of_int (mo_vpe sob)) MEMOBJ (ucast (mem_addr sob + offset))))
                    (\<lambda>ob. case kind_obj (c_kind dercap) of
                       None \<Rightarrow> Inl Null_deref
                     | Some old \<Rightarrow>
                         (let (q, k) = new_obj (ob\<lparr>mo_derived := True\<rparr>) k in
                          rbind (obj_unref old (mod_cap (i, OBJ) dst (set_cap_obj q) k)) (sys_reply i NO_ERROR []))))))"

text \<open>The loop of \<^verbatim>\<open>createmap\<close> over the pages.\<close>

fun create_maps :: "capability \<Rightarrow> nat \<times> crd_type \<Rightarrow> capsel_t \<Rightarrow> u32 \<Rightarrow> capsel_t list \<Rightarrow> u64 \<Rightarrow> kernel \<Rightarrow> kernel result" where
  "create_maps mcapobj mcaps dst perms [] phys k = Inr k"
| "create_maps mcapobj mcaps dst perms (j # js) phys k =
     rbind (case cap_get k mcaps (dst + j) CAP_MAP of
              None \<Rightarrow> rbind (new_MapCapability mcaps (dst + j) phys perms k) (\<lambda>(c, k).
                rbind (inherit_and_set mcapobj c mcaps (dst + j) k) (\<lambda>(_, k). Inr k))
            | Some mapcap \<Rightarrow> remap mapcap perms k)
       (create_maps mcapobj mcaps dst perms js (phys + PAGE_SIZE))"

definition sys_createmap :: "nat \<Rightarrow> capsel_t \<Rightarrow> capsel_t \<Rightarrow> capsel_t \<Rightarrow> capsel_t \<Rightarrow> capsel_t \<Rightarrow> u32 \<Rightarrow> kernel \<Rightarrow> unit step" where
  "sys_createmap i tcap mcap first pages dst perms k =
     with_vpe_cap i tcap (\<lambda>tcapobj.
          (case cap_get k (i, OBJ) mcap CAP_MEM of
             None \<Rightarrow> sys_reply i INV_ARGS [] k
           | Some mcapobj \<Rightarrow> rbind (cap_obj k mcapobj) (\<lambda>ob.
               if mem_addr ob AND PAGE_MASK \<noteq> 0 \<or> mem_size ob AND PAGE_MASK \<noteq> 0 then sys_reply i INV_ARGS [] k
               else if perms AND NOT (ucast (mem_perms ob)) \<noteq> 0 then sys_reply i INV_ARGS [] k
               else (let total = drop_bit PAGE_BITS (mem_size ob) in
                 if ucast first \<ge> total \<or> first + pages \<le> first \<or> ucast (first + pages) > total
                 then sys_reply i INV_ARGS [] k
                 else rbind (cap_vpe k tcapobj) (\<lambda>tv.
                   rbind (create_maps mcapobj (v_id tv, MAP) dst perms (map word_of_nat [0..<unat pages])
                            (build_noc_addr (mo_core ob) (mem_addr ob + PAGE_SIZE * ucast first)) k)
                     (sys_reply i NO_ERROR [])))))) k"

section \<open>VPEs\<close>

definition sys_createvpe ::
  "nat \<Rightarrow> capsel_t \<Rightarrow> capsel_t \<Rightarrow> string \<Rightarrow> pe_desc \<Rightarrow> capsel_t \<Rightarrow> u64 \<Rightarrow> kernel \<Rightarrow> unit step" where
  "sys_createvpe i tcap mcap name pe gcap ep k =
     (if \<not> unused k (i, OBJ) tcap \<or> \<not> unused k (i, OBJ) mcap then sys_reply i INV_ARGS [] k
      else if gcap \<noteq> INV_SEL \<and> cap_get k (i, OBJ) gcap CAP_MSG = None then sys_reply i INV_ARGS [] k
      else rbind (pe_create name pe (get_int ep) gcap k) (\<lambda>(r, k).
        case r of
          None \<Rightarrow> sys_reply i NO_FREE_CORE [] k
        | Some j \<Rightarrow>
            rbind (obtain_cap (i, OBJ) tcap (k_cap k (j, OBJ) 0) k) (\<lambda>(_, k).
              rbind (obtain_cap (i, OBJ) mcap (k_cap k (j, OBJ) 1) k) (\<lambda>(_, k).
                rbind (if gcap \<noteq> INV_SEL
                       then rbind (obtain_cap (j, OBJ) gcap (cap_get k (i, OBJ) gcap CAP_MSG) k) (\<lambda>(_, k).
                         rbind (the_vpe k j) (\<lambda>nv. case v_as nv of
                             None \<Rightarrow> Inl Null_deref
                           | Some a \<Rightarrow> rbind (root_pt a k) (\<lambda>rp.
                               Inr (emit (Ev_dtu (DTU_config_pf j rp (get_int ep))) k))))
                       else Inr k) (\<lambda>k.
                  rbind (pe_by_core (k_env k) j) (\<lambda>d. sys_reply i NO_ERROR [d] k))))))"

definition sys_attachrb :: "nat \<Rightarrow> capsel_t \<Rightarrow> u64 \<Rightarrow> u64 \<Rightarrow> int \<Rightarrow> int \<Rightarrow> u32 \<Rightarrow> kernel \<Rightarrow> unit step" where
  "sys_attachrb i tcap ep addr order msgorder flags k =
     rbind (the_vpe k i) (\<lambda>v. with_vpe_cap i tcap (\<lambda>c.
       rbind (cap_vpe k c) (\<lambda>tv.
         rbind (rw_barrier (k_env k) (v_core tv)) (\<lambda>bar.
           if addr < bar - rb_extra v \<or> order > 20 \<or> msgorder > order then sys_reply i INV_ARGS [] k
           else rbind (attach_rbuf tv (unat ep) addr order msgorder flags k) (\<lambda>(res, k). sys_reply i res [] k)))) k)"

definition sys_detachrb :: "nat \<Rightarrow> capsel_t \<Rightarrow> u64 \<Rightarrow> kernel \<Rightarrow> unit step" where
  "sys_detachrb i tcap ep k =
     with_vpe_cap i tcap (\<lambda>c. rbind (cap_vpe k c) (\<lambda>tv.
       rbind (detach_rbuf tv (unat ep) k) (sys_reply i NO_ERROR []))) k"

datatype vpe_ctrl = VCTRL_START | VCTRL_WAIT

text \<open>An operation that is neither of the two gets no reply.\<close>

definition sys_vpectrl :: "nat \<Rightarrow> reply_info \<Rightarrow> capsel_t \<Rightarrow> vpe_ctrl option \<Rightarrow> int \<Rightarrow> kernel \<Rightarrow> unit step" where
  "sys_vpectrl i rinfo tcap op pid k =
     with_vpe_cap i tcap (\<lambda>c.
       case c_kind c of
         VPECap p vpeId \<Rightarrow>
           if \<not> keyLocality (k_mht k) vpeId then sys_reply i NOT_SUP [] k
           else (case op of
             None \<Rightarrow> Inr (Returns (), k)
           | Some VCTRL_START \<Rightarrow> rbind (cap_vpe k c) (\<lambda>tv.
               rbind (vpe_start (v_id tv) 0 [] k) (sys_reply i NO_ERROR []))
           | Some VCTRL_WAIT \<Rightarrow> rbind (cap_vpe k c) (\<lambda>tv.
               if v_state tv = DEAD then sys_reply i NO_ERROR [put_int (v_exitcode tv)] k
               else Inr (Returns (), mod_vpe (v_id tv) (\<lambda>v. v\<lparr>v_exitsubscr := v_exitsubscr v @ [(i, rinfo)]\<rparr>) k)))
       | _ \<Rightarrow> Inl Null_deref) k"

definition sys_exit :: "nat \<Rightarrow> nat \<Rightarrow> int \<Rightarrow> kernel \<Rightarrow> unit step" where
  "sys_exit n i exitcode k =
     rbind (the_vpe k i) (\<lambda>_. rbind (vpe_exit i exitcode k) (\<lambda>k. kbind (vpe_unref n i k) (\<lambda>_ k. tryTerminate n k)))"

section \<open>Exchange of capabilities\<close>

fun exchange_caps :: "nat \<times> crd_type \<Rightarrow> nat \<times> crd_type \<Rightarrow> capsel_t \<Rightarrow> capsel_t \<Rightarrow> capsel_t list \<Rightarrow> kernel \<Rightarrow> kernel result" where
  "exchange_caps srctab dsttab src dst [] k = Inr k"
| "exchange_caps srctab dsttab src dst (j # js) k =
     (if k_cap k dsttab (dst + j) \<noteq> None then Inl Assert_failed
      else rbind (obtain_cap dsttab (dst + j) (k_cap k srctab (src + j)) k)
             (\<lambda>(_, k). exchange_caps srctab dsttab src dst js k))"

definition do_exchange :: "nat \<Rightarrow> nat \<Rightarrow> cap_rng \<Rightarrow> cap_rng \<Rightarrow> bool \<Rightarrow> kernel \<Rightarrow> (code \<times> kernel) result" where
  "do_exchange v1 v2 c1 c2 obtain k =
     (let src = (if obtain then v2 else v1); dst = (if obtain then v1 else v2);
          srcrng = (if obtain then c2 else c1); dstrng = (if obtain then c1 else c2)
      in if crd_type c1 \<noteq> crd_type c2 then Inr (INV_ARGS, k)
         else if obtain \<and> crd_count c2 > crd_count c1 \<or> \<not> obtain \<and> crd_count c2 \<noteq> crd_count c1 then Inr (INV_ARGS, k)
         else if \<not> range_unused k (dst, OBJ) dstrng then Inr (INV_ARGS, k)
         else rbind (exchange_caps (src, crd_type c1) (dst, crd_type c1) (crd_start srcrng) (crd_start dstrng)
                       (map word_of_nat [0..<unat (crd_count c2)]) k)
                (\<lambda>k. Inr (NO_ERROR, k)))"

definition sys_exchange :: "nat \<Rightarrow> capsel_t \<Rightarrow> cap_rng \<Rightarrow> cap_rng \<Rightarrow> bool \<Rightarrow> kernel \<Rightarrow> unit step" where
  "sys_exchange i tcap own other obtain k =
     with_vpe_cap i tcap (\<lambda>c. rbind (cap_vpe k c) (\<lambda>tv.
       let t1 = (if obtain then v_id tv else i); t2 = (if obtain then i else v_id tv)
       in rbind (do_exchange t1 t2 own other obtain k) (\<lambda>(res, k). sys_reply i res [] k))) k"

text \<open>\<^verbatim>\<open>delegate\<close> and \<^verbatim>\<open>obtain\<close> over a session.\<close>

definition sys_exchange_over_sess ::
  "nat \<Rightarrow> reply_info \<Rightarrow> bool \<Rightarrow> capsel_t \<Rightarrow> capsel_t \<Rightarrow> cap_rng \<Rightarrow> stream \<Rightarrow> kernel \<Rightarrow> unit step" where
  "sys_exchange_over_sess i rinfo obtain tvpe sesscap caps args k =
     with_vpe_cap i tvpe (\<lambda>c. rbind (cap_vpe k c) (\<lambda>tv.
       case cap_get k (v_id tv, OBJ) sesscap CAP_SESSION of
         None \<Rightarrow> sys_reply i INV_ARGS [] k
       | Some sc \<Rightarrow>
           (case c_kind sc of
              SessCap q \<Rightarrow>
                (case k_sess k q of
                   None \<Rightarrow> Inl Use_after_free
                 | Some so \<Rightarrow>
                     if keyLocality (k_mht k) (so_srvID so)
                     then (case so_srv so of
                             None \<Rightarrow> Inl Null_deref
                           | Some p \<Rightarrow> (case find_service k p of
                               None \<Rightarrow> Inl Use_after_free
                             | Some s \<Rightarrow>
                                 if sv_closing s then sys_reply i INV_ARGS [] k
                                 else lift (srv_send p
                                   (if obtain then SRV_OBTAIN (so_ident so) (crd_count caps) args
                                    else SRV_DELEGATE (so_ident so) (crd_count caps) args)
                                   (CB_exchange i caps (tvpe, c_ptr c) obtain rinfo) k)))
                     else kbind (lift (krnl_call (responsibleMember (k_mht k) (so_srvID so))
                            (KC_EXCHANGEOSESS (k_tid k) obtain (c_id c) (so_srvID so) (so_ident so) caps args) k))
                            (\<lambda>_ k. Inr (Blocked, k)))
            | _ \<Rightarrow> Inl Null_deref))) k"

text \<open>The reply of a local service has the range of its capabilities, which is a structure of three 32 bit words, and a message
  for the caller.\<close>

definition put_rng :: "cap_rng \<Rightarrow> stream" where
  "put_rng crd = [(if crd_type crd = OBJ then 0 else 1) OR push_bit 32 (ucast (crd_start crd)), ucast (crd_count crd)]"

fun get_rng :: "stream \<Rightarrow> (cap_rng \<times> stream) result" where
  "get_rng (w # c # rest) =
     Inr (\<lparr>crd_type = (if (ucast w :: u32) = 0 then OBJ else MAP), crd_start = ucast (drop_bit 32 w), crd_count = ucast c\<rparr>, rest)"
| "get_rng _ = Inl Assert_failed"

definition exchange_cb ::
  "nat \<Rightarrow> nat \<Rightarrow> cap_rng \<Rightarrow> capsel_t \<times> nat \<Rightarrow> bool \<Rightarrow> reply_info \<Rightarrow> code \<Rightarrow> stream \<Rightarrow> kernel \<Rightarrow> unit step" where
  "exchange_cb p i caps tvpe obtain rinfo res payload k =
     rbind (case find_service k p of None \<Rightarrow> Inl Use_after_free | Some s \<Rightarrow> Inr s) (\<lambda>s.
       rbind (if res \<noteq> NO_ERROR then reply_to_vpe i rinfo res [] k
              else rbind (get_rng payload) (\<lambda>(srvcaps, rest).
                rbind (cap_at k i tvpe) (\<lambda>c. rbind (cap_vpe k c) (\<lambda>tv.
                  rbind (do_exchange (v_id tv) (sv_vpe s) caps srvcaps obtain k) (\<lambda>(res, k).
                    reply_to_vpe i rinfo res (if res = NO_ERROR then rest else []) k)))))
         (\<lambda>k. rbind (srv_received p k) (\<lambda>k. Inr (Returns (), service_unref p k))))"

text \<open>The answer of another kernel. Capabilities that were read from the stream are deleted after they were handed on;
  what their uninitialized members hold is \<open>junk\<close>.\<close>

fun read_caps :: "(nat \<times> crd_type) \<times> mht_key_t \<Rightarrow> nat \<Rightarrow> stream \<Rightarrow> kernel \<Rightarrow> (capability list \<times> stream \<times> kernel) result" where
  "read_caps junk 0 payload k = Inr ([], payload, k)"
| "read_caps junk (Suc n) payload k =
     (let (p, k) = fresh k; (q, k) = fresh k in
      rbind (createFromStream p q junk (k_junk k \<noteq> 0) payload) (\<lambda>(c, ob, payload).
        let k = (case ob of
                   NewMsg ob \<Rightarrow> k\<lparr>k_objs := (k_objs k)(q \<mapsto> ob)\<rparr>
                 | NewSess so \<Rightarrow> k\<lparr>k_sess := (k_sess k)(q \<mapsto> so)\<rparr>
                 | NoObject \<Rightarrow> k)
        in rbind (read_caps junk n payload k) (\<lambda>(cs, payload, k). Inr (c # cs, payload, k))))"

definition delete_temp :: "capability \<Rightarrow> kernel \<Rightarrow> kernel result" where
  "delete_temp c k =
     (case c_kind c of MsgCap _ q _ \<Rightarrow> obj_unref q k | MemCap _ q _ \<Rightarrow> obj_unref q k | SessCap q \<Rightarrow> sess_unref q k | _ \<Rightarrow> Inr k)"

fun obtain_read :: "nat \<times> crd_type \<Rightarrow> capsel_t \<Rightarrow> capability list \<Rightarrow> kernel \<Rightarrow> kernel result" where
  "obtain_read dsttab dst [] k = Inr k"
| "obtain_read dsttab dst (c # cs) k =
     (if k_cap k dsttab dst \<noteq> None then Inl Assert_failed
      else rbind (obtain_cap dsttab dst (Some c) k) (\<lambda>(_, k).
        rbind (delete_temp c k) (obtain_read dsttab (dst + 1) cs)))"

definition exchange_over_sess_resumed ::
  "nat \<Rightarrow> bool \<Rightarrow> nat \<times> capsel_t \<times> nat \<Rightarrow> cap_rng \<Rightarrow> (nat \<times> crd_type) \<times> mht_key_t \<Rightarrow>
   code \<Rightarrow> (int \<times> cap_rng \<times> stream) option \<Rightarrow> kernel \<Rightarrow> unit step" where
  "exchange_over_sess_resumed i obtain sess caps junk res reply k =
     (if res \<noteq> NO_ERROR then sys_reply i res [] k
      else case reply of
        None \<Rightarrow> Inl Assert_failed
      | Some (repliertid, srvcaps, payload) \<Rightarrow>
          if obtain \<and> pe_exists k (int i) \<and> \<not> range_unused k (i, OBJ) caps
          then rbind (if crd_count srvcaps > 0
                      then rbind (read_caps junk 1 payload k) (\<lambda>(cs, _, k).
                        case k_cap k (fst sess, OBJ) (fst (snd sess)) of
                          None \<Rightarrow> Inl Use_after_free
                        | Some sc \<Rightarrow>
                            if c_ptr sc \<noteq> snd (snd sess) then Inl Use_after_free
                            else (case c_kind sc of
                              SessCap q \<Rightarrow> (case k_sess k q of
                                  None \<Rightarrow> Inl Use_after_free
                                | Some so \<Rightarrow> krnl_call (responsibleMember (k_mht k) (so_srvID so))
                                    (KC_REMOVECHILDCAPPTR (c_id (hd cs)) (crd_count srvcaps)
                                       (structured_hash (word_of_nat i) (word_of_nat i) NOTYPE (crd_start caps)) (crd_count caps)) k)
                            | _ \<Rightarrow> Inl Null_deref))
                      else Inr k) (sys_reply i INV_ARGS [])
          else if obtain
          then rbind (the_vpe k i) (\<lambda>_.
            rbind (read_caps junk (unat (crd_count srvcaps)) payload k) (\<lambda>(cs, rest, k).
              rbind (obtain_read (i, crd_type caps) (crd_start caps) cs k) (sys_reply i NO_ERROR rest)))
          else Inl Panic)"

section \<open>Activation\<close>

definition cap_ptr :: "capsel_t \<Rightarrow> capability option \<Rightarrow> (capsel_t \<times> nat) option" where
  "cap_ptr sel c = map_option (\<lambda>c. (sel, c_ptr c)) c"

definition sys_activate :: "nat \<Rightarrow> reply_info \<Rightarrow> u64 \<Rightarrow> capsel_t \<Rightarrow> capsel_t \<Rightarrow> kernel \<Rightarrow> unit step" where
  "sys_activate i rinfo epid oldcap newcap k =
     (let look = (\<lambda>sel. if sel = INV_SEL then None else cap_get k (i, OBJ) sel (CAP_MSG OR CAP_MEM));
          old = look oldcap; new = look newcap;
          finish = rbind (do_activate i epid old new k) (sys_reply i NO_ERROR [])
      in if epid = 0 \<or> old = None \<and> new = None then sys_reply i INV_ARGS [] k
         else case new of
           None \<Rightarrow> finish
         | Some c \<Rightarrow>
             if c_type c \<noteq> CAP_MSG then finish
             else rbind (cap_obj k c) (\<lambda>ob.
               let owner = responsibleKrnl (k_mht k) (word_of_int (mo_core ob));
                   core = size_of_int (mo_core ob); ep = size_of_int (mo_epid ob)
               in if owner = kid k
                  then rbind (is_attached (k_rbufs k) core ep) (\<lambda>att.
                    if att then finish
                    else rbind (rb_subscribe core ep (RB_activate i (unat epid) (cap_ptr oldcap old) (cap_ptr newcap new) rinfo) (k_rbufs k))
                           (\<lambda>rbs. Inr (Returns (), k\<lparr>k_rbufs := rbs\<rparr>)))
                  else kbind (lift (krnl_call owner (KC_RECVBUFISATTACHED (k_tid k) core ep) k)) (\<lambda>_ k. Inr (Blocked, k))))"

text \<open>The other kernel has told whether the receive buffer is there.\<close>

definition activate_resumed ::
  "nat \<Rightarrow> u64 \<Rightarrow> (capsel_t \<times> nat) option \<Rightarrow> (capsel_t \<times> nat) option \<Rightarrow> code \<Rightarrow> kernel \<Rightarrow> unit step" where
  "activate_resumed i epid old new res k =
     (if res \<noteq> NO_ERROR then sys_reply i res [] k
      else rbind (opt_cap_at k i old) (\<lambda>oc. rbind (opt_cap_at k i new) (\<lambda>nc.
        rbind (do_activate i epid oc nc k) (sys_reply i NO_ERROR []))))"

section \<open>Revocation and dispatch\<close>

definition sys_revoke :: "nat \<Rightarrow> nat \<Rightarrow> cap_rng \<Rightarrow> bool \<Rightarrow> kernel \<Rightarrow> unit step" where
  "sys_revoke n i crd own k =
     (if crd_type crd = OBJ \<and> crd_start crd < 2 then sys_reply i INV_ARGS [] k
      else kbind (crd_revoke n (i, crd_type crd) crd own k) (\<lambda>res k. sys_reply i res [] k))"

text \<open>The thread has waited for the revocation of capability \<open>cid\<close>; \<open>sels\<close> are the selectors that follow.\<close>

definition sys_revoke_resumed ::
  "nat \<Rightarrow> nat \<Rightarrow> crd_type \<Rightarrow> mht_key_t \<Rightarrow> mht_key_t \<Rightarrow> capsel_t list \<Rightarrow> bool \<Rightarrow> kernel \<Rightarrow> unit step" where
  "sys_revoke_resumed n i t cid parent sels own k =
     rbind (revoke_resumed n cid parent k) (\<lambda>k.
       kbind (crd_revoke_from n (i, t) sels own k) (\<lambda>res k. sys_reply i res [] k))"

datatype syscall =
    SC_PAGEFAULT u64 u64
  | SC_CREATESRV capsel_t capsel_t string
  | SC_CREATESESS capsel_t capsel_t string stream
  | SC_CREATESESSAT capsel_t capsel_t u64
  | SC_CREATEGATE capsel_t capsel_t u64 u64 u64
  | SC_CREATEVPE capsel_t capsel_t string pe_desc capsel_t u64
  | SC_CREATEMAP capsel_t capsel_t capsel_t capsel_t capsel_t u32
  | SC_ATTACHRB capsel_t u64 u64 int int u32
  | SC_DETACHRB capsel_t u64
  | SC_EXCHANGE capsel_t cap_rng cap_rng bool
  | SC_VPECTRL capsel_t "vpe_ctrl option" int
  | SC_DELEGATE capsel_t capsel_t cap_rng stream
  | SC_OBTAIN capsel_t capsel_t cap_rng stream
  | SC_ACTIVATE u64 capsel_t capsel_t
  | SC_REQMEM capsel_t u64 u64 u32
  | SC_DERIVEMEM capsel_t capsel_t u64 u64 u32
  | SC_REVOKE cap_rng bool
  | SC_EXIT int
  | SC_NOOP
  | SC_INVALID

fun handle_syscall :: "nat \<Rightarrow> nat \<Rightarrow> reply_info \<Rightarrow> syscall \<Rightarrow> kernel \<Rightarrow> unit step" where
  "handle_syscall n i rinfo (SC_PAGEFAULT virt access) k = sys_pagefault i virt access k"
| "handle_syscall n i rinfo (SC_CREATESRV gate srv name) k = sys_createsrv i gate srv name k"
| "handle_syscall n i rinfo (SC_CREATESESS tvpe cap name args) k = sys_createsess i rinfo tvpe cap name args k"
| "handle_syscall n i rinfo (SC_CREATESESSAT srvcap sesscap ident) k = sys_createsessat i srvcap sesscap ident k"
| "handle_syscall n i rinfo (SC_CREATEGATE tcap dst label ep crd) k = sys_creategate i tcap dst label ep crd k"
| "handle_syscall n i rinfo (SC_CREATEVPE tcap mcap name pe gcap ep) k = sys_createvpe i tcap mcap name pe gcap ep k"
| "handle_syscall n i rinfo (SC_CREATEMAP tcap mcap first pages dst perms) k = sys_createmap i tcap mcap first pages dst perms k"
| "handle_syscall n i rinfo (SC_ATTACHRB tcap ep addr ord mord flags) k = sys_attachrb i tcap ep addr ord mord flags k"
| "handle_syscall n i rinfo (SC_DETACHRB tcap ep) k = sys_detachrb i tcap ep k"
| "handle_syscall n i rinfo (SC_EXCHANGE tcap own other obt) k = sys_exchange i tcap own other obt k"
| "handle_syscall n i rinfo (SC_VPECTRL tcap op pid) k = sys_vpectrl i rinfo tcap op pid k"
| "handle_syscall n i rinfo (SC_DELEGATE tvpe sess caps args) k = sys_exchange_over_sess i rinfo False tvpe sess caps args k"
| "handle_syscall n i rinfo (SC_OBTAIN tvpe sess caps args) k = sys_exchange_over_sess i rinfo True tvpe sess caps args k"
| "handle_syscall n i rinfo (SC_ACTIVATE ep old new) k = sys_activate i rinfo ep old new k"
| "handle_syscall n i rinfo (SC_REQMEM cap addr sz perms) k = sys_reqmem i cap addr sz perms k"
| "handle_syscall n i rinfo (SC_DERIVEMEM src dst off sz perms) k = sys_derivemem i src dst off sz perms k"
| "handle_syscall n i rinfo (SC_REVOKE crd own) k = sys_revoke n i crd own k"
| "handle_syscall n i rinfo (SC_EXIT code) k = sys_exit n i code k"
| "handle_syscall n i rinfo SC_NOOP k = sys_reply i NO_ERROR [] k"
| "handle_syscall n i rinfo SC_INVALID k = sys_reply i INV_ARGS [] k"

end
