(* ===== verification/Kernelcall_Handlers.thy ===== *)
theory Kernelcall_Handlers
  imports Syscalls
begin

unbundle bit_operations_syntax

text \<open>
  The handlers of calls from other kernels (\<^verbatim>\<open>src/src/apps/kernel/KernelcallHandler.cc\<close>) that are not part of the
  revocation. \<open>sender\<close> is the label of the message, the number of the kernel that sent it. A plain acknowledgement is
  \<^const>\<open>KC_REPLY\<close>; \<open>krnl_received\<close> is the call of \<^verbatim>\<open>msg_received\<close> for an answer.
\<close>

section \<open>Answers and wake-ups\<close>

fun code_word :: "code \<Rightarrow> u64" where
  "code_word NO_ERROR = 0" | "code_word MISS_CREDITS = 1" | "code_word NO_RING_SPACE = 2" | "code_word VPE_GONE = 3"
| "code_word NO_MAPPING = 4" | "code_word INV_ARGS = 5" | "code_word OUT_OF_MEM = 6" | "code_word NO_SUCH_FILE = 7"
| "code_word NO_PERM = 8" | "code_word NOT_SUP = 9" | "code_word NO_FREE_CORE = 10" | "code_word INVALID_ELF = 11"
| "code_word NO_SPACE = 12" | "code_word EXISTS = 13" | "code_word XFS_LINK = 14" | "code_word DIR_NOT_EMPTY = 15"
| "code_word IS_DIR = 16" | "code_word IS_NO_DIR = 17" | "code_word EP_INVALID = 18" | "code_word RECV_GONE = 19"
| "code_word END_OF_FILE = 20" | "code_word MSGS_WAITING = 21" | "code_word XFS_RENAME = 22"

definition krnl_received :: "krnl_id_t \<Rightarrow> kernel \<Rightarrow> kernel result" where
  "krnl_received sender k = rbind (getKPE sender (k_mht k)) (\<lambda>_. Inr (emit (Ev_received sender) k))"

definition krnl_reply :: "krnl_id_t \<Rightarrow> kernel \<Rightarrow> unit step" where
  "krnl_reply sender k = lift (krnl_call sender KC_REPLY k)"

definition notify_each :: "int list \<Rightarrow> kernel \<Rightarrow> kernel" where
  "notify_each ts k = emit_all (map (\<lambda>t. Ev_notify t []) ts) k"

definition on_sigvital :: "int \<Rightarrow> code \<Rightarrow> kernel \<Rightarrow> unit step" where
  "on_sigvital tid err k = Inr (Returns (), emit (Ev_notify tid [code_word err]) k)"

definition on_kexit :: "nat \<Rightarrow> int \<Rightarrow> kernel \<Rightarrow> unit step" where
  "on_kexit n exitcode k = pe_destroy n k"

text \<open>No VPE is ever created for another kernel. A reply calls back a function that was registered under \<open>tid\<close>.\<close>

definition on_kcreatevpe :: "krnl_id_t \<Rightarrow> op_stage \<Rightarrow> int \<Rightarrow> kernel \<Rightarrow> unit step" where
  "on_kcreatevpe sender stage tid k =
     (case stage of
        KREQUEST \<Rightarrow> Inr (Returns (), emit (Ev_krnl sender (KC_KCREATEVPE tid False)) k)
      | KREPLY \<Rightarrow> rbind (getKPE sender (k_mht k)) (\<lambda>_.
          rbind (kpe_notify (word_of_int tid) True (k_kpes k sender)) (\<lambda>(_, kp).
            lift (krnl_received sender (k\<lparr>k_kpes := (k_kpes k)(sender := kp)\<rparr>))))
      | KFORWARD \<Rightarrow> lift (krnl_received sender k))"

section \<open>The distributed data layer\<close>

definition on_mhtget :: "krnl_id_t \<Rightarrow> int \<Rightarrow> mht_key_t \<Rightarrow> kernel \<Rightarrow> unit step" where
  "on_mhtget sender tid key k =
     rbind (mht_localGet key False (k_tid k) (k_mht k)) (\<lambda>(r, m).
       let k = k\<lparr>k_mht := m\<rparr> in
       case r of
         Waiting \<Rightarrow> Inr (Blocked, k)
       | Got it \<Rightarrow> lift (krnl_call sender (KC_MHTGETREPLY tid (case it of None \<Rightarrow> item_new None 0 0 | Some it \<Rightarrow> it)) k))"

definition on_mhtgetReply :: "krnl_id_t \<Rightarrow> int \<Rightarrow> unit mht_item \<Rightarrow> kernel \<Rightarrow> unit step" where
  "on_mhtgetReply sender tid it k =
     rbind (krnl_received sender k) (\<lambda>k. Inr (Returns (), emit (Ev_notify tid [it_key it, ucast (it_length it)]) k))"

definition on_mhtput :: "krnl_id_t \<Rightarrow> unit mht_item \<Rightarrow> kernel \<Rightarrow> unit step" where
  "on_mhtput sender it k = rbind (mht_put it (k_mht k)) (\<lambda>(_, m). krnl_reply sender (k\<lparr>k_mht := m\<rparr>))"

definition on_mhtputUnlocking :: "krnl_id_t \<Rightarrow> u32 \<Rightarrow> unit mht_item \<Rightarrow> kernel \<Rightarrow> unit step" where
  "on_mhtputUnlocking sender lockHandle it k =
     rbind (mht_putUnlocking it lockHandle (k_mht k)) (\<lambda>(_, m). krnl_reply sender (k\<lparr>k_mht := m\<rparr>))"

definition on_mhtlock :: "krnl_id_t \<Rightarrow> int \<Rightarrow> mht_key_t \<Rightarrow> kernel \<Rightarrow> unit step" where
  "on_mhtlock sender tid key k =
     (let dest = responsibleMember (k_mht k) key in
      if dest = kid k
      then rbind (mht_lockLocal key (k_tid k) (k_mht k)) (\<lambda>(r, m).
        let k = k\<lparr>k_mht := m\<rparr> in
        case r of Blocked \<Rightarrow> Inr (Blocked, k) | Returns h \<Rightarrow> lift (krnl_call sender (KC_MHTLOCKREPLY tid h) k))
      else rbind (krnl_call sender (KC_MHTLOCKFORWARD tid dest key) k) (\<lambda>k.
        Inr (Returns (), k\<lparr>k_mht := send sender (MHTLOCK tid key) (k_mht k)\<rparr>)))"

definition on_mhtlock_resumed :: "krnl_id_t \<Rightarrow> int \<Rightarrow> mht_key_t \<Rightarrow> kernel \<Rightarrow> unit step" where
  "on_mhtlock_resumed sender tid key k =
     rbind (mht_lockLocal_resumed key (k_mht k)) (\<lambda>(h, m). lift (krnl_call sender (KC_MHTLOCKREPLY tid h) (k\<lparr>k_mht := m\<rparr>)))"

text \<open>Answers to \<^verbatim>\<open>MHTLOCK\<close> and \<^verbatim>\<open>MHTRESERVE\<close> carry one number.\<close>

definition on_number_reply :: "krnl_id_t \<Rightarrow> int \<Rightarrow> u32 \<Rightarrow> kernel \<Rightarrow> unit step" where
  "on_number_reply sender tid nr k = lift (krnl_received sender (emit (Ev_notify tid [ucast nr]) k))"

text \<open>\<open>destKrnl->core()\<close> is the core in the list of kernels or in that of the migrations.\<close>

definition migration_core :: "pe_id_t \<Rightarrow> 'd mht \<Rightarrow> pe_id_t option" where
  "migration_core part s = map_option mg_core (List.find (\<lambda>m. mg_partition m = part) (mi_migrating s))"

definition on_mhtlockForward :: "krnl_id_t \<Rightarrow> krnl_id_t \<Rightarrow> mht_key_t \<Rightarrow> kernel \<Rightarrow> unit step" where
  "on_mhtlockForward sender krnlId key k =
     rbind (krnl_call sender KC_REPLY k) (\<lambda>k.
       let core = (case tryGetKPE krnlId (k_mht k) of
                     Some _ \<Rightarrow> kv_lookup (mi_kpes (k_mht k)) krnlId
                   | None \<Rightarrow> migration_core (hashToPeId key) (k_mht k))
       in case core of
            None \<Rightarrow> Inr (Returns (), k)
          | Some core \<Rightarrow>
              rbind (updateMembership_range (hashToPeId key) krnlId core 1 MF_NOCHANGE True (k_mht k))
                (\<lambda>m. Inr (Returns (), k\<lparr>k_mht := m\<rparr>)))"

definition on_mhtunlock :: "krnl_id_t \<Rightarrow> mht_key_t \<Rightarrow> u32 \<Rightarrow> kernel \<Rightarrow> unit step" where
  "on_mhtunlock sender key lockHandle k =
     rbind (mht_unlock key lockHandle (k_mht k)) (\<lambda>(_, m, ts). krnl_reply sender (notify_each ts (k\<lparr>k_mht := m\<rparr>)))"

definition on_mhtreserve :: "krnl_id_t \<Rightarrow> int \<Rightarrow> mht_key_t \<Rightarrow> kernel \<Rightarrow> unit step" where
  "on_mhtreserve sender tid key k =
     (if \<not> keyLocality (k_mht k) key then Inl Assert_failed
      else rbind (mht_reserve key (k_tid k) (k_mht k)) (\<lambda>(r, m).
        let k = k\<lparr>k_mht := m\<rparr> in
        case r of Blocked \<Rightarrow> Inr (Blocked, k) | Returns nr \<Rightarrow> lift (krnl_call sender (KC_MHTRESERVEREPLY tid nr) k)))"

definition on_mhtrelease :: "krnl_id_t \<Rightarrow> mht_key_t \<Rightarrow> u32 \<Rightarrow> kernel \<Rightarrow> unit step" where
  "on_mhtrelease sender key reservation k =
     rbind (mht_release key reservation (k_mht k)) (\<lambda>(_, m, ts). krnl_reply sender (notify_each ts (k\<lparr>k_mht := m\<rparr>)))"

text \<open>The PEs are given by their core ids.\<close>

definition on_membershipUpdate :: "krnl_id_t \<Rightarrow> krnl_id_t \<Rightarrow> pe_id_t \<Rightarrow> u8 \<Rightarrow> pe_id_t list \<Rightarrow> kernel \<Rightarrow> unit step" where
  "on_membershipUpdate sender krnlId krnlCore flags pes k =
     (if tryGetKPE krnlId (k_mht k) = None then Inr (Returns (), k)
      else rbind (updateMembership pes (length pes) krnlId krnlCore flags False (k_mht k))
        (\<lambda>m. krnl_reply sender (k\<lparr>k_mht := m\<rparr>)))"

definition on_migratePartition ::
  "krnl_id_t \<Rightarrow> (pe_id_t \<times> (mht_key_t \<times> u32 \<times> unit option) list) list \<Rightarrow> kernel \<Rightarrow> unit step" where
  "on_migratePartition sender parts k =
     rbind (receivePartitions parts (k_mht k)) (\<lambda>m. krnl_reply sender (k\<lparr>k_mht := m\<rparr>))"

section \<open>Sessions with remote services\<close>

definition on_createSessFwd :: "krnl_id_t \<Rightarrow> int \<Rightarrow> string \<Rightarrow> mht_key_t \<Rightarrow> int \<Rightarrow> stream \<Rightarrow> kernel \<Rightarrow> unit step" where
  "on_createSessFwd sender i srvname cap tid args k =
     (case services_find k srvname of
        None \<Rightarrow> lift (krnl_call sender (KC_CREATESESSRESP i tid INV_ARGS None) k)
      | Some s \<Rightarrow>
          if sv_closing s then lift (krnl_call sender (KC_CREATESESSRESP i tid INV_ARGS None) k)
          else lift (srv_send (sv_ptr s) (SRV_OPEN args) (CB_createSessFwd sender i cap tid) k))"

definition createSessFwd_cb :: "nat \<Rightarrow> krnl_id_t \<Rightarrow> int \<Rightarrow> mht_key_t \<Rightarrow> int \<Rightarrow> code \<Rightarrow> stream \<Rightarrow> kernel \<Rightarrow> unit step" where
  "createSessFwd_cb p sender i cap tid res payload k =
     rbind (srv_received p k) (\<lambda>k.
       rbind (if res \<noteq> NO_ERROR then krnl_call sender (KC_CREATESESSRESP i tid INV_ARGS None) k
              else (case payload of
                      [] \<Rightarrow> Inl Assert_failed
                    | sess # _ \<Rightarrow>
                        (case find_service k p of
                           None \<Rightarrow> Inl Use_after_free
                         | Some s \<Rightarrow> rbind (the_vpe k (sv_vpe s)) (\<lambda>sv.
                             case cap_get k (v_id sv, OBJ) (sv_sel s) CAP_SERVICE of
                               None \<Rightarrow> Inl Assert_failed
                             | Some srvcap \<Rightarrow>
                                 rbind (service_ref p (mod_cap (c_tbl srvcap) (c_sel srvcap) (addChild (k_mht k) cap) k))
                                   (krnl_call sender (KC_CREATESESSRESP i tid NO_ERROR (Some (sess, c_id srvcap))))))))
         (\<lambda>k. Inr (Returns (), service_unref p k)))"

definition on_createSessResp :: "krnl_id_t \<Rightarrow> int \<Rightarrow> int \<Rightarrow> code \<Rightarrow> stream \<Rightarrow> kernel \<Rightarrow> unit step" where
  "on_createSessResp sender i tid res rest k =
     rbind (pe_vpe k (nat i)) (\<lambda>v.
       let k = mod_vpe (nat i) (\<lambda>v. v\<lparr>v_lookup := if res \<noteq> INV_ARGS then Some (sender, res, rest) else v_lookup v,
                 v_sessAwaitingResp := v_sessAwaitingResp v - 1\<rparr>) k;
           k = (if v_sessAwaitingResp v - 1 = 0 then emit (Ev_notify tid []) k else k)
       in lift (krnl_received sender k))"

text \<open>\<^verbatim>\<open>getData<ServiceCapability>()\<close> is null unless the key has the type of a service capability.\<close>

definition on_createSessFail :: "krnl_id_t \<Rightarrow> mht_key_t \<Rightarrow> mht_key_t \<Rightarrow> kernel \<Rightarrow> unit step" where
  "on_createSessFail sender cap srvCap k =
     kbind (mht_fetch srvCap k) (\<lambda>d k.
       if hashToType srvCap \<noteq> SRVCAP then Inl Null_deref
       else (case d of
         IT_cap (Some c) \<Rightarrow>
           (case c_kind c of
              ServCap p \<Rightarrow> krnl_reply sender (service_unref p (mod_cap (c_tbl c) (c_sel c) (removeChild cap) k))
            | _ \<Rightarrow> Inl Null_deref)
       | _ \<Rightarrow> Inl Null_deref))"

section \<open>Exchange over a session with a remote service\<close>

definition on_exchangeOverSession ::
  "krnl_id_t \<Rightarrow> int \<Rightarrow> bool \<Rightarrow> mht_key_t \<Rightarrow> mht_key_t \<Rightarrow> u64 \<Rightarrow> cap_rng \<Rightarrow> stream \<Rightarrow> kernel \<Rightarrow> unit step" where
  "on_exchangeOverSession sender tid obtain vpe srvID sessID caps args k =
     kbind (mht_fetch srvID k) (\<lambda>d k.
       case d of
         IT_service (Some s) \<Rightarrow>
           lift (srv_send (sv_ptr s)
             (if obtain then SRV_OBTAIN sessID (crd_count caps) args else SRV_DELEGATE sessID (crd_count caps) args)
             (CB_exchangeOverSession sender tid obtain vpe caps) k)
       | IT_cap (Some c) \<Rightarrow> Inl Null_deref
       | _ \<Rightarrow> lift (krnl_call sender (KC_EXCHANGEOSESSREPLY tid INV_ARGS None) k))"

text \<open>The first loop over the capabilities of the service: for \<^verbatim>\<open>obtain\<close>, the capabilities up to the first empty slot
  get a child; for \<^verbatim>\<open>delegate\<close>, the slots are reserved. The result are the pointers found.\<close>

fun gather_caps ::
  "bool \<Rightarrow> nat \<times> crd_type \<Rightarrow> mht_key_t \<Rightarrow> capsel_t \<Rightarrow> capsel_t \<Rightarrow> capsel_t list \<Rightarrow> kernel \<Rightarrow> (capability option list \<times> kernel) result" where
  "gather_caps obtain tbl vpe start dst [] k = Inr ([], k)"
| "gather_caps obtain tbl vpe start dst (j # js) k =
     (let c = k_cap k tbl (start + j) in
      if obtain
      then (case c of
              None \<Rightarrow> Inr ([], k)
            | Some c \<Rightarrow>
                rbind (capTypeToItemType (c_type c)) (\<lambda>t. rbind (serializedSizeTyped c) (\<lambda>_.
                  rbind (gather_caps obtain tbl vpe start dst js
                           (mod_cap tbl (start + j) (addChild (k_mht k) (structured_hash (hashToPeId vpe) (hashToVpeId vpe) t (j + dst))) k))
                    (\<lambda>(cs, k). Inr (Some c # cs, k)))))
      else rbind (table_reserve tbl (start + j) k) (\<lambda>k.
        rbind (gather_caps obtain tbl vpe start dst js k) (\<lambda>(cs, k). Inr (c # cs, k))))"

fun serialize_caps :: "capability option list \<Rightarrow> kernel \<Rightarrow> stream result" where
  "serialize_caps [] k = Inr []"
| "serialize_caps (None # cs) k = Inl Null_deref"
| "serialize_caps (Some c # cs) k =
     rbind (serializeTyped (k_objs k) (k_sess k) c) (\<lambda>s. rbind (serialize_caps cs k) (\<lambda>ss. Inr (s @ ss)))"

definition exchangeOverSession_cb ::
  "nat \<Rightarrow> krnl_id_t \<Rightarrow> int \<Rightarrow> bool \<Rightarrow> mht_key_t \<Rightarrow> cap_rng \<Rightarrow> code \<Rightarrow> stream \<Rightarrow> kernel \<Rightarrow> unit step" where
  "exchangeOverSession_cb p sender tid obtain vpe caps res payload k =
     (let answer = (\<lambda>err r k. rbind (krnl_call sender (KC_EXCHANGEOSESSREPLY tid err r) k)
                     (\<lambda>k. Inr (Returns (), service_unref p k)))
      in rbind (srv_received p k) (\<lambda>k.
        if res \<noteq> NO_ERROR then answer res None k
        else rbind (get_rng payload) (\<lambda>(srvcaps, rest).
          if crd_type srvcaps \<noteq> crd_type caps then answer INV_ARGS None k
          else if obtain \<and> crd_count srvcaps > crd_count caps \<or> \<not> obtain \<and> crd_count caps \<noteq> crd_count srvcaps
          then answer INV_ARGS None k
          else (case find_service k p of
            None \<Rightarrow> Inl Use_after_free
          | Some s \<Rightarrow> rbind (the_vpe k (sv_vpe s)) (\<lambda>_.
              let tbl = (sv_vpe s, crd_type srvcaps) in
              if \<not> obtain \<and> range_unused k tbl srvcaps then answer INV_ARGS None k
              else rbind (gather_caps obtain tbl vpe (crd_start srvcaps) (crd_start caps)
                            (map word_of_nat [0..<unat (crd_count srvcaps)]) k) (\<lambda>(cs, k).
                rbind (serialize_caps cs k) (\<lambda>ser.
                  let r = Some (k_tid k, srvcaps\<lparr>crd_count := word_of_nat (length cs)\<rparr>, ser @ rest) in
                  if obtain then answer NO_ERROR r k
                  else rbind (krnl_call sender (KC_EXCHANGEOSESSREPLY tid NO_ERROR r) k) (\<lambda>k. Inr (Blocked, k)))))))))"

definition on_exchangeOverSessionReply :: "krnl_id_t \<Rightarrow> int \<Rightarrow> code \<Rightarrow> stream \<Rightarrow> kernel \<Rightarrow> unit step" where
  "on_exchangeOverSessionReply sender tid res rest k =
     lift (krnl_received sender (emit (Ev_notify tid
       (if res = NO_ERROR then code_word res # word_of_nat (8 * length rest) # rest else [code_word res])) k))"

section \<open>Receive buffers of other kernels\<close>

definition on_recvBufisAttached :: "krnl_id_t \<Rightarrow> int \<Rightarrow> nat \<Rightarrow> nat \<Rightarrow> kernel \<Rightarrow> unit step" where
  "on_recvBufisAttached sender tid core ep k =
     rbind (is_attached (k_rbufs k) core ep) (\<lambda>att.
       if att then lift (krnl_call sender (KC_RECVBUFATTACHED tid NO_ERROR) k)
       else rbind (rb_subscribe core ep (RB_remote sender tid) (k_rbufs k)) (\<lambda>rbs. Inr (Returns (), k\<lparr>k_rbufs := rbs\<rparr>)))"

definition on_recvBufAttached :: "krnl_id_t \<Rightarrow> int \<Rightarrow> code \<Rightarrow> kernel \<Rightarrow> unit step" where
  "on_recvBufAttached sender tid res k = lift (krnl_received sender (emit (Ev_notify tid [code_word res]) k))"

section \<open>Services, start and end of the system\<close>

definition on_announceSrv :: "krnl_id_t \<Rightarrow> mht_key_t \<Rightarrow> string \<Rightarrow> kernel \<Rightarrow> unit step" where
  "on_announceSrv sender key name k = rbind (start_pending (remote_add name key k)) (krnl_reply sender)"

definition on_startApps :: "krnl_id_t \<Rightarrow> kernel \<Rightarrow> unit step" where
  "on_startApps sender k =
     rbind (start_pending (k\<lparr>k_coord := (k_coord k)\<lparr>co_startSignsAwaited := co_startSignsAwaited (k_coord k) - 1\<rparr>\<rparr>))
       (krnl_reply sender)"

definition mod_coord :: "(coordinator \<Rightarrow> coordinator) \<Rightarrow> kernel \<Rightarrow> kernel" where
  "mod_coord f k = k\<lparr>k_coord := f (k_coord k)\<rparr>"

text \<open>Kernel 0 decides when the system ends.\<close>

definition request_at_0 :: "krnl_id_t \<Rightarrow> op_stage \<Rightarrow> kernel \<Rightarrow> kernel result" where
  "request_at_0 sender stage k =
     (if stage = KREQUEST
      then (let k = (if kp_readyForShutdown (k_kpes k sender) = SS_INFLIGHT
                     then mod_coord (\<lambda>c. c\<lparr>co_closingRequests := co_closingRequests c - 1\<rparr>) k else k)
            in rbind (krnl_call sender KC_REPLY (set_shutdown_state sender SS_READY k)) (\<lambda>k.
              Inr (if co_closingRequests (k_coord k) < 0 \<and> k_count k \<le> k_daemons k
                   then (let (m, k) = broadcastShutdownRequest k in mod_coord (\<lambda>c. c\<lparr>co_closingRequests := int m\<rparr>) k)
                   else k)))
      else rbind (krnl_received sender k) (\<lambda>k.
        Inr (if kp_readyForShutdown (k_kpes k sender) \<noteq> SS_READY
             then mod_coord (\<lambda>c. c\<lparr>co_closingRequests := co_closingRequests c - 1\<rparr>) k else k)))"

definition on_requestShutdown :: "krnl_id_t \<Rightarrow> op_stage \<Rightarrow> kernel \<Rightarrow> unit step" where
  "on_requestShutdown sender stage k =
     (if tryGetKPE sender (k_mht k) = None then Inr (Returns (), k)
      else if kid k = 0
      then rbind (request_at_0 sender stage k) (\<lambda>k.
        Inr (Returns (), if co_closingRequests (k_coord k) = 0 \<and> k_count k \<le> k_daemons k then broadcastShutdown k else k))
      else if stage \<noteq> KREQUEST then Inl Assert_failed
      else (let k = mod_coord (\<lambda>c. c\<lparr>co_shutdownRequests := co_shutdownRequests c + 1\<rparr>) k in
        if k_count k \<le> k_daemons k
        then rbind (requestShutdown 0 KREPLY k) (\<lambda>k.
          Inr (Returns (), mod_coord (\<lambda>c. c\<lparr>co_closingRequests := co_closingRequests c + 1\<rparr>) k))
        else Inr (Returns (), k)))"

definition on_shutdown :: "nat \<Rightarrow> krnl_id_t \<Rightarrow> op_stage \<Rightarrow> kernel \<Rightarrow> unit step" where
  "on_shutdown n sender stage k =
     (if stage = KREQUEST
      then if kid k = 0 then Inl Assert_failed
           else kbind (pe_terminate n (mod_coord (\<lambda>c. c\<lparr>co_shutdownIssued := True\<rparr>) k)) (\<lambda>done k.
             if done then lift (krnl_call 0 (KC_SHUTDOWN KREPLY) k) else Inr (Returns (), k))
      else if kid k \<noteq> 0 then Inl Assert_failed
      else rbind (removeKPE sender k) (\<lambda>k.
        if numKPEs k = 0 then kbind (pe_terminate n k) (\<lambda>_ k. Inr (Returns (), k)) else Inr (Returns (), k)))"

section \<open>Connecting kernels\<close>

text \<open>\<^verbatim>\<open>Kernelcalls::connect\<close> to a kernel that is not in the list yet.\<close>

definition connect_new ::
  "krnl_id_t \<Rightarrow> op_stage \<Rightarrow> int \<Rightarrow> u8 \<Rightarrow> pe_desc list \<Rightarrow> kernel \<Rightarrow> kernel result" where
  "connect_new krnl stage epid flags pes k =
     (if 7 * 8 + 8 * length pes + HEADER_SIZE < KRNLC_MSG_SIZE
      then Inr (emit (Ev_krnl krnl (KC_CONNECT stage (kid k) (word_of_nat (ke_kernel_pe (k_env k))) epid (Some (flags, pes))))
             (k\<lparr>k_connReqs := k_connReqs k @ [(krnl, epid)]\<rparr>))
      else Inl Assert_failed)"

fun connect_all :: "(krnl_id_t \<times> pe_id_t) list \<Rightarrow> pe_desc list \<Rightarrow> kernel \<Rightarrow> kernel result" where
  "connect_all [] pes k = Inr k"
| "connect_all ((krnl, core) # ks) pes k =
     (let (localEp, k) = kc_reserve_ep krnl k in
      if localEp = -1 then Inl Panic
      else rbind (connect_new krnl KREQUEST localEp MF_NONE pes k) (connect_all ks pes))"

definition own_pes :: "kernel \<Rightarrow> pe_desc list" where
  "own_pes k = filter (\<lambda>d. responsibleKrnl (k_mht k) (word_of_nat (core_id d)) = kid k) (ke_pes (k_env k))"

text \<open>\<open>amount\<close> is the announced number of entries; the message has to hold at least as many.\<close>

definition on_announceKrnls :: "krnl_id_t \<Rightarrow> u32 \<Rightarrow> (krnl_id_t \<times> pe_id_t) list \<Rightarrow> kernel \<Rightarrow> unit step" where
  "on_announceKrnls sender amount krnls k =
     (if length (own_pes k) > localPEs (k_mht k) then Inl Out_of_bounds
      else if length (own_pes k) \<noteq> localPEs (k_mht k) then Inl Assert_failed
      else rbind (connect_all (take (unat amount) krnls) (own_pes k) k) (\<lambda>k.
        if length krnls < unat amount then Inl Assert_failed
        else rbind (krnl_call sender (KC_SIGVITAL (ke_creatorThread (k_env k)) NO_ERROR) k) (\<lambda>k.
          Inr (Returns (), emit (Ev_notify 0 []) k))))"

definition announce_services :: "krnl_id_t \<Rightarrow> kernel \<Rightarrow> kernel" where
  "announce_services krnl k = emit_all (map (\<lambda>s. Ev_krnl krnl (KC_ANNOUNCESRV (sv_id s) (sv_name s))) (k_servs k)) k"

text \<open>The loop over the connection requests removes and deletes every entry of the kernel; the last one counts.\<close>

definition on_connect ::
  "op_stage \<Rightarrow> krnl_id_t \<Rightarrow> pe_id_t \<Rightarrow> int \<Rightarrow> (u8 \<times> pe_desc list) option \<Rightarrow> kernel \<Rightarrow> unit step" where
  "on_connect stage krnl core epid ext k =
     (if stage = KREQUEST
      then (let (localEp, k) = kc_reserve_ep krnl k in
        if localEp = -1 then lift (connect_new krnl KREPLY (-1) MF_NONE [] k)
        else (case ext of
          None \<Rightarrow> Inl Assert_failed
        | Some (flags, pes) \<Rightarrow>
            rbind (krnl_call krnl (KC_CONNECT KREPLY (kid k) (word_of_nat (ke_kernel_pe (k_env k))) localEp None)
                     (addKPE krnl core localEp epid k)) (\<lambda>k.
              rbind (updateMembership (map (\<lambda>d. word_of_nat (core_id d)) pes) (length pes) krnl core flags False (k_mht k)) (\<lambda>m.
                Inr (Returns (), announce_services krnl (k\<lparr>k_mht := m\<rparr>))))))
      else if epid = -1 then Inr (Returns (), k)
      else (case filter (\<lambda>r. fst r = krnl) (k_connReqs k) of
        [] \<Rightarrow> Inl Panic
      | rs \<Rightarrow> if snd (last rs) = -1 then Inl Panic
              else Inr (Returns (), addKPE krnl core (snd (last rs)) epid (k\<lparr>k_connReqs := filter (\<lambda>r. fst r \<noteq> krnl) (k_connReqs k)\<rparr>))))"

section \<open>Dispatch\<close>

text \<open>What the rest of the message holds is part of the constructors of the messages.\<close>

fun handle_krnl_msg :: "nat \<Rightarrow> krnl_id_t \<Rightarrow> krnl_msg \<Rightarrow> kernel \<Rightarrow> unit step" where
  "handle_krnl_msg n s (KC_REVOKE cap parent origin) k = kc_revoke n s cap parent origin k"
| "handle_krnl_msg n s (KC_REVOKEFINISH init aw incl) k = lift (kc_revokeFinish n s init aw incl k)"
| "handle_krnl_msg n s (KC_MHTGET tid key) k = on_mhtget s tid key k"
| "handle_krnl_msg n s (KC_REMOVECHILDCAPPTR ps pc cs cc) k = kc_removeChildCapPtr s ps pc cs cc k"
| "handle_krnl_msg n s (KC_CREATESESSFWD i name cap tid args) k = on_createSessFwd s i name cap tid args k"
| "handle_krnl_msg n s (KC_CREATESESSRESP i tid res r) k =
     on_createSessResp s i tid res (case r of None \<Rightarrow> [] | Some (sess, cap) \<Rightarrow> [sess, cap]) k"
| "handle_krnl_msg n s (KC_CREATESESSFAIL cap srv) k = on_createSessFail s cap srv k"
| "handle_krnl_msg n s (KC_EXCHANGEOSESS tid obt v srv sess caps args) k = on_exchangeOverSession s tid obt v srv sess caps args k"
| "handle_krnl_msg n s (KC_EXCHANGEOSESSREPLY tid res r) k =
     on_exchangeOverSessionReply s tid res (case r of None \<Rightarrow> []
       | Some (t, crd, rest) \<Rightarrow> put_int t # (if crd_type crd = OBJ then 0 else 1) # ucast (crd_start crd) # ucast (crd_count crd) # rest) k"
| "handle_krnl_msg n s (KC_RECVBUFISATTACHED tid core ep) k = on_recvBufisAttached s tid core ep k"
| "handle_krnl_msg n s (KC_RECVBUFATTACHED tid res) k = on_recvBufAttached s tid res k"
| "handle_krnl_msg n s (KC_ANNOUNCESRV key name) k = on_announceSrv s key name k"
| "handle_krnl_msg n s (KC_SHUTDOWNREQUEST stage) k = on_requestShutdown s stage k"
| "handle_krnl_msg n s (KC_SHUTDOWN stage) k = on_shutdown n s stage k"
| "handle_krnl_msg n s KC_REPLY k = lift (krnl_received s k)"
| "handle_krnl_msg n s KC_STARTAPPS k = on_startApps s k"
| "handle_krnl_msg n s (KC_SIGVITAL tid err) k = on_sigvital tid err k"
| "handle_krnl_msg n s (KC_KCREATEVPE tid ok) k = on_kcreatevpe s KREPLY tid k"
| "handle_krnl_msg n s (KC_MHTGETREPLY tid it) k = on_mhtgetReply s tid it k"
| "handle_krnl_msg n s (KC_MHTLOCKREPLY tid h) k = on_number_reply s tid h k"
| "handle_krnl_msg n s (KC_MHTLOCKFORWARD tid krnl key) k = on_mhtlockForward s krnl key k"
| "handle_krnl_msg n s (KC_MHTRESERVEREPLY tid nr) k = on_number_reply s tid nr k"
| "handle_krnl_msg n s (KC_ANNOUNCEKRNLS amount ks) k = on_announceKrnls s amount ks k"
| "handle_krnl_msg n s (KC_CONNECT stage krnl core ep ext) k = on_connect stage krnl core ep ext k"

text \<open>The messages that the data layer sends on its own. \<^verbatim>\<open>mhtgetLocking\<close> has no entry in the table of handlers. \<^verbatim>\<open>Kernelcalls::mhtputUnlocking\<close>
  sends the operation code of \<^verbatim>\<open>mhtput\<close> followed by the lock handle, so that the handler takes the handle for the key of the item.\<close>

fun handle_mht_msg :: "krnl_id_t \<Rightarrow> unit mht_msg \<Rightarrow> kernel \<Rightarrow> unit step" where
  "handle_mht_msg s (MHTPUT None it) k = on_mhtput s it k"
| "handle_mht_msg s (MHTPUT (Some h) it) k =
     rbind (item_deserialize (ucast h, ucast (it_key it), it_data it)) (\<lambda>it. on_mhtput s it k)"
| "handle_mht_msg s (MHTGET tid key) k = on_mhtget s tid key k"
| "handle_mht_msg s (MHTGETLOCKING tid key) k = Inl Null_deref"
| "handle_mht_msg s (MHTLOCK tid key) k = on_mhtlock s tid key k"
| "handle_mht_msg s (MHTUNLOCK key h) k = on_mhtunlock s key h k"
| "handle_mht_msg s (MHTRESERVE tid key) k = on_mhtreserve s tid key k"
| "handle_mht_msg s (MHTRELEASE key nr) k = on_mhtrelease s key nr k"
| "handle_mht_msg s (MEMBERUPDATE krnl core flags pes) k = on_membershipUpdate s krnl core flags pes k"
| "handle_mht_msg s (PARTITIONMIG parts) k = on_migratePartition s parts k"

text \<open>The reply of a service is handled by what was subscribed for it.\<close>

fun handle_srv_reply :: "nat \<Rightarrow> srv_closure \<Rightarrow> code \<Rightarrow> stream \<Rightarrow> kernel \<Rightarrow> unit step" where
  "handle_srv_reply p (CB_createsess i cap tvpe rinfo) res payload k = createsess_cb p i cap tvpe rinfo res payload k"
| "handle_srv_reply p (CB_exchange i caps tvpe obt rinfo) res payload k = exchange_cb p i caps tvpe obt rinfo res payload k"
| "handle_srv_reply p (CB_createSessFwd s i cap tid) res payload k = createSessFwd_cb p s i cap tid res payload k"
| "handle_srv_reply p (CB_exchangeOverSession s tid obt v caps) res payload k = exchangeOverSession_cb p s tid obt v caps res payload k"
| "handle_srv_reply p CB_none res payload k = rbind (srv_received p k) (\<lambda>k. Inr (Returns (), service_unref p k))"

end
