(* ===== verification/Caps_Preserved.thy ===== *)
theory Caps_Preserved
  imports Kernelcall_Handlers
begin

unbundle bit_operations_syntax

text \<open>
  The invariant of the capability system (\<^const>\<open>caps_inv\<close>: tables are well-formed, every capability carries the
  identifier of its slot, and reference counts are the numbers of capabilities) is kept by every system call that
  neither revokes nor ends a VPE. Operations that do not touch capabilities are covered by \<open>same_caps\<close>.
\<close>

lemma rbind_InrE:
  assumes "rbind m f = Inr y"
  obtains x where "m = Inr x" "f x = Inr y"
  using assms by (auto simp: rbind_eq_Inr)

section \<open>Operations that leave the capabilities alone\<close>

definition same_caps :: "kernel \<Rightarrow> kernel \<Rightarrow> bool" where
  "same_caps k k' \<longleftrightarrow> k_objs k' = k_objs k \<and> k_next k \<le> k_next k' \<and> (\<forall>i. k_vpes k' i = None \<longleftrightarrow> k_vpes k i = None) \<and>
     k_cap k' = k_cap k \<and> (tables_ok k \<longrightarrow> tables_ok k')"

lemma same_caps_refl [simp]: "same_caps k k"
  by (simp add: same_caps_def)

lemma same_caps_trans: "same_caps k k' \<Longrightarrow> same_caps k' k'' \<Longrightarrow> same_caps k k''"
  by (auto simp: same_caps_def)

lemma refs_to_same: "k_cap k' = k_cap k \<Longrightarrow> refs_to k' = refs_to k"
  by (rule ext) (simp add: refs_to_def)

lemma caps_inv_same:
  assumes "same_caps k k'" "caps_inv k"
  shows "caps_inv k'"
proof -
  note same = assms(1) [unfolded same_caps_def]
  have "refs_to k' = refs_to k" using same by (intro refs_to_same) simp
  then show ?thesis using assms(2) same unfolding caps_inv_def by (force intro: order_less_le_trans)
qed

lemma caps_inv_wf: "caps_inv k \<Longrightarrow> k_cap k tbl sel = Some c \<Longrightarrow> cap_wf tbl sel c"
  unfolding caps_inv_def by blast

lemma same_caps_vpes:
  assumes "k_vpes k' = k_vpes k" "k_objs k' = k_objs k" "k_next k \<le> k_next k'"
  shows "same_caps k k'"
  using assms k_cap_cong [OF assms(1)] tables_ok_cong [OF assms(1)] by (simp add: same_caps_def)

lemma same_caps_cong:
  assumes "k_vpes k' = k_vpes k" "k_objs k' = k_objs k" "k_next k' = k_next k"
  shows "same_caps k0 k' = same_caps k0 k"
  using assms k_cap_cong [OF assms(1)] tables_ok_cong [OF assms(1)] by (simp add: same_caps_def)

lemma same_caps_emit [simp]:
  "same_caps k0 (emit e k) = same_caps k0 k" "same_caps k0 (emit_all es k) = same_caps k0 k"
  by (rule same_caps_cong; simp add: emit_all_def)+

lemma same_caps_fields [simp]:
  "same_caps k0 (k\<lparr>k_mem := a\<rparr>) = same_caps k0 k" "same_caps k0 (k\<lparr>k_sess := b\<rparr>) = same_caps k0 k"
  "same_caps k0 (k\<lparr>k_servs := c\<rparr>) = same_caps k0 k" "same_caps k0 (k\<lparr>k_rservs := d\<rparr>) = same_caps k0 k"
  "same_caps k0 (k\<lparr>k_rbufs := e\<rparr>) = same_caps k0 k" "same_caps k0 (k\<lparr>k_coord := f\<rparr>) = same_caps k0 k"
  "same_caps k0 (k\<lparr>k_pending := g\<rparr>) = same_caps k0 k" "same_caps k0 (k\<lparr>k_epOccup := h\<rparr>) = same_caps k0 k"
  "same_caps k0 (k\<lparr>k_loaded := l\<rparr>) = same_caps k0 k" "same_caps k0 (k\<lparr>k_idles := m\<rparr>) = same_caps k0 k"
  "same_caps k0 (k\<lparr>k_count := n\<rparr>) = same_caps k0 k" "same_caps k0 (k\<lparr>k_kpes := p\<rparr>) = same_caps k0 k"
  by (rule same_caps_cong; simp)+

lemma same_caps_next [simp]: "same_caps k (k\<lparr>k_next := Suc (k_next k)\<rparr>)"
  by (rule same_caps_vpes) simp_all

text \<open>A change of a VPE that leaves its number and its tables alone.\<close>

lemma all_map_entries_upd:
  assumes "m i = Some u" "P i (f u) = P i u"
  shows "(\<forall>j w. (m(i \<mapsto> f u)) j = Some w \<longrightarrow> P j w) = (\<forall>j w. m j = Some w \<longrightarrow> P j w)"
  using assms by (metis fun_upd_apply option.inject)

lemma same_caps_mod_vpe_iff:
  assumes "\<And>v. v_id (f v) = v_id v" "\<And>v. v_objcaps (f v) = v_objcaps v" "\<And>v. v_mapcaps (f v) = v_mapcaps v"
  shows "same_caps k0 (mod_vpe i f k) = same_caps k0 k"
proof -
  have t: "v_table t (f v) = v_table t v" for t v using assms by (cases t) (simp_all add: v_table_def)
  have v: "k_vpes (mod_vpe i f k) j = (if j = i then map_option f (k_vpes k i) else k_vpes k j)" for j
    by (simp add: mod_vpe_def)
  have "k_cap (mod_vpe i f k) tbl sel = k_cap k tbl sel" for tbl sel
    by (cases "k_vpes k i") (auto simp: k_cap_def v t)
  then have "k_cap (mod_vpe i f k) = k_cap k" by (simp add: fun_eq_iff)
  moreover have "tables_ok (mod_vpe i f k) = tables_ok k"
  proof (cases "k_vpes k i")
    case None
    then have "k_vpes (mod_vpe i f k) = k_vpes k" by (simp add: v fun_eq_iff)
    then show ?thesis by (rule tables_ok_cong)
  next
    case (Some u)
    then have m: "k_vpes (mod_vpe i f k) = (k_vpes k)(i \<mapsto> f u)" by (simp add: mod_vpe_def)
    show ?thesis unfolding tables_ok_def m by (rule all_map_entries_upd [where m = "k_vpes k", OF Some]) (simp add: t assms)
  qed
  moreover have "(k_vpes (mod_vpe i f k) j = None) = (k_vpes k j = None)" for j by (simp add: v)
  ultimately show ?thesis by (simp add: same_caps_def)
qed

lemma same_caps_mod_vpe:
  "(\<And>v. v_id (f v) = v_id v) \<Longrightarrow> (\<And>v. v_objcaps (f v) = v_objcaps v) \<Longrightarrow> (\<And>v. v_mapcaps (f v) = v_mapcaps v) \<Longrightarrow>
    same_caps k (mod_vpe i f k)"
  by (simp add: same_caps_mod_vpe_iff)

lemma same_caps_vpe_fields [simp]:
  "same_caps k0 (mod_vpe i (v_lookup_update f) k) = same_caps k0 k"
  "same_caps k0 (mod_vpe i (v_sessAwaitingResp_update g) k) = same_caps k0 k"
  "same_caps k0 (mod_vpe i (v_exitsubscr_update h) k) = same_caps k0 k"
  by (rule same_caps_mod_vpe_iff; simp)+

lemma same_caps_vpe_ref: "vpe_ref v k = Inr k' \<Longrightarrow> same_caps k k'"
  by (auto simp: vpe_ref_def split: option.splits intro: same_caps_mod_vpe)

lemma same_caps_service_ref: "service_ref p k = Inr k' \<Longrightarrow> same_caps k k'"
  by (auto simp: service_ref_def mod_service_def split: option.splits)

lemma same_caps_srv_send: "srv_send p cmd cb k = Inr k' \<Longrightarrow> same_caps k k'"
  by (auto simp: srv_send_def mod_service_def split: option.splits prod.splits)

lemma same_caps_krnl_call: "krnl_call dst msg k = Inr k' \<Longrightarrow> same_caps k k'"
  by (auto simp: krnl_call_def split: if_splits option.splits)

lemma same_caps_reply_to: "reply_to_vpe i r e s k = Inr k' \<Longrightarrow> same_caps k k'"
  by (auto simp: reply_to_vpe_def split: option.splits)

lemma same_caps_alloc_mem: "alloc_mem sz k = Inr (a, k') \<Longrightarrow> same_caps k k'"
  by (auto simp: alloc_mem_def rbind_eq_Inr split: prod.splits if_splits)

lemma same_caps_get_mod: "get_mod name k = (r, k') \<Longrightarrow> same_caps k k'"
  by (auto simp: get_mod_def split: option.splits)

lemma same_caps_waiters_gone: "waiters_gone ws k = Inr k' \<Longrightarrow> same_caps k k'"
proof (induction ws arbitrary: k)
  case (Cons w ws)
  then obtain k1 where w: "waiters_gone ws k1 = Inr k'" "same_caps k k1"
    by (cases w) (auto simp: rbind_eq_Inr dest: same_caps_reply_to same_caps_krnl_call)
  show ?case using same_caps_trans [OF w(2) Cons.IH [OF w(1)]] .
qed simp

lemma same_caps_detach:
  assumes "detach_rbuf v ep k = Inr k'"
  shows "same_caps k k'"
proof -
  obtain cfgs ws rbs where "waiters_gone ws (emit_all (map (\<lambda>c. Ev_dtu (DTU_config_recv (v_id v) c)) cfgs) (k\<lparr>k_rbufs := rbs\<rparr>)) = Inr k'"
    using assms by (auto simp: detach_rbuf_def rbind_eq_Inr)
  from same_caps_waiters_gone [OF this] show ?thesis by (rule same_caps_trans [rotated]) simp
qed

section \<open>Putting a capability into a table\<close>

text \<open>A capability that has been made but is in no table yet: its object, if it has one, has been given the reference.\<close>

definition made :: "kernel \<Rightarrow> capability \<Rightarrow> kernel \<Rightarrow> bool" where
  "made k c k1 \<longleftrightarrow> (\<exists>k0 ob. same_caps k k0 \<and> c_type c = kind_type (c_kind c) \<and>
     (snd (c_tbl c) = MAP \<longleftrightarrow> kind_item (c_kind c) = MAPCAP) \<and> c_ptr c < k_next k1 \<and> k_next k0 \<le> k_next k1 \<and>
     k_vpes k1 = k_vpes k0 \<and>
     k_objs k1 = (case kind_obj (c_kind c) of None \<Rightarrow> k_objs k0 | Some p \<Rightarrow> (k_objs k0)(p \<mapsto> ob)) \<and>
     (\<forall>p. kind_obj (c_kind c) = Some p \<longrightarrow> p < k_next k1 \<and>
        mo_refs ob = (case k_objs k0 p of None \<Rightarrow> 1 | Some o' \<Rightarrow> mo_refs o' + 1)))"

lemma made_parent [simp]: "made k (c\<lparr>c_parent := par\<rparr>) k1 = made k c k1"
  by (simp add: made_def)

lemma made_same: "made k1 c k2 \<Longrightarrow> same_caps k k1 \<Longrightarrow> made k c k2"
  unfolding made_def by (blast intro: same_caps_trans)

lemma made_table_set:
  assumes inv: "caps_inv k" and md: "made k c k1" and set: "table_set tbl i c k1 = Inr (c', k2)"
  shows "caps_inv k2 \<and> c' = c\<lparr>c_id := cap_key (fst tbl) (c_kind c) i\<rparr> \<and> c_tbl c = tbl \<and> c_sel c = i \<and>
    k_cap k tbl i = None \<and> k_mht k2 = k_mht k1 \<and> k_objs k2 = k_objs k1 \<and>
    (\<forall>tb s. k_cap k2 tb s = (if tb = tbl \<and> s = i then Some c' else k_cap k tb s))"
proof -
  obtain k0 ob where k0: "same_caps k k0" "c_type c = kind_type (c_kind c)" "c_ptr c < k_next k1"
      "snd (c_tbl c) = MAP \<longleftrightarrow> kind_item (c_kind c) = MAPCAP" "k_next k0 \<le> k_next k1" "k_vpes k1 = k_vpes k0"
      "k_objs k1 = (case kind_obj (c_kind c) of None \<Rightarrow> k_objs k0 | Some p \<Rightarrow> (k_objs k0)(p \<mapsto> ob))"
      "\<And>p. kind_obj (c_kind c) = Some p \<Longrightarrow> p < k_next k1 \<and>
        mo_refs ob = (case k_objs k0 p of None \<Rightarrow> 1 | Some o' \<Rightarrow> mo_refs o' + 1)"
    using md unfolding made_def by blast
  have inv0: "caps_inv k0" by (rule caps_inv_same [OF k0(1) inv])
  have cap0: "k_cap k0 = k_cap k" using k0(1) by (simp add: same_caps_def)
  have t1: "tables_ok k1" using inv0 tables_ok_cong [OF k0(6)] by (simp add: caps_inv_def)
  have v1: "k_vpes k1 (fst tbl) \<noteq> None" "k_cap k1 tbl i = None" "c_tbl c = tbl" "c_sel c = i"
    using set by (auto simp: table_set_def k_table_def k_cap_def split: option.splits if_splits)
  let ?c = "c\<lparr>c_id := cap_key (fst tbl) (c_kind c) i\<rparr>"
  have r: "c' = ?c" "k2 = table_put tbl i ?c k1"
    using set table_set_ok [OF t1 v1 k0(2)] by auto
  have free: "k_cap k0 tbl i = None" using v1(2) k_cap_cong [OF k0(6)] by simp
  have "caps_inv (table_put tbl i ?c k1)"
  proof (rule caps_inv_put [OF inv0 _ free, where ob = ob])
    show "k_vpes k0 (fst tbl) \<noteq> None" using v1(1) k0(6) by simp
    show "cap_wf tbl i ?c" using k0 v1(3,4) by (simp add: cap_wf_def)
  qed (use k0 in auto)
  then show ?thesis
    using r v1 free k_cap_put [OF t1 v1(1,2), of ?c] k_cap_cong [OF k0(6)] cap0 by simp
qed

lemma made_inherit_and_set:
  assumes inv: "caps_inv k" and md: "made k c k1" and set: "inherit_and_set par c tbl i k1 = Inr (c', k2)"
  shows "caps_inv k2"
proof -
  obtain k3 where k3: "table_set tbl i (c\<lparr>c_parent := c_id par\<rparr>) k1 = Inr (c', k3)"
      "k2 = (if keyLocality (k_mht k3) (c_id par) then mod_cap (c_tbl par) (c_sel par) (addChild (k_mht k3) (c_id c')) k3 else k3)"
    using set by (auto simp: inherit_and_set_def rbind_eq_Inr)
  have "caps_inv k3" using made_table_set [OF inv _ k3(1)] md by simp
  then show ?thesis unfolding k3(2) by (simp add: caps_inv_mod_cap)
qed

subsection \<open>What makes capabilities\<close>

lemma caps_inv_objs_fresh: "caps_inv k \<Longrightarrow> k_objs k (k_next k) = None"
  unfolding caps_inv_def by (metis less_irrefl)

lemmas new_cap_defs = new_MsgCapability_def new_MemCapability_def new_MapCapability_def new_SessionCapability_def
  new_ServiceCapability_def new_VPECapability_def new_MemObject_def new_Capability_def new_obj_def new_sess_def fresh_def

lemma made_new:
  assumes "same_caps k k0" "caps_inv k" "c_type c = kind_type (c_kind c)"
    and "snd (c_tbl c) = MAP \<longleftrightarrow> kind_item (c_kind c) = MAPCAP"
    and "c_ptr c < k_next k1" "k_next k0 \<le> k_next k1" "k_vpes k1 = k_vpes k0"
    and "kind_obj (c_kind c) = Some (k_next k0) \<and> k_objs k1 = (k_objs k0)(k_next k0 \<mapsto> ob\<lparr>mo_refs := 1\<rparr>) \<and> k_next k0 < k_next k1
       \<or> kind_obj (c_kind c) = None \<and> k_objs k1 = k_objs k0"
  shows "made k c k1"
  unfolding made_def
  by (rule exI [of _ k0], rule exI [of _ "ob\<lparr>mo_refs := 1\<rparr>"])
    (use assms caps_inv_objs_fresh [OF caps_inv_same [OF assms(1,2)]] in auto)

lemma made_gate: "caps_inv k \<Longrightarrow> new_MsgCapability (j, OBJ) sel l co v e cr oid k = (c, k1) \<Longrightarrow> made k c k1"
  by (rule made_new [where ob = "new_MsgObject l co v e cr oid", OF same_caps_refl]) (auto simp: new_cap_defs Let_def item_type_defs)

lemma made_mem:
  assumes "caps_inv k" "new_MemCapability (j, OBJ) sel a s pm co v e oid k = Inr (c, k1)"
  shows "made k c k1"
proof -
  obtain ob where "new_MemObject a s pm co v e oid = Inr ob"
      "(c, k1) = (let (q, k) = new_obj ob k; (p, k) = fresh k
         in (new_Capability p (j, OBJ) sel (CAP_MEM OR CAP_MSG) 0 (MemCap (-1) q oid), k))"
    using assms(2) by (auto simp: new_MemCapability_def rbind_eq_Inr new_obj_def fresh_def Let_def)
  then show ?thesis
    by (intro made_new [where ob = ob, OF same_caps_refl assms(1)]) (auto simp: new_cap_defs Let_def item_type_defs)
qed

lemma made_map: "caps_inv k \<Longrightarrow> new_MapCapability (j, MAP) sel ph attr k = Inr (c, k1) \<Longrightarrow> made k c k1"
  by (rule made_new [OF same_caps_refl]) (auto simp: new_cap_defs Let_def rbind_eq_Inr)

lemma made_session:
  assumes "caps_inv k" "new_SessionCapability (j, OBJ) sel srv sid ident ow cid k = Inr (c, k1)"
  shows "made k c k1"
proof -
  obtain k0 where k0: "(case srv of None \<Rightarrow> Inr k | Some p \<Rightarrow> service_ref p k) = Inr k0"
      "c = new_Capability (k_next k0 + 1) (j, OBJ) sel CAP_SESSION cid (SessCap (k_next k0))"
      "k_vpes k1 = k_vpes k0" "k_objs k1 = k_objs k0" "k_next k1 = k_next k0 + 2"
    using assms(2) by (auto simp: new_SessionCapability_def rbind_eq_Inr new_sess_def fresh_def Let_def)
  have "same_caps k k0" using k0(1) by (auto split: option.splits dest: same_caps_service_ref)
  then show ?thesis
    by (rule made_new [OF _ assms(1)]) (use k0(2-) in \<open>auto simp: new_Capability_def item_type_defs\<close>)
qed

lemma made_service:
  assumes "caps_inv k" "new_ServiceCapability (j, OBJ) sel s cid k = Inr (c, k1)"
  shows "made k c k1"
proof -
  obtain k0 where k0: "service_ref s k = Inr k0" "c = new_Capability (k_next k0) (j, OBJ) sel CAP_SERVICE cid (ServCap s)"
      "k1 = k0\<lparr>k_next := k_next k0 + 1\<rparr>"
    using assms(2) by (auto simp: new_ServiceCapability_def rbind_eq_Inr fresh_def Let_def)
  show ?thesis
    by (rule made_new [OF same_caps_service_ref [OF k0(1)] assms(1)])
      (use k0(2-) in \<open>auto simp: new_Capability_def item_type_defs\<close>)
qed

lemma made_vpe:
  assumes "caps_inv k" "new_VPECapability (j, OBJ) sel v k = Inr (c, k1)"
  shows "made k c k1"
proof -
  obtain k0 where k0: "vpe_ref (Some (v_id v)) k = Inr k0"
      "c = new_Capability (k_next k0) (j, OBJ) sel CAP_VIRTPE 0 (VPECap (Some (v_id v)) (vpe_key v VPECAP sel))"
      "k1 = k0\<lparr>k_next := k_next k0 + 1\<rparr>"
    using assms(2) by (auto simp: new_VPECapability_def rbind_eq_Inr fresh_def Let_def)
  show ?thesis
    by (rule made_new [OF same_caps_vpe_ref [OF k0(1)] assms(1)])
      (use k0(2-) in \<open>auto simp: new_Capability_def item_type_defs\<close>)
qed

lemma made_copy:
  assumes inv: "caps_inv k" and same: "same_caps k k0" and c: "k_cap k (j, t) s = Some c"
    and kd: "kind_type kd = kind_type (c_kind c)" "kind_item kd = kind_item (c_kind c)" "kind_obj kd = kind_obj (c_kind c)"
    and k1: "k_vpes k1 = k_vpes k0" "k_next k1 = k_next k0"
      "k_objs k1 = (case kind_obj kd of None \<Rightarrow> k_objs k0
         | Some p \<Rightarrow> (k_objs k0)(p \<mapsto> (the (k_objs k0 p))\<lparr>mo_refs := mo_refs (the (k_objs k0 p)) + 1\<rparr>))"
    and cp: "copy_cap c (i, t) sel kd k1 = (nc, k2)"
  shows "made k nc k2"
proof -
  have inv0: "caps_inv k0" and cap0: "k_cap k0 (j, t) s = Some c"
    using caps_inv_same [OF same inv] same c by (simp_all add: same_caps_def)
  have wf: "cap_wf (j, t) s c" by (rule caps_inv_wf [OF inv c])
  have ob: "p < k_next k0 \<and> k_objs k0 p \<noteq> None" if "kind_obj kd = Some p" for p
  proof -
    have "((j, t), s) \<in> refs_to k0 p" using that kd(3) cap0 by (simp add: refs_to_def)
    then have "card (refs_to k0 p) \<noteq> 0" using inv0 unfolding caps_inv_def by (metis card_0_eq empty_iff)
    then show ?thesis using inv0 unfolding caps_inv_def by (metis option.case_eq_if)
  qed
  have nc: "c_kind nc = kd" "c_type nc = c_type c" "c_tbl nc = (i, t)" "c_ptr nc = k_next k0" "k2 = k1\<lparr>k_next := k_next k1 + 1\<rparr>"
    using cp k1(2) by (auto simp: copy_cap_def fresh_def)
  show ?thesis unfolding made_def
    by (rule exI [of _ k0], rule exI [of _ "(the (k_objs k0 (the (kind_obj kd))))\<lparr>mo_refs := mo_refs (the (k_objs k0 (the (kind_obj kd)))) + 1\<rparr>"])
      (use same wf kd k1 nc ob in \<open>auto simp: cap_wf_def split: option.splits\<close>)
qed

lemma made_clone:
  assumes inv: "caps_inv k" and c: "k_cap k (j, t) s = Some c" and cl: "cap_clone c (i, t) sel k = Inr (Some nc, k1)"
  shows "made k nc k1"
proof -
  have wf: "cap_wf (j, t) s c" by (rule caps_inv_wf [OF inv c])
  show ?thesis
  proof (cases "c_kind c")
    case (MsgCap ep ob oid)
    then obtain o' where "k_objs k ob = Some o'"
        "copy_cap c (i, t) sel (MsgCap (-1) ob oid) (k\<lparr>k_objs := (k_objs k)(ob \<mapsto> o'\<lparr>mo_refs := mo_refs o' + 1\<rparr>)\<rparr>) = (nc, k1)"
      using cl by (auto simp: cap_clone_def obj_ref_def rbind_eq_Inr split: option.splits prod.splits)
    with MsgCap show ?thesis by (intro made_copy [OF inv same_caps_refl c, of "MsgCap (-1) ob oid"]) auto
  next
    case (MemCap ep ob oid)
    then obtain o' where "k_objs k ob = Some o'"
        "copy_cap c (i, t) sel (MemCap (-1) ob oid) (k\<lparr>k_objs := (k_objs k)(ob \<mapsto> o'\<lparr>mo_refs := mo_refs o' + 1\<rparr>)\<rparr>) = (nc, k1)"
      using cl by (auto simp: cap_clone_def obj_ref_def rbind_eq_Inr split: option.splits prod.splits)
    with MemCap show ?thesis by (intro made_copy [OF inv same_caps_refl c, of "MemCap (-1) ob oid"]) auto
  next
    case (MapCap ph attr)
    then have "t = MAP" using wf by (simp add: cap_wf_def)
    then have "new_MapCapability (i, MAP) sel ph attr k = Inr (nc, k1)"
      using cl MapCap by (auto simp: cap_clone_def rbind_eq_Inr)
    then show ?thesis by (rule made_map [OF inv])
  next
    case (ServCap q)
    then show ?thesis using cl by (simp add: cap_clone_def)
  next
    case (SessCap q)
    then obtain k0 where "sess_ref q k = Inr k0" "copy_cap c (i, t) sel (SessCap q) k0 = (nc, k1)"
      using cl by (auto simp: cap_clone_def rbind_eq_Inr Let_def case_prod_unfold prod_eq_iff)
    moreover from this have "same_caps k k0" by (auto simp: sess_ref_def split: option.splits)
    ultimately show ?thesis using SessCap by (intro made_copy [OF inv _ c, of k0 "SessCap q"]) auto
  next
    case (VPECap v d)
    then obtain k0 where "vpe_ref v k = Inr k0" "copy_cap c (i, t) sel (VPECap v (k_junk k0)) k0 = (nc, k1)"
      using cl by (auto simp: cap_clone_def rbind_eq_Inr Let_def case_prod_unfold prod_eq_iff)
    moreover from this have "same_caps k k0" by (simp add: same_caps_vpe_ref)
    ultimately show ?thesis using VPECap by (intro made_copy [OF inv _ c, of k0 "VPECap v (k_junk k0)"]) auto
  qed
qed

text \<open>Handing a capability on.\<close>

lemma caps_inv_obtain:
  assumes inv: "caps_inv k" and ob: "obtain_cap (i, t) dst (k_cap k (j, t) s) k = Inr (r, k')"
  shows "caps_inv k'"
proof (cases "k_cap k (j, t) s")
  case None
  then show ?thesis using inv ob by (simp add: obtain_cap_def)
next
  case (Some c)
  then obtain n k1 where cl: "cap_clone c (i, t) dst k = Inr (n, k1)"
      "(case n of None \<Rightarrow> Inr (None, k1)
        | Some nc \<Rightarrow> rbind (inherit_and_set c nc (i, t) dst k1) (\<lambda>(nc, k). Inr (Some nc, k))) = Inr (r, k')"
    using ob by (auto simp: obtain_cap_def rbind_eq_Inr)
  show ?thesis
  proof (cases n)
    case None
    then have "k1 = k" using cl(1)
      by (auto simp: cap_clone_def rbind_eq_Inr Let_def split: cap_kind.splits prod.splits)
    then show ?thesis using None cl(2) inv by simp
  next
    case (Some nc)
    then obtain nc' where "inherit_and_set c nc (i, t) dst k1 = Inr (nc', k')"
      using cl(2) by (auto simp: rbind_eq_Inr)
    moreover have "made k nc k1" using made_clone [OF inv \<open>k_cap k (j, t) s = Some c\<close>] cl(1) Some by simp
    ultimately show ?thesis by (rule made_inherit_and_set [OF inv, rotated])
  qed
qed

section \<open>Changes of a capability in its slot\<close>

lemma caps_inv_mod_kind:
  assumes inv: "caps_inv k"
    and f: "\<And>c. k_cap k tbl sel = Some c \<Longrightarrow> c_tbl (f c) = c_tbl c \<and> c_sel (f c) = c_sel c \<and> c_type (f c) = c_type c \<and>
      c_id (f c) = c_id c \<and> c_ptr (f c) = c_ptr c \<and> kind_type (c_kind (f c)) = kind_type (c_kind c) \<and>
      kind_item (c_kind (f c)) = kind_item (c_kind c) \<and> kind_obj (c_kind (f c)) = kind_obj (c_kind c)"
  shows "caps_inv (mod_cap tbl sel f k)"
proof -
  have refs: "refs_to (mod_cap tbl sel f k) p = refs_to k p" for p
    unfolding refs_to_def using f by (auto split: if_splits)
  have vp: "k_vpes (mod_cap tbl sel f k) j = None \<longleftrightarrow> k_vpes k j = None" for j
    unfolding mod_cap_def by (rule k_vpes_mod_table_None)
  have wf: "cap_wf tbl sel (f c) = cap_wf tbl sel c" if "k_cap k tbl sel = Some c" for c
    using f [OF that] by (simp add: cap_wf_def cap_key_def)
  show ?thesis
    using inv wf f unfolding caps_inv_def refs vp
    by (auto split: if_splits)
qed

lemma caps_inv_set_localepid: "caps_inv k \<Longrightarrow> caps_inv (mod_cap tbl sel (set_localepid ep) k)"
  by (rule caps_inv_mod_kind) (auto simp: set_localepid_def split: cap_kind.splits)

lemma caps_inv_remap:
  assumes inv: "caps_inv k" and c: "k_cap k tbl sel = Some c" and rm: "remap c attr k = Inr k'"
  shows "caps_inv k'"
proof -
  have wf: "c_tbl c = tbl" "c_sel c = sel" using caps_inv_wf [OF inv c] by (simp_all add: cap_wf_def)
  show ?thesis
  proof (cases "c_kind c")
    case (MapCap ph at)
    then obtain v where v: "pe_vpe k (fst tbl) = Inr v"
      using rm wf by (cases "pe_vpe k (fst tbl)") (simp_all add: remap_def)
    have k': "k' = emit (Ev_dtu (DTU_map_page (v_id v) (map_addr sel) ph attr)) (mod_cap tbl sel (\<lambda>c. c\<lparr>c_kind := MapCap ph attr\<rparr>) k)"
      using rm wf v MapCap by (simp add: remap_def)
    have "caps_inv (mod_cap tbl sel (\<lambda>c. c\<lparr>c_kind := MapCap ph attr\<rparr>) k)"
      by (rule caps_inv_mod_kind [OF inv]) (use c MapCap in auto)
    then show ?thesis unfolding k' by (rule caps_inv_same [rotated]) simp
  qed (use rm in \<open>simp_all add: remap_def\<close>)
qed

lemma caps_inv_activate:
  assumes inv: "caps_inv k" and act: "do_activate i ep oc nc k = Inr k'"
  shows "caps_inv k'"
proof -
  obtain k1 where k1: "xchg_ep i ep nc k = Inr k1"
      "k' = (let k = (case oc of None \<Rightarrow> k1 | Some c \<Rightarrow> mod_cap (c_tbl c) (c_sel c) (set_localepid (-1)) k1)
        in (case nc of None \<Rightarrow> k | Some c \<Rightarrow> mod_cap (c_tbl c) (c_sel c) (set_localepid (get_int ep)) k))"
    using act by (auto simp: do_activate_def rbind_eq_Inr Let_def)
  have "same_caps k k1"
  proof (cases nc)
    case (Some c)
    then show ?thesis using k1(1) by (cases "cap_obj k c"; cases "c_type c AND CAP_MEM = 0") (auto simp: xchg_ep_def)
  qed (use k1(1) in \<open>auto simp: xchg_ep_def\<close>)
  then have "caps_inv k1" using inv by (rule caps_inv_same)
  then show ?thesis unfolding k1(2)
    by (cases oc; cases nc) (simp_all add: caps_inv_set_localepid)
qed

lemma remove_one:
  assumes "finite S" "x \<in> S"
  shows "card (S - {x}) = card S - 1 \<and> (card S \<noteq> 1 \<longrightarrow> S - {x} \<noteq> {})"
  using assms by (metis card_Diff_singleton card_1_singleton_iff insert_Diff One_nat_def)

text \<open>A capability changes over from its object to a new one.\<close>

lemma caps_inv_new_object:
  assumes inv: "caps_inv k" and c: "k_cap k tbl sel = Some c" "kind_obj (c_kind c) = Some old"
    and new: "new_obj ob k = (q, k1)"
    and unref: "obj_unref old (mod_cap tbl sel (set_cap_obj q) k1) = Inr k2"
  shows "caps_inv k2"
proof -
  have q: "q = k_next k" "k1 = k\<lparr>k_next := k_next k + 1, k_objs := (k_objs k)(k_next k \<mapsto> ob\<lparr>mo_refs := 1\<rparr>)\<rparr>"
    using new by (auto simp: new_obj_def)
  have inv': "tables_ok k" "\<And>j. k_vpes k j \<noteq> None \<Longrightarrow> j < MAX_PES"
    "\<And>tbl sel c. k_cap k tbl sel = Some c \<Longrightarrow> cap_wf tbl sel c \<and> c_ptr c < k_next k"
    "\<And>p. finite (refs_to k p)" "\<And>p. card (refs_to k p) = (case k_objs k p of None \<Rightarrow> 0 | Some ob \<Rightarrow> mo_refs ob)"
    "\<And>p. k_objs k p \<noteq> None \<Longrightarrow> refs_to k p \<noteq> {} \<and> p < k_next k"
    using inv unfolding caps_inv_def by blast+
  have in_old: "(tbl, sel) \<in> refs_to k old" using c by (simp add: refs_to_def)
  then have "card (refs_to k old) \<noteq> 0" using inv'(4) by auto
  then obtain oo where oo: "k_objs k old = Some oo" "mo_refs oo = card (refs_to k old)"
    using inv'(5) [of old] by (auto split: option.splits)
  have lt: "old < k_next k" using inv'(6) [of old] oo by simp
  have nq: "k_objs k q = None" using caps_inv_objs_fresh [OF inv] q(1) by simp
  then have eq: "refs_to k q = {}" using inv'(4,5) [of q] by simp
  let ?k = "mod_cap tbl sel (set_cap_obj q) k1"
  have k2: "k2 = ?k\<lparr>k_objs := (k_objs k1)(old := if mo_refs oo = 1 then None else Some (oo\<lparr>mo_refs := mo_refs oo - 1\<rparr>))\<rparr>"
    using unref q oo lt by (simp add: obj_unref_def)
  have f: "c_tbl (set_cap_obj q c) = c_tbl c" "c_sel (set_cap_obj q c) = c_sel c" "c_type (set_cap_obj q c) = c_type c"
      "c_id (set_cap_obj q c) = c_id c" "c_ptr (set_cap_obj q c) = c_ptr c"
      "kind_type (c_kind (set_cap_obj q c)) = kind_type (c_kind c)" "kind_item (c_kind (set_cap_obj q c)) = kind_item (c_kind c)" for c
    by (auto simp: set_cap_obj_def split: cap_kind.splits)
  have fo: "kind_obj (c_kind (set_cap_obj q c)) = Some q" using c(2) by (auto simp: set_cap_obj_def split: cap_kind.splits)
  have cap: "k_cap k2 tb s = (if tb = tbl \<and> s = sel then Some (set_cap_obj q c) else k_cap k tb s)" for tb s
    unfolding k2 by (simp add: c q k_cap_cong [of k1 k])
  have refs: "refs_to k2 p = (if p = q then {(tbl, sel)} else refs_to k p - {(tbl, sel)} \<inter> {x. p = old})" for p
    using c eq fo unfolding refs_to_def by (auto simp: cap split: if_splits)
  have vp: "k_vpes k2 j = None \<longleftrightarrow> k_vpes k j = None" for j
    using k_vpes_mod_table_None [of tbl _ k1 j] by (simp add: k2 mod_cap_def q)
  have objs: "k_objs k2 p = (if p = q then Some (ob\<lparr>mo_refs := 1\<rparr>) else if p = old then (if mo_refs oo = 1 then None else Some (oo\<lparr>mo_refs := mo_refs oo - 1\<rparr>)) else k_objs k p)" for p
    using lt by (auto simp: k2 q)
  have nx: "k_next k2 = k_next k + 1" by (simp add: k2 q)
  have t2: "tables_ok k2" using inv'(1) by (simp add: k2 q)
  have wf: "cap_wf tb s c' \<and> c_ptr c' < k_next k2" if "k_cap k2 tb s = Some c'" for tb s c'
    using that inv'(3) [of tb s] c(1) nx by (auto simp: cap cap_wf_def cap_key_def f split: if_splits)
  have obs: "finite (refs_to k2 p) \<and> card (refs_to k2 p) = (case k_objs k2 p of None \<Rightarrow> 0 | Some ob \<Rightarrow> mo_refs ob) \<and>
      (k_objs k2 p \<noteq> None \<longrightarrow> refs_to k2 p \<noteq> {} \<and> p < k_next k2)" for p
  proof (cases "p = q")
    case True
    then show ?thesis by (simp add: refs objs nx q(1))
  next
    case False
    show ?thesis
    proof (cases "p = old")
      case True
      then show ?thesis using False lt nx inv'(4) [of old] remove_one [OF inv'(4) in_old] oo(2) by (simp add: refs objs)
    next
      case False
      then show ?thesis using \<open>p \<noteq> q\<close> inv'(4,5,6) [of p] by (simp add: refs objs nx) force
    qed
  qed
  show ?thesis unfolding caps_inv_def
  proof (intro conjI allI impI)
    show "j < MAX_PES" if "k_vpes k2 j \<noteq> None" for j using that vp inv'(2) by simp
    fix p
    show "finite (refs_to k2 p)" "card (refs_to k2 p) = (case k_objs k2 p of None \<Rightarrow> 0 | Some ob \<Rightarrow> mo_refs ob)"
      using obs [of p] by simp_all
    assume "k_objs k2 p \<noteq> None"
    then show "refs_to k2 p \<noteq> {}" "p < k_next k2" using obs [of p] by simp_all
  qed (use t2 wf in simp_all)
qed

lemma obtain_cap_slot:
  assumes inv: "caps_inv k" and c: "k_cap k (j, t) s = Some c" and ob: "obtain_cap (i, t) dst (Some c) k = Inr (Some nc, k')"
  shows "\<exists>c'. k_cap k' (i, t) dst = Some c' \<and> c_kind c' = c_kind nc"
proof -
  obtain n k1 where cl: "cap_clone c (i, t) dst k = Inr (Some n, k1)" "inherit_and_set c n (i, t) dst k1 = Inr (nc, k')"
    using ob by (auto simp: obtain_cap_def rbind_eq_Inr split: option.splits)
  obtain k3 where k3: "table_set (i, t) dst (n\<lparr>c_parent := c_id c\<rparr>) k1 = Inr (nc, k3)"
      "k' = (if keyLocality (k_mht k3) (c_id c) then mod_cap (c_tbl c) (c_sel c) (addChild (k_mht k3) (c_id nc)) k3 else k3)"
    using cl(2) by (auto simp: inherit_and_set_def rbind_eq_Inr)
  have "k_cap k3 (i, t) dst = Some nc"
    using made_table_set [OF inv _ k3(1)] made_clone [OF inv c cl(1)] by simp
  then show ?thesis by (auto simp: k3(2))
qed

section \<open>Loops\<close>

lemma caps_inv_create_maps:
  "caps_inv k \<Longrightarrow> create_maps mc (j, MAP) dst perms js phys k = Inr k' \<Longrightarrow> caps_inv k'"
proof (induction js arbitrary: phys k)
  case (Cons s js)
  obtain k1 where k1: "(case cap_get k (j, MAP) (dst + s) CAP_MAP of
        None \<Rightarrow> rbind (new_MapCapability (j, MAP) (dst + s) phys perms k) (\<lambda>(c, k).
          rbind (inherit_and_set mc c (j, MAP) (dst + s) k) (\<lambda>(_, k). Inr k))
      | Some mapcap \<Rightarrow> remap mapcap perms k) = Inr k1"
      "create_maps mc (j, MAP) dst perms js (phys + PAGE_SIZE) k1 = Inr k'"
    using Cons.prems(2) by (auto simp: rbind_eq_Inr)
  have "caps_inv k1"
  proof (cases "cap_get k (j, MAP) (dst + s) CAP_MAP")
    case None
    then show ?thesis using k1(1) made_inherit_and_set [OF Cons.prems(1) made_map [OF Cons.prems(1)]]
      by (auto simp: rbind_eq_Inr)
  next
    case (Some c)
    then have "k_cap k (j, MAP) (dst + s) = Some c" by (auto simp: cap_get_def split: option.splits if_splits)
    then show ?thesis using caps_inv_remap [OF Cons.prems(1)] k1(1) Some by auto
  qed
  then show ?case using Cons.IH k1(2) by blast
qed simp

lemma caps_inv_map_pages: "caps_inv k \<Longrightarrow> map_pages (j, MAP) dst perms js phys k = Inr k' \<Longrightarrow> caps_inv k'"
proof (induction js arbitrary: phys k)
  case (Cons s js)
  then obtain c k1 c' k2 where "new_MapCapability (j, MAP) (dst + s) phys perms k = Inr (c, k1)"
      "table_set (j, MAP) (dst + s) c k1 = Inr (c', k2)" "map_pages (j, MAP) dst perms js (phys + PAGE_SIZE) k2 = Inr k'"
    by (auto simp: rbind_eq_Inr)
  then show ?case using made_table_set [OF Cons.prems(1) made_map [OF Cons.prems(1)]] Cons.IH by blast
qed simp

lemma caps_inv_exchange_caps:
  "caps_inv k \<Longrightarrow> exchange_caps (i, t) (j, t) src dst js k = Inr k' \<Longrightarrow> caps_inv k'"
proof (induction js arbitrary: k)
  case (Cons s js)
  then obtain r k1 where "obtain_cap (j, t) (dst + s) (k_cap k (i, t) (src + s)) k = Inr (r, k1)"
      "exchange_caps (i, t) (j, t) src dst js k1 = Inr k'"
    by (auto simp: rbind_eq_Inr split: if_splits)
  then show ?case using caps_inv_obtain [OF Cons.prems(1)] Cons.IH by blast
qed simp

lemma caps_inv_do_exchange: "caps_inv k \<Longrightarrow> do_exchange v1 v2 c1 c2 obt k = Inr (e, k') \<Longrightarrow> caps_inv k'"
  by (auto simp: do_exchange_def Let_def rbind_eq_Inr split: if_splits intro: caps_inv_exchange_caps)

lemma caps_inv_waiters_attached: "caps_inv k \<Longrightarrow> waiters_attached ws k = Inr k' \<Longrightarrow> caps_inv k'"
proof (induction ws arbitrary: k)
  case (Cons w ws)
  obtain k1 where w: "waiters_attached ws k1 = Inr k'" "caps_inv k1"
  proof (cases w)
    case (RB_activate i epid oldc newc rinfo)
    then obtain oc nc k2 k1 where "do_activate i (word_of_nat epid) oc nc k = Inr k2" "reply_to_vpe i rinfo NO_ERROR [] k2 = Inr k1"
        "waiters_attached ws k1 = Inr k'"
      using Cons.prems(2) by (auto simp: rbind_eq_Inr split: option.splits)
    then show ?thesis
      using that caps_inv_same [OF same_caps_reply_to] caps_inv_activate [OF Cons.prems(1)] by blast
  next
    case (RB_remote dst tid)
    then obtain k1 where "krnl_call dst (KC_RECVBUFATTACHED tid NO_ERROR) k = Inr k1" "waiters_attached ws k1 = Inr k'"
      using Cons.prems(2) by (auto simp: rbind_eq_Inr)
    then show ?thesis using that caps_inv_same [OF same_caps_krnl_call Cons.prems(1)] by blast
  qed
  show ?case by (rule Cons.IH [OF w(2,1)])
qed simp

lemma caps_inv_attach:
  assumes "caps_inv k" "attach_rbuf v ep addr ord mord flags k = Inr (e, k')"
  shows "caps_inv k'"
proof -
  obtain cfgs ws rbs where w: "waiters_attached ws (emit_all (map (\<lambda>c. Ev_dtu (DTU_config_recv (v_id v) c)) cfgs) (k\<lparr>k_rbufs := rbs\<rparr>)) = Inr k'"
    using assms(2) by (auto simp: attach_rbuf_def rbind_eq_Inr)
  show ?thesis by (rule caps_inv_waiters_attached [OF _ w]) (rule caps_inv_same [OF _ assms(1)], simp)
qed

section \<open>Starting and creating VPEs\<close>

lemma caps_inv_emit [simp]: "caps_inv k \<Longrightarrow> caps_inv (emit e k)"
  by (rule caps_inv_same [of k]) simp_all

lemma caps_inv_alloc_mem: "caps_inv k \<Longrightarrow> alloc_mem sz k = Inr (a, k') \<Longrightarrow> caps_inv k'"
  by (rule caps_inv_same [OF same_caps_alloc_mem])

lemma caps_inv_map_segment: "caps_inv k \<Longrightarrow> map_segment v ph virt sz pm k = Inr k' \<Longrightarrow> caps_inv k'"
  by (auto simp: map_segment_def rbind_eq_Inr Let_def split: if_splits intro: caps_inv_map_pages)

lemma caps_inv_load_segment:
  assumes "caps_inv k" "load_segment v md cp ph k = Inr (e, k')"
  shows "caps_inv k'"
  using assms unfolding load_segment_def Let_def
  by (auto simp: rbind_eq_Inr split: if_splits intro!: caps_inv_emit dest!: caps_inv_alloc_mem [OF assms(1)] dest: caps_inv_map_segment)

lemma caps_inv_load_segments: "caps_inv k \<Longrightarrow> load_segments v md cp phs off e k = Inr (e', k') \<Longrightarrow> caps_inv k'"
proof (induction phs arbitrary: off e k)
  case (Cons ph phs)
  show ?case
  proof (cases "p_type ph \<noteq> PT_LOAD \<or> p_memsz ph = 0")
    case True
    then show ?thesis using Cons by (auto simp: rbind_eq_Inr)
  next
    case False
    then obtain e1 k1 where "load_segment v md cp ph k = Inr (e1, k1)"
        "load_segments v md cp phs (off + bm_phentsize md) e1 k1 = Inr (e', k')"
      using Cons.prems(2) by (auto simp: rbind_eq_Inr)
    then show ?thesis using Cons.IH caps_inv_load_segment [OF Cons.prems(1)] by blast
  qed
qed simp

lemma caps_inv_load_mod:
  assumes "caps_inv k" "load_mod v md cp hp k = Inr (e, k')"
  shows "caps_inv k'"
proof -
  obtain e1 k1 where k1: "load_segments v md cp (bm_phs md) (bm_phoff md) 0 k = Inr (e1, k1)"
      "(if hp then rbind (alloc_mem MOD_HEAP_SIZE k1) (\<lambda>(phys, k).
          map_segment v phys (round_up e1 PAGE_SIZE) MOD_HEAP_SIZE PTE_RW k) else Inr k1) = Inr k'"
    using assms(2) by (auto simp: load_mod_def rbind_eq_Inr split: if_splits)
  have "caps_inv k1" by (rule caps_inv_load_segments [OF assms(1) k1(1)])
  then show ?thesis using k1(2)
    by (auto simp: rbind_eq_Inr split: if_splits dest: caps_inv_alloc_mem caps_inv_map_segment)
qed

lemma caps_inv_map_idle:
  assumes "caps_inv k" "map_idle v k = Inr k'"
  shows "caps_inv k'"
proof -
  obtain idle k1 e where k1: "load_mod v idle False False k1 = Inr (e, k')" "caps_inv k1"
  proof (cases "k_idles k (v_core v)")
    case None
    then obtain tmp b k2 phys k3 idle e where k2: "get_mod ''idle'' k = (Some (tmp, b), k2)"
        "alloc_mem (round_up (bm_size tmp) PAGE_SIZE) k2 = Inr (phys, k3)"
        "load_mod v idle False False ((emit (Ev_dtu (DTU_copy (unat (noc_to_pe phys)) phys (bm_addr tmp) (bm_size tmp) False)) k3)
           \<lparr>k_idles := (k_idles k3)(v_core v \<mapsto> idle)\<rparr>) = Inr (e, k')"
      using assms(2) by (auto simp: map_idle_def rbind_eq_Inr Let_def split: prod.splits option.splits)
    have "caps_inv k3"
      using caps_inv_same [OF same_caps_get_mod [OF k2(1)] assms(1)] caps_inv_alloc_mem k2(2) by blast
    then show ?thesis using that [OF k2(3)] caps_inv_same [where k = k3] by simp
  next
    case (Some idle)
    then show ?thesis using that assms by (auto simp: map_idle_def rbind_eq_Inr)
  qed
  show ?thesis by (rule caps_inv_load_mod [OF k1(2,1)])
qed

lemma caps_inv_load_boot_module:
  assumes "caps_inv k" "load_boot_module v vm argc argv k = Inr k'"
  shows "caps_inv k'"
proof -
  obtain md first k1 where k1: "get_mod argv k = (Some (md, first), k1)"
    using assms(2) by (cases "get_mod argv k"; cases "fst (get_mod argv k)") (auto simp: load_boot_module_def)
  have inv1: "caps_inv k1" by (rule caps_inv_same [OF same_caps_get_mod [OF k1(1)] assms(1)])
  show ?thesis using assms(2) k1 inv1 unfolding load_boot_module_def
    by (auto simp: rbind_eq_Inr split: if_splits option.splits
        dest!: caps_inv_alloc_mem [rotated] caps_inv_map_segment [rotated] caps_inv_load_mod [rotated])
qed

lemma caps_inv_init_memory:
  assumes "caps_inv k" "init_memory i argc argv k = Inr k'"
  shows "caps_inv k'"
proof -
  have "caps_inv (mod_vpe i (\<lambda>v. v\<lparr>v_flags := v_flags v OR VPE_MEMINIT\<rparr>) k)"
    by (rule caps_inv_same [OF same_caps_mod_vpe assms(1)]) simp_all
  then show ?thesis using assms unfolding init_memory_def Let_def
    by (auto simp: rbind_eq_Inr split: if_splits
        dest!: caps_inv_alloc_mem [rotated] caps_inv_map_segment [rotated] caps_inv_load_boot_module [rotated]
          caps_inv_map_idle [rotated])
qed

lemma caps_inv_vpe_start:
  assumes "caps_inv k" "vpe_start i argc argv k = Inr k'"
  shows "caps_inv k'"
proof -
  obtain k1 k2 where k1: "vpe_ref (Some i) k = Inr k1" "init_memory i argc argv k1 = Inr k2"
      "k' = mod_vpe i (\<lambda>v. v\<lparr>v_state := RUNNING\<rparr>) (emit (Ev_dtu (DTU_wakeup i)) k2)"
    using assms(2) by (auto simp: vpe_start_def rbind_eq_Inr)
  have "caps_inv k2" using caps_inv_init_memory [OF caps_inv_same [OF same_caps_vpe_ref [OF k1(1)] assms(1)] k1(2)] .
  then show ?thesis unfolding k1(3) by (intro caps_inv_same [OF same_caps_mod_vpe] caps_inv_emit) simp_all
qed

lemma caps_inv_start_pass: "caps_inv k \<Longrightarrow> start_pass P ps k = Inr (rs, k') \<Longrightarrow> caps_inv k'"
proof (induction P ps k arbitrary: rs rule: start_pass.induct)
  case (2 P i argc argv ps k)
  show ?case
  proof (cases "\<exists>v. k_vpes k i = Some v \<and> list_all (service_known k) (v_requires v) \<and> P v")
    case True
    then obtain v k1 where "k_vpes k i = Some v" "list_all (service_known k) (v_requires v) \<and> P v"
        "vpe_start i argc argv k = Inr k1" "start_pass P ps k1 = Inr (rs, k')"
      using "2.prems"(2) by (auto simp: rbind_eq_Inr)
    then show ?thesis using "2.IH"(1) caps_inv_vpe_start [OF "2.prems"(1)] by blast
  next
    case False
    then obtain v rest where "k_vpes k i = Some v" "\<not> (list_all (service_known k) (v_requires v) \<and> P v)"
        "start_pass P ps k = Inr (rest, k')"
      using "2.prems"(2) by (auto simp: rbind_eq_Inr split: option.splits if_splits)
    then show ?thesis using "2.IH"(2) "2.prems"(1) by blast
  qed
qed simp

lemma same_caps_start_sign: "start_sign k = Inr (b, k') \<Longrightarrow> same_caps k k'"
  by (auto simp: start_sign_def Let_def rbind_eq_Inr broadcastStartApps_def broadcast_def krnl_call_def split: if_splits)

lemma caps_inv_start_pending:
  assumes "caps_inv k" "start_pending k = Inr k'"
  shows "caps_inv k'"
proof -
  obtain ps k1 go k2 where k1: "start_pass (\<lambda>v. contains (v_name v) ''srvtrace'') (k_pending k) k = Inr (ps, k1)"
      "start_sign (k1\<lparr>k_pending := ps\<rparr>) = Inr (go, k2)"
      "(if \<not> go \<or> co_startSignsAwaited (k_coord k2) \<noteq> 0 then Inr k2
        else rbind (start_pass (\<lambda>_. True) (k_pending k2) k2) (\<lambda>(ps, k). Inr (k\<lparr>k_pending := ps\<rparr>))) = Inr k'"
    using assms(2) unfolding start_pending_def by (auto simp: rbind_eq_Inr)
  have "caps_inv (k1\<lparr>k_pending := ps\<rparr>)" by (rule caps_inv_same [OF _ caps_inv_start_pass [OF assms(1) k1(1)]]) simp
  then have k2: "caps_inv k2" by (rule caps_inv_same [OF same_caps_start_sign [OF k1(2)]])
  have pend: "caps_inv (k3\<lparr>k_pending := qs\<rparr>)" if "caps_inv k3" for k3 qs
    by (rule caps_inv_same [OF _ that]) simp
  show ?thesis using k1(3) k2 by (auto simp: rbind_eq_Inr split: if_splits intro!: pend dest!: caps_inv_start_pass [rotated])
qed

text \<open>A new VPE.\<close>

lemma VPE_new_fields [simp]:
  "v_id (VPE_new prog i bootmod syscEP as) = i" "v_table t (VPE_new prog i bootmod syscEP as) = ct_new i t"
  by (cases t; simp add: VPE_new_def v_table_def)+

lemma caps_inv_set_vpe:
  assumes inv: "caps_inv k" and new: "k_vpes k i = None" "i < MAX_PES"
  shows "caps_inv (set_vpe (VPE_new prog i bootmod syscEP as) k)"
proof -
  let ?k = "set_vpe (VPE_new prog i bootmod syscEP as) k"
  have v: "k_vpes ?k = (k_vpes k)(i \<mapsto> VPE_new prog i bootmod syscEP as)" by (simp add: set_vpe_def)
  have fields: "k_objs ?k = k_objs k" "k_next ?k = k_next k" by (simp_all add: set_vpe_def)
  have "k_cap ?k tbl sel = k_cap k tbl sel" for tbl sel
    using new(1) by (auto simp: k_cap_def v ct_new_def)
  then have cap: "k_cap ?k = k_cap k" by (simp add: fun_eq_iff)
  have "tables_ok ?k" using inv
    by (auto simp: caps_inv_def tables_ok_def v ct_new_def)
  then show ?thesis using inv new(2) unfolding caps_inv_def refs_to_same [OF cap] cap fields v
    by (metis fun_upd_apply)
qed

lemma caps_inv_new_VPE:
  assumes inv: "caps_inv k" and new: "k_vpes k i = None" "i < MAX_PES"
    and nv: "new_VPE prog i bootmod syscEP ep gate k = Inr k'"
  shows "caps_inv k'"
proof -
  obtain as k0 where k0: "same_caps k k0" "k_vpes k0 = k_vpes k"
      "rbind (new_VPECapability (i, OBJ) 0 (VPE_new prog i bootmod syscEP as) (set_vpe (VPE_new prog i bootmod syscEP as) k0)) (\<lambda>(c, k).
        rbind (table_set (i, OBJ) 0 c k) (\<lambda>(_, k).
          rbind (new_MemCapability (i, OBJ) 1 0 MEMCAP_END PERM_RWX (int i) (int i) 0 (vpe_key (VPE_new prog i bootmod syscEP as) MEMOBJ 0) k) (\<lambda>(c, k).
            rbind (table_set (i, OBJ) 1 c k) (\<lambda>(_, k). vpe_init (VPE_new prog i bootmod syscEP as) k)))) = Inr k'"
  proof (cases "pe_by_core (k_env k) i")
    case (Inr d)
    show ?thesis
    proof (cases "pe_has_virtmem d")
      case True
      let ?k = "emit (Ev_dtu (DTU_set_vpeid i)) k"
      show ?thesis by (rule that [of "snd (new_AddrSpace ep gate ?k)" "Some (fst (new_AddrSpace ep gate ?k))"])
          (use nv Inr True in \<open>simp_all add: new_VPE_def new_AddrSpace_def Let_def case_prod_unfold\<close>)
    next
      case False
      show ?thesis by (rule that [of "emit (Ev_dtu (DTU_set_vpeid i)) k" None])
          (use nv Inr False in \<open>simp_all add: new_VPE_def Let_def\<close>)
    qed
  qed (use nv in \<open>simp add: new_VPE_def\<close>)
  let ?v = "VPE_new prog i bootmod syscEP as"
  obtain c k2 c' k3 d k4 d' k5 where s: "new_VPECapability (i, OBJ) 0 ?v (set_vpe ?v k0) = Inr (c, k2)"
      "table_set (i, OBJ) 0 c k2 = Inr (c', k3)"
      "new_MemCapability (i, OBJ) 1 0 MEMCAP_END PERM_RWX (int i) (int i) 0 (vpe_key ?v MEMOBJ 0) k3 = Inr (d, k4)"
      "table_set (i, OBJ) 1 d k4 = Inr (d', k5)" "vpe_init ?v k5 = Inr k'"
    using k0(3) by (auto simp: rbind_eq_Inr)
  have "caps_inv (set_vpe ?v k0)"
    using caps_inv_set_vpe [OF caps_inv_same [OF k0(1) inv]] new k0(2) by simp
  then have "caps_inv k3" using made_table_set [OF _ made_vpe s(2)] s(1) by blast
  then have "caps_inv k5" using made_table_set [OF _ made_mem s(4)] s(3) by blast
  then show ?thesis using s(5) unfolding vpe_init_def
    by (auto simp: rbind_eq_Inr split: if_splits dest!: caps_inv_attach [rotated])
qed

lemma first_free_usable:
  "first_free k P is = Inr i \<Longrightarrow> i \<noteq> MAX_PES \<Longrightarrow> \<exists>d. usable_core k P d \<and> core_id d = i"
  by (induction "is") (auto simp: rbind_eq_Inr split: if_splits)

lemma caps_inv_pe_create:
  assumes inv: "caps_inv k" and cr: "pe_create name pe ep gate k = Inr (r, k')"
  shows "caps_inv k'"
proof -
  obtain i where i: "free_core pe k = Inr i" using cr by (cases "free_core pe k") (auto simp: pe_create_def)
  show ?thesis
  proof (cases "r = None")
    case True
    then show ?thesis using cr i inv by (auto simp: pe_create_def rbind_eq_Inr Let_def split: if_splits prod.splits)
  next
    case False
    then obtain e k1 k2 s where k1: "i \<noteq> MAX_PES" "reserve_ep (int i) k = (e, k1)" "new_VPE name i False s ep gate k1 = Inr k2"
        "k' = k2\<lparr>k_count := k_count k2 + 1\<rparr>"
      using cr i by (auto simp: pe_create_def rbind_eq_Inr Let_def split: if_splits prod.splits)
    have "k_vpes k i = None" "i < MAX_PES"
      using first_free_usable [OF i [unfolded free_core_def] k1(1)] core_id_less by (auto simp: usable_core_def)
    moreover have "same_caps k k1" "k_vpes k1 = k_vpes k"
      using k1(2) by (auto simp: reserve_ep_def split: option.splits prod.splits)
    ultimately have "caps_inv k2" using caps_inv_new_VPE [OF caps_inv_same [OF _ inv] _ _ k1(3)] by simp
    then show ?thesis unfolding k1(4) by (rule caps_inv_same [rotated]) simp
  qed
qed

section \<open>System calls\<close>

lemma caps_inv_sys_reply: "sys_reply i e s k = Inr (out, k') \<Longrightarrow> caps_inv k \<Longrightarrow> caps_inv k'"
  by (auto simp: sys_reply_def)

lemma caps_inv_with_vpe_cap:
  assumes "with_vpe_cap i tcap f k = Inr (out, k')" "caps_inv k" "\<And>c. f c = Inr (out, k') \<Longrightarrow> caps_inv k'"
  shows "caps_inv k'"
  using assms by (auto simp: with_vpe_cap_def split: option.splits dest: caps_inv_sys_reply)

lemma caps_inv_mem: "caps_inv k \<Longrightarrow> caps_inv (k\<lparr>k_mem := m\<rparr>)" "caps_inv k \<Longrightarrow> caps_inv (k\<lparr>k_rbufs := r\<rparr>)"
  by (erule caps_inv_same [rotated], simp)+

lemma cap_get_cap: "cap_get k tbl sel ty = Some c \<Longrightarrow> k_cap k tbl sel = Some c"
  by (auto simp: cap_get_def split: option.splits if_splits)

lemma keep_createsess:
  assumes "sys_createsess i rinfo tvpe cap name args k = Inr (out, k')" "caps_inv k"
  shows "caps_inv k'"
proof -
  have "same_caps k k'"
    using assms(1) unfolding sys_createsess_def sys_createsess_remote_def with_vpe_cap_def Let_def
    by (auto simp: rbind_eq_Inr sys_reply_def lift_def krnl_call_def broadcastCreateSess_def broadcast_def
        split: option.splits if_splits prod.splits dest: same_caps_srv_send)
  then show ?thesis using assms(2) by (rule caps_inv_same)
qed

lemma caps_inv_new_service:
  assumes "rbind (new_ServiceCapability (i, OBJ) srv q key k) (\<lambda>(c, k). rbind (table_set (i, OBJ) srv c k) (\<lambda>(_, k).
      rbind (start_pending (if P then k else snd (broadcastAnnounceSrv name sid k))) (sys_reply i NO_ERROR []))) = Inr (out, k')"
    and inv: "caps_inv k"
  shows "caps_inv k'"
proof -
  obtain c k1 c' k2 k3 where k1: "new_ServiceCapability (i, OBJ) srv q key k = Inr (c, k1)"
      "table_set (i, OBJ) srv c k1 = Inr (c', k2)"
      "start_pending (if P then k2 else snd (broadcastAnnounceSrv name sid k2)) = Inr k3"
      "sys_reply i NO_ERROR [] k3 = Inr (out, k')"
    using assms(1) by (auto simp: rbind_eq_Inr)
  have "caps_inv k2" using made_table_set [OF inv made_service [OF inv k1(1)] k1(2)] by blast
  then have "caps_inv (if P then k2 else snd (broadcastAnnounceSrv name sid k2))"
    by (rule caps_inv_same [rotated]) (simp add: broadcastAnnounceSrv_def broadcast_def)
  from caps_inv_start_pending [OF this k1(3)] show ?thesis by (rule caps_inv_sys_reply [OF k1(4)])
qed

lemma keep_createsrv:
  assumes "sys_createsrv i gate srv name k = Inr (out, k')" "caps_inv k"
  shows "caps_inv k'"
proof (cases "\<exists>e. sys_reply i e [] k = Inr (out, k')")
  case True
  then show ?thesis using assms(2) by (auto dest: caps_inv_sys_reply)
next
  case False
  then obtain v c where vc: "the_vpe k i = Inr v" "cap_get k (i, OBJ) gate CAP_MSG = Some c" "name \<noteq> []"
      "services_find k name = None"
    using assms(1) by (cases "the_vpe k i") (auto simp: sys_createsrv_def split: option.splits if_splits)
  then obtain ob where ob: "cap_obj k c = Inr ob"
    using assms(1) by (cases "cap_obj k c") (auto simp: sys_createsrv_def)
  obtain s k1 where s: "services_add i srv name (mo_epid ob) (mo_label ob) MAX_KRNL_MSGS (vpe_key v SERVICE srv) k = (s, k1)"
    by fastforce
  have "same_caps k k1" using s by (auto simp: services_add_def fresh_def Let_def)
  then have "caps_inv k1" using assms(2) by (rule caps_inv_same)
  moreover have "rbind (new_ServiceCapability (i, OBJ) srv (sv_ptr s) (vpe_key v SRVCAP srv) k1) (\<lambda>(c, k). rbind (table_set (i, OBJ) srv c k) (\<lambda>(_, k).
      rbind (start_pending (if contains name ''pipe'' then k else snd (broadcastAnnounceSrv name (sv_id s) k))) (sys_reply i NO_ERROR []))) = Inr (out, k')"
    using assms(1) vc ob s by (simp add: sys_createsrv_def Let_def)
  ultimately show ?thesis by (rule caps_inv_new_service [rotated])
qed

lemma keep_createsessat: "sys_createsessat i srvcap sess ident k = Inr (out, k') \<Longrightarrow> caps_inv k \<Longrightarrow> caps_inv k'"
  by (auto simp: sys_createsessat_def rbind_eq_Inr split: if_splits option.splits cap_kind.splits
      dest!: caps_inv_sys_reply made_session [rotated] made_table_set [rotated 2])

lemma keep_creategate:
  assumes "sys_creategate i tcap dst label ep crd k = Inr (out, k')" "caps_inv k"
  shows "caps_inv k'"
  using assms unfolding sys_creategate_def
  by (auto simp: rbind_eq_Inr Let_def case_prod_unfold split: if_splits elim!: caps_inv_with_vpe_cap
      dest!: caps_inv_sys_reply made_table_set [rotated 2] intro: made_gate [OF _ prod.collapse [symmetric]])

lemma keep_reqmem:
  assumes "sys_reqmem i cap addr sz perms k = Inr (out, k')" "caps_inv k"
  shows "caps_inv k'"
  using assms unfolding sys_reqmem_def Let_def
  by (auto simp: rbind_eq_Inr caps_inv_mem case_prod_unfold split: if_splits
      dest!: caps_inv_sys_reply made_mem [rotated] made_table_set [rotated 2] intro: made_same)

lemma keep_derivemem:
  assumes "sys_derivemem i src dst off sz perms k = Inr (out, k')" "caps_inv k"
  shows "caps_inv k'"
proof (cases "\<exists>e. sys_reply i e [] k = Inr (out, k')")
  case True
  then show ?thesis using assms(2) by (auto dest: caps_inv_sys_reply)
next
  case False
  then obtain c dc k1 ob old k2 where c: "cap_get k (i, OBJ) src CAP_MEM = Some c"
      and k1: "obtain_cap (i, OBJ) dst (Some c) k = Inr (Some dc, k1)" "kind_obj (c_kind dc) = Some old"
      and k2: "obj_unref old (mod_cap (i, OBJ) dst (set_cap_obj (fst (new_obj ob k1))) (snd (new_obj ob k1))) = Inr k2"
        "sys_reply i NO_ERROR [] k2 = Inr (out, k')"
    using assms(1) unfolding sys_derivemem_def Let_def case_prod_unfold
    by (auto simp: rbind_eq_Inr split: option.splits if_splits)
  have kc: "k_cap k (i, OBJ) src = Some c" by (rule cap_get_cap [OF c])
  have inv1: "caps_inv k1" using caps_inv_obtain [OF assms(2), of i OBJ dst i src] kc k1(1) by simp
  obtain c' where c': "k_cap k1 (i, OBJ) dst = Some c'" "c_kind c' = c_kind dc"
    using obtain_cap_slot [OF assms(2) kc k1(1)] by blast
  have "caps_inv k2"
    by (rule caps_inv_new_object [OF inv1 c'(1) _ prod.collapse [symmetric] k2(1)]) (simp add: c' k1(2))
  then show ?thesis by (rule caps_inv_sys_reply [OF k2(2)])
qed

lemma keep_createmap:
  assumes "sys_createmap i tcap mcap first pages dst perms k = Inr (out, k')" "caps_inv k"
  shows "caps_inv k'"
  using assms unfolding sys_createmap_def Let_def
  by (auto simp: rbind_eq_Inr split: if_splits option.splits elim!: caps_inv_with_vpe_cap
      dest!: caps_inv_sys_reply caps_inv_create_maps [rotated])

lemma keep_attachrb:
  assumes "sys_attachrb i tcap ep addr ord mord flags k = Inr (out, k')" "caps_inv k"
  shows "caps_inv k'"
  using assms unfolding sys_attachrb_def
  by (auto simp: rbind_eq_Inr split: if_splits elim!: caps_inv_with_vpe_cap
      dest!: caps_inv_sys_reply caps_inv_attach [rotated])

lemma keep_detachrb:
  assumes "sys_detachrb i tcap ep k = Inr (out, k')" "caps_inv k"
  shows "caps_inv k'"
  using assms unfolding sys_detachrb_def
  by (auto simp: rbind_eq_Inr elim!: caps_inv_with_vpe_cap dest!: caps_inv_sys_reply caps_inv_same [OF same_caps_detach])

lemma keep_pagefault:
  assumes "sys_pagefault i virt access k = Inr (out, k')" "caps_inv k"
  shows "caps_inv k'"
  using assms unfolding sys_pagefault_def
  by (auto simp: rbind_eq_Inr split: if_splits option.splits dest!: caps_inv_sys_reply caps_inv_activate [rotated])

lemma keep_exchange:
  assumes "sys_exchange i tcap own other obt k = Inr (out, k')" "caps_inv k"
  shows "caps_inv k'"
  using assms unfolding sys_exchange_def Let_def
  by (auto simp: rbind_eq_Inr elim!: caps_inv_with_vpe_cap dest!: caps_inv_sys_reply caps_inv_do_exchange [rotated])

lemma keep_vpectrl:
  assumes "sys_vpectrl i rinfo tcap op pid k = Inr (out, k')" "caps_inv k"
  shows "caps_inv k'"
proof (rule caps_inv_with_vpe_cap [OF assms(1) [unfolded sys_vpectrl_def] assms(2)])
  have sub: "caps_inv (mod_vpe j (\<lambda>v. v\<lparr>v_exitsubscr := v_exitsubscr v @ xs\<rparr>) k)" for j xs
    by (rule caps_inv_same [OF same_caps_mod_vpe assms(2)]) simp_all
  fix c
  assume "(case c_kind c of
         VPECap p vpeId \<Rightarrow>
           if \<not> keyLocality (k_mht k) vpeId then sys_reply i NOT_SUP [] k
           else (case op of
             None \<Rightarrow> Inr (Returns (), k)
           | Some VCTRL_START \<Rightarrow> rbind (cap_vpe k c) (\<lambda>tv.
               rbind (vpe_start (v_id tv) 0 [] k) (sys_reply i NO_ERROR []))
           | Some VCTRL_WAIT \<Rightarrow> rbind (cap_vpe k c) (\<lambda>tv.
               if v_state tv = DEAD then sys_reply i NO_ERROR [put_int (v_exitcode tv)] k
               else Inr (Returns (), mod_vpe (v_id tv) (\<lambda>v. v\<lparr>v_exitsubscr := v_exitsubscr v @ [(i, rinfo)]\<rparr>) k)))
       | _ \<Rightarrow> Inl Null_deref) = Inr (out, k')"
  then show "caps_inv k'" using assms(2) sub
    by (auto simp: rbind_eq_Inr split: cap_kind.splits if_splits option.splits vpe_ctrl.splits
        dest!: caps_inv_sys_reply caps_inv_vpe_start [rotated])
qed

lemma kbind_lift_Blocked: "kbind (lift m) (\<lambda>_ k. Inr (Blocked, k)) = Inr (out, k') \<longleftrightarrow> m = Inr k' \<and> out = Blocked"
  by (cases m) auto

lemma lift_eq_Inr: "lift m = Inr (out, k') \<longleftrightarrow> m = Inr k' \<and> out = Returns ()"
  by (cases m) auto

lemma keep_exchange_over_sess:
  assumes st: "sys_exchange_over_sess i rinfo obt tvpe sess caps args k = Inr (out, k')" and inv: "caps_inv k"
  shows "caps_inv k'"
proof (cases "\<exists>e. sys_reply i e [] k = Inr (out, k')")
  case True
  then show ?thesis using inv by (auto dest: caps_inv_sys_reply)
next
  case False
  then obtain c where c: "cap_get k (i, OBJ) tvpe CAP_VIRTPE = Some c"
    using st by (auto simp: sys_exchange_over_sess_def with_vpe_cap_def split: option.splits)
  then obtain tv where tv: "cap_vpe k c = Inr tv"
    using st by (cases "cap_vpe k c") (auto simp: sys_exchange_over_sess_def with_vpe_cap_def)
  obtain sc q so where "cap_get k (v_id tv, OBJ) sess CAP_SESSION = Some sc" "c_kind sc = SessCap q" "k_sess k q = Some so"
    using st False c tv by (auto simp: sys_exchange_over_sess_def with_vpe_cap_def split: cap_kind.splits option.splits)
  then have "same_caps k k'" using st c tv
    by (auto simp: sys_exchange_over_sess_def with_vpe_cap_def kbind_lift_Blocked lift_eq_Inr sys_reply_def
        split: if_splits option.splits dest: same_caps_srv_send same_caps_krnl_call)
  then show ?thesis using inv by (rule caps_inv_same)
qed

lemma keep_activate:
  assumes "sys_activate i rinfo ep oldc newc k = Inr (out, k')" "caps_inv k"
  shows "caps_inv k'"
proof -
  define look where "look = (\<lambda>sel. if sel = INV_SEL then None else cap_get k (i, OBJ) sel (CAP_MSG OR CAP_MEM))"
  have fin: "caps_inv k'" if "rbind (do_activate i ep oc nc k) (sys_reply i NO_ERROR []) = Inr (out, k')" for oc nc
    using that assms(2) by (auto simp: rbind_eq_Inr dest!: caps_inv_sys_reply caps_inv_activate [rotated])
  show ?thesis
  proof (cases "ep = 0 \<or> look oldc = None \<and> look newc = None")
    case True
    then show ?thesis using assms caps_inv_sys_reply unfolding sys_activate_def look_def [symmetric] Let_def by auto
  next
    case False
    show ?thesis
    proof (cases "\<exists>c. look newc = Some c \<and> c_type c = CAP_MSG")
      case True
      then obtain c where c: "look newc = Some c" "c_type c = CAP_MSG" by blast
      then obtain ob where ob: "cap_obj k c = Inr ob"
        using assms(1) False unfolding sys_activate_def look_def [symmetric] Let_def by (cases "cap_obj k c") auto
      show ?thesis using assms fin False c ob unfolding sys_activate_def look_def [symmetric] Let_def
        by (auto simp: kbind_lift_Blocked caps_inv_mem split: if_splits elim!: rbind_InrE dest!: caps_inv_same [OF same_caps_krnl_call])
    next
      case no: False
      then show ?thesis using assms(1) fin False unfolding sys_activate_def look_def [symmetric] Let_def
        by (auto split: option.splits if_splits)
    qed
  qed
qed

lemma caps_inv_obtain_get:
  assumes "caps_inv k" "obtain_cap (i, OBJ) dst (cap_get k (j, OBJ) s ty) k = Inr (r, k')"
  shows "caps_inv k'"
proof (cases "cap_get k (j, OBJ) s ty")
  case None
  then show ?thesis using assms by (simp add: obtain_cap_def)
next
  case (Some c)
  then show ?thesis using caps_inv_obtain [OF assms(1), of i OBJ dst j s] assms(2) cap_get_cap [OF Some] by simp
qed

lemma keep_createvpe:
  assumes "sys_createvpe i tcap mcap name pe gcap ep k = Inr (out, k')" "caps_inv k"
  shows "caps_inv k'"
proof (cases "\<exists>e. sys_reply i e [] k = Inr (out, k')")
  case True
  then show ?thesis using assms(2) by (auto dest: caps_inv_sys_reply)
next
  case False
  obtain r k1 where k1: "pe_create name pe (get_int ep) gcap k = Inr (r, k1)"
    using False assms(1) by (auto simp: sys_createvpe_def split: if_splits elim: rbind_InrE)
  have inv1: "caps_inv k1" by (rule caps_inv_pe_create [OF assms(2) k1])
  show ?thesis using False assms(1) k1 inv1 unfolding sys_createvpe_def
    by (auto split: if_splits option.splits elim!: rbind_InrE
        dest!: caps_inv_sys_reply caps_inv_obtain [rotated] caps_inv_obtain_get [rotated])
qed

text \<open>The calls that neither revoke capabilities nor end a VPE.\<close>

fun keeps_caps :: "syscall \<Rightarrow> bool" where
  "keeps_caps (SC_REVOKE _ _) = False"
| "keeps_caps (SC_EXIT _) = False"
| "keeps_caps _ = True"

lemmas syscall_keeps = keep_pagefault keep_createsrv keep_createsess keep_createsessat keep_creategate keep_createvpe
  keep_createmap keep_attachrb keep_detachrb keep_exchange keep_vpectrl keep_exchange_over_sess keep_activate
  keep_reqmem keep_derivemem caps_inv_sys_reply

lemma keep_syscall:
  "handle_syscall n i rinfo call k = Inr (out, k') \<Longrightarrow> keeps_caps call \<Longrightarrow> caps_inv k \<Longrightarrow> caps_inv k'"
  by (cases call) (simp_all add: syscall_keeps)

section \<open>Replies of services and resumed threads\<close>

lemma same_caps_srv_received: "srv_received p k = Inr k' \<Longrightarrow> same_caps k k'"
  by (auto simp: srv_received_def mod_service_def rbind_eq_Inr split: option.splits)

lemma same_caps_service_unref [simp]: "same_caps k0 (service_unref p k) = same_caps k0 k"
  by (auto simp: service_unref_def mod_service_def split: option.splits)

lemma caps_inv_service_unref [simp]: "caps_inv k \<Longrightarrow> caps_inv (service_unref p k)"
  by (rule caps_inv_same [of k]) simp_all

lemma caps_inv_srv_received: "srv_received p k = Inr k' \<Longrightarrow> caps_inv k \<Longrightarrow> caps_inv k'"
  by (rule caps_inv_same [OF same_caps_srv_received])

lemma caps_inv_reply_to: "reply_to_vpe i r e s k = Inr k' \<Longrightarrow> caps_inv k \<Longrightarrow> caps_inv k'"
  by (rule caps_inv_same [OF same_caps_reply_to])

lemma caps_inv_krnl_call: "krnl_call dst msg k = Inr k' \<Longrightarrow> caps_inv k \<Longrightarrow> caps_inv k'"
  by (rule caps_inv_same [OF same_caps_krnl_call])

lemma caps_inv_addChild [simp]: "caps_inv k \<Longrightarrow> caps_inv (mod_cap tbl sel (addChild s x) k)"
  by (rule caps_inv_mod_cap) simp_all

lemma keep_createsess_cb: "createsess_cb p i cap tvpe rinfo res payload k = Inr (out, k') \<Longrightarrow> caps_inv k \<Longrightarrow> caps_inv k'"
  unfolding createsess_cb_def
  by (auto split: if_splits option.splits list.splits elim!: rbind_InrE
      dest!: caps_inv_srv_received caps_inv_reply_to made_inherit_and_set [rotated 2] intro: made_session)

lemma keep_exchange_cb: "exchange_cb p i caps tvpe obt rinfo res payload k = Inr (out, k') \<Longrightarrow> caps_inv k \<Longrightarrow> caps_inv k'"
  unfolding exchange_cb_def
  by (auto split: if_splits option.splits elim!: rbind_InrE
      dest!: caps_inv_srv_received caps_inv_reply_to caps_inv_do_exchange [rotated])

lemma keep_createSessFwd_cb: "createSessFwd_cb p s i cap tid res payload k = Inr (out, k') \<Longrightarrow> caps_inv k \<Longrightarrow> caps_inv k'"
  unfolding createSessFwd_cb_def
  by (auto split: if_splits option.splits list.splits elim!: rbind_InrE
      dest!: caps_inv_srv_received caps_inv_krnl_call caps_inv_same [OF same_caps_service_ref])

lemma caps_inv_table_reserve:
  assumes "table_reserve tbl i k = Inr k'" "caps_inv k"
  shows "caps_inv k'"
proof -
  have k': "k' = mod_table tbl (\<lambda>ct. ct\<lparr>ct_reserved := ct_reserved ct @ [i]\<rparr>) k"
    using assms(1) by (auto simp: table_reserve_def split: if_splits)
  have "k_cap k' tb s = k_cap k tb s" for tb s by (auto simp: k' k_cap_mod_table k_cap_table [of k tbl] split: option.splits)
  then have "same_caps k k'" unfolding same_caps_def
    by (auto simp: k' k_vpes_mod_table_None fun_eq_iff intro: tables_ok_mod_table)
  then show ?thesis using assms(2) by (rule caps_inv_same)
qed

lemma keep_gather_caps: "gather_caps obt tbl vpe start dst js k = Inr (cs, k') \<Longrightarrow> caps_inv k \<Longrightarrow> caps_inv k'"
proof (induction js arbitrary: cs k)
  case (Cons j js)
  then show ?case
    by (auto simp: Let_def split: if_splits option.splits elim!: rbind_InrE dest!: caps_inv_table_reserve)
qed simp

lemma keep_exchangeOverSession_cb:
  "exchangeOverSession_cb p s tid obt v caps res payload k = Inr (out, k') \<Longrightarrow> caps_inv k \<Longrightarrow> caps_inv k'"
  unfolding exchangeOverSession_cb_def Let_def
  by (auto split: if_splits option.splits elim!: rbind_InrE
      dest!: caps_inv_srv_received caps_inv_krnl_call keep_gather_caps)

lemma keep_srv_reply: "handle_srv_reply p cb res payload k = Inr (out, k') \<Longrightarrow> caps_inv k \<Longrightarrow> caps_inv k'"
  by (cases cb) (auto simp: keep_createsess_cb keep_exchange_cb keep_createSessFwd_cb keep_exchangeOverSession_cb
      elim!: rbind_InrE dest!: caps_inv_srv_received)

lemma keep_activate_resumed: "activate_resumed i ep old new res k = Inr (out, k') \<Longrightarrow> caps_inv k \<Longrightarrow> caps_inv k'"
  unfolding activate_resumed_def
  by (auto split: if_splits elim!: rbind_InrE dest!: caps_inv_sys_reply caps_inv_activate [rotated])

lemma keep_createsess_resumed:
  assumes st: "createsess_resumed i tvpe cap k = Inr (out, k')" and inv: "caps_inv k"
  shows "caps_inv k'"
proof -
  have failed: "caps_inv k'" if "rbind (krnl_call dst msg k) (sys_reply i INV_ARGS []) = Inr (out, k')" for dst msg
    using that inv by (auto dest!: caps_inv_sys_reply caps_inv_krnl_call elim!: rbind_InrE)
  show ?thesis
  proof (cases "\<exists>e. sys_reply i e [] k = Inr (out, k')")
    case True
    then show ?thesis using inv by (auto dest: caps_inv_sys_reply)
  next
    case False
    then obtain v src payload where v: "the_vpe k i = Inr v" "v_lookup v = Some (src, NO_ERROR, payload)"
      using st unfolding createsess_resumed_def Let_def
      by (cases "the_vpe k i") (auto split: option.splits if_splits)
    then obtain sess srvcap rest where p: "payload = sess # srvcap # rest"
      using st unfolding createsess_resumed_def Let_def by (auto split: list.splits)
    show ?thesis
    proof (cases "cap_get k (i, OBJ) tvpe CAP_VIRTPE")
      case None
      then show ?thesis using st v p failed by (simp add: createsess_resumed_def Let_def)
    next
      case (Some c)
      then obtain tv where "cap_vpe k c = Inr tv"
        using st v p by (cases "cap_vpe k c") (auto simp: createsess_resumed_def Let_def)
      then show ?thesis using st v p failed Some inv
        by (auto simp: createsess_resumed_def setparent_and_set_def Let_def split: if_splits elim!: rbind_InrE
            dest!: caps_inv_sys_reply made_table_set [rotated 2] intro: made_session)
    qed
  qed
qed

section \<open>Every reachable state\<close>

lemma caps_inv_load_vpe:
  assumes inv: "caps_inv k" and ld: "load_vpe arg k = Inr (i, k')"
  shows "caps_inv k'"
proof -
  obtain no where no: "free_compute_core k = Inr no" "no \<noteq> MAX_PES"
    using ld by (cases "free_compute_core k") (auto simp: load_vpe_def split: if_splits)
  obtain e k1 where e: "reserve_ep (int no) k = (e, k1)" by fastforce
  define s where "s = (if e = -1 then int (SYSC_EP + SYSC_GATES - 1) else e)"
  have "rbind (new_VPE (path_to_name arg None @ ''-'' @ print_nat no) no True s (-1) INV_SEL k1)
      (\<lambda>k. Inr (no, k\<lparr>k_count := k_count k + 1\<rparr>)) = Inr (i, k')"
    using ld no e unfolding load_vpe_def Let_def s_def by (simp del: rbind_eq_Inr)
  then obtain k2 where k2: "new_VPE (path_to_name arg None @ ''-'' @ print_nat no) no True s (-1) INV_SEL k1 = Inr k2"
      "k' = k2\<lparr>k_count := k_count k2 + 1\<rparr>" "no = i"
    by (elim rbind_InrE) simp
  note k1 = no [unfolded k2(3)] e [unfolded k2(3)] k2(1) [unfolded k2(3)] k2(2)
  have "k_vpes k i = None" "i < MAX_PES"
    using first_free_usable [OF k1(1) [unfolded free_compute_core_def] k1(2)] core_id_less by (auto simp: usable_core_def)
  moreover have "same_caps k k1" "k_vpes k1 = k_vpes k"
    using k1(3) by (auto simp: reserve_ep_def split: option.splits prod.splits)
  ultimately have "caps_inv k2" using caps_inv_new_VPE [OF caps_inv_same [OF _ inv] _ _ k1(4)] by simp
  then show ?thesis unfolding k1(5) by (rule caps_inv_same [rotated]) simp
qed

text \<open>The steps of a kernel in which capabilities come into being or are handed on: VPEs are loaded, system calls are handled,
  services reply, waiting threads continue. Events in between change nothing that the capabilities depend on.\<close>

inductive granting_step :: "kernel \<Rightarrow> kernel \<Rightarrow> bool" where
  load: "load_vpe arg k = Inr (i, k') \<Longrightarrow> granting_step k k'"
| syscall: "handle_syscall n i rinfo call k = Inr (out, k') \<Longrightarrow> keeps_caps call \<Longrightarrow> granting_step k k'"
| service: "handle_srv_reply p cb res payload k = Inr (out, k') \<Longrightarrow> granting_step k k'"
| activated: "activate_resumed i ep old new res k = Inr (out, k') \<Longrightarrow> granting_step k k'"
| session: "createsess_resumed i tvpe cap k = Inr (out, k') \<Longrightarrow> granting_step k k'"

inductive granting_run :: "kernel \<Rightarrow> kernel \<Rightarrow> bool" where
  start: "granting_run k k"
| step: "granting_run k k1 \<Longrightarrow> granting_step k1 k2 \<Longrightarrow> granting_run k k2"

lemma granting_step_keeps: "granting_step k k' \<Longrightarrow> caps_inv k \<Longrightarrow> caps_inv k'"
proof (induction rule: granting_step.induct)
  case load
  from load(2,1) show ?case by (rule caps_inv_load_vpe)
next
  case syscall
  from syscall show ?case by (rule keep_syscall)
next
  case service
  from service show ?case by (rule keep_srv_reply)
next
  case activated
  from activated show ?case by (rule keep_activate_resumed)
next
  case session
  from session show ?case by (rule keep_createsess_resumed)
qed

lemma granting_run_keeps: "granting_run k k' \<Longrightarrow> caps_inv k \<Longrightarrow> caps_inv k'"
  by (induction rule: granting_run.induct) (simp_all add: granting_step_keeps)

lemma caps_inv_new_kernel: "caps_inv (new_kernel ke m mem rbs initial)"
  by (simp add: caps_inv_def new_kernel_def tables_ok_def k_cap_def refs_to_def)

text \<open>What the invariant says about capabilities: their identifiers are unique, and objects are counted.\<close>

lemma cap_key_inj:
  assumes "i < MAX_PES" "j < MAX_PES" "cap_key i kd s = cap_key j kd' s'"
  shows "i = j \<and> s = s' \<and> kind_item kd = kind_item kd'"
  using cap_key_fields [OF assms(1), of kd s] cap_key_fields [OF assms(2), of kd' s'] assms(3) by simp

lemma caps_inv_unique_id:
  assumes inv: "caps_inv k" and c: "k_cap k tbl sel = Some c" "k_cap k tbl' sel' = Some c'" and eq: "c_id c = c_id c'"
  shows "tbl = tbl' \<and> sel = sel'"
proof -
  have wf: "cap_wf tbl sel c" "cap_wf tbl' sel' c'" using caps_inv_wf [OF inv] c by blast+
  have "k_vpes k (fst tbl) \<noteq> None" "k_vpes k (fst tbl') \<noteq> None" using c by (auto simp: k_cap_def split: option.splits)
  then have lt: "fst tbl < MAX_PES" "fst tbl' < MAX_PES" using inv unfolding caps_inv_def by blast+
  have "fst tbl = fst tbl' \<and> sel = sel' \<and> kind_item (c_kind c) = kind_item (c_kind c')"
    by (rule cap_key_inj [OF lt]) (use wf eq in \<open>simp add: cap_wf_def\<close>)
  then show ?thesis using wf by (cases "snd tbl"; cases "snd tbl'"; cases tbl; cases tbl') (auto simp: cap_wf_def)
qed

lemma caps_inv_counted:
  assumes inv: "caps_inv k" and c: "k_cap k tbl sel = Some c" "kind_obj (c_kind c) = Some p"
  shows "\<exists>ob. k_objs k p = Some ob \<and> mo_refs ob = card (refs_to k p)"
proof -
  have "(tbl, sel) \<in> refs_to k p" using c by (simp add: refs_to_def)
  then have "refs_to k p \<noteq> {}" by blast
  then show ?thesis using inv unfolding caps_inv_def by (metis card_0_eq option.case_eq_if option.collapse)
qed

subsection \<open>A kernel with one program\<close>

definition boot_env :: kenv where
  "boot_env = \<lparr>ke_pe_count = 3, ke_pes = [0x100000, 0x40000000100000, 0x80000000100000, 0], ke_kernelId = 0, ke_creatorKernelId = 0, ke_creatorCore = 0,
     ke_creatorThread = 0, ke_creatorEp = 0, ke_first_pe = 1, ke_kernel_pe = 0\<rparr>"

definition boot_mht :: "unit mht" where
  "boot_mht =
     \<lparr>mi_kid = 0,
      mi_table = map (\<lambda>pe. \<lparr>me_pe = pe, me_krnl = 0, me_capacity = 1, me_flags = 0\<rparr>) [0, 1, 2],
      mi_parts = [partition_new 0, partition_new 1, partition_new 2], mi_migrating = [], mi_kpes = [], mi_seed = 1, mi_out = []\<rparr>"

definition boot_kernel :: kernel where
  "boot_kernel = new_kernel boot_env boot_mht [] (rb_entries [0, 1, 2]) True"

definition booted :: kernel where
  "booted = snd (projr (load_vpe ''app'' boot_kernel))"

lemma load_boot_kernel: "load_vpe ''app'' boot_kernel = Inr (fst (projr (load_vpe ''app'' boot_kernel)), booted)"
proof -
  have "\<not> isl (load_vpe ''app'' boot_kernel)" by code_simp
  then show ?thesis unfolding booted_def by (cases "load_vpe ''app'' boot_kernel") simp_all
qed

lemma booted_run: "granting_run boot_kernel booted"
  by (rule granting_run.step [OF granting_run.start granting_step.load [OF load_boot_kernel]])

lemma booted_inv: "caps_inv booted"
  using granting_run_keeps [OF booted_run] caps_inv_new_kernel by (simp add: boot_kernel_def)





end
