(* ===== verification/Syscall_Effects.thy ===== *)
theory Syscall_Effects
  imports Caps_Preserved
begin

unbundle bit_operations_syntax

text \<open>
  What single system calls grant and refuse: the confinement of derived memory, the direction of an exchange, the
  reservation of message slots, and the range test of a revocation.
\<close>

text \<open>How the result of an evaluated case distinction is taken apart.\<close>

lemma case_sum_FalseE:
  assumes "case r of Inl _ \<Rightarrow> False | Inr x \<Rightarrow> P x"
  obtains x where "r = Inr x" "P x"
  using assms by (auto split: sum.splits)

lemma case_option_FalseE:
  assumes "case r of None \<Rightarrow> False | Some x \<Rightarrow> P x"
  obtains x where "r = Some x" "P x"
  using assms by (auto split: option.splits)

section \<open>Derived memory\<close>

text \<open>How a successful call got to its end.\<close>

lemma sys_derivemem_success:
  assumes st: "sys_derivemem i src dst off sz perms k = Inr (out, k')" and free: "k_cap k (i, OBJ) dst = None"
    and got: "k_cap k' (i, OBJ) dst = Some d"
  obtains c sob dc k1 ob old k2 where "k_cap k (i, OBJ) src = Some c" "cap_obj k c = Inr sob"
    "\<not> off + sz < off" "off + sz \<le> mem_size sob" "sz \<noteq> 0"
    "obtain_cap (i, OBJ) dst (Some c) k = Inr (Some dc, k1)" "kind_obj (c_kind dc) = Some old"
    "new_MemObject (mem_addr sob + off) sz (ucast perms AND mem_perms sob) (mo_core sob) (mo_vpe sob) (mo_epid sob)
       (structured_hash (word_of_int (mo_core sob)) (word_of_int (mo_vpe sob)) MEMOBJ (ucast (mem_addr sob + off))) = Inr ob"
    "obj_unref old (mod_cap (i, OBJ) dst (set_cap_obj (k_next k1)) (snd (new_obj (ob\<lparr>mo_derived := True\<rparr>) k1))) = Inr k2"
    "k' = emit (Ev_reply i NO_ERROR []) k2"
proof -
  have ne: "k' \<noteq> emit (Ev_reply i e []) k" for e using free got by auto
  obtain c where c: "cap_get k (i, OBJ) src CAP_MEM = Some c"
    using st ne by (auto simp: sys_derivemem_def sys_reply_def split: option.splits)
  then obtain sob where sob: "cap_obj k c = Inr sob"
    using st ne by (cases "cap_obj k c") (auto simp: sys_derivemem_def sys_reply_def split: if_splits)
  have ok: "\<not> off + sz < off" "off + sz \<le> mem_size sob" "sz \<noteq> 0"
    using st ne c sob by (auto simp: sys_derivemem_def sys_reply_def split: if_splits)
  obtain dc k1 where dc: "obtain_cap (i, OBJ) dst (Some c) k = Inr (Some dc, k1)"
    using st ne c sob by (auto simp: sys_derivemem_def sys_reply_def split: if_splits option.splits)
  let ?new = "new_MemObject (mem_addr sob + off) sz (ucast perms AND mem_perms sob) (mo_core sob) (mo_vpe sob) (mo_epid sob)
       (structured_hash (word_of_int (mo_core sob)) (word_of_int (mo_vpe sob)) MEMOBJ (ucast (mem_addr sob + off)))"
  obtain ob where ob: "?new = Inr ob"
    using st ne c sob dc by (cases ?new) (auto simp: sys_derivemem_def sys_reply_def split: if_splits)
  obtain old where old: "kind_obj (c_kind dc) = Some old"
    using st ne c sob dc ob by (auto simp: sys_derivemem_def sys_reply_def split: if_splits option.splits)
  let ?un = "obj_unref old (mod_cap (i, OBJ) dst (set_cap_obj (k_next k1)) (snd (new_obj (ob\<lparr>mo_derived := True\<rparr>) k1)))"
  obtain k2 where k2: "?un = Inr k2" "k' = emit (Ev_reply i NO_ERROR []) k2"
    using st ne c sob dc ob old
    by (cases ?un) (auto simp: sys_derivemem_def sys_reply_def Let_def new_obj_def split: if_splits)
  show ?thesis by (rule that [OF cap_get_cap [OF c] sob ok dc old ob k2])
qed

text \<open>The capability that \<^const>\<open>obtain_cap\<close> puts into the table is a child of the one it is made from.\<close>

lemma obtain_cap_parent:
  assumes inv: "caps_inv k" and c: "k_cap k (j, t) s = Some c" and ob: "obtain_cap (i, t) dst (Some c) k = Inr (Some nc, k')"
  shows "\<exists>c'. k_cap k' (i, t) dst = Some c' \<and> c_kind c' = c_kind nc \<and> c_parent c' = c_id c"
    and "\<exists>c'. k_cap k' (j, t) s = Some c' \<and> c_kind c' = c_kind c"
proof -
  obtain n k1 where cl: "cap_clone c (i, t) dst k = Inr (Some n, k1)" "inherit_and_set c n (i, t) dst k1 = Inr (nc, k')"
    using ob by (auto simp: obtain_cap_def split: option.splits)
  obtain k3 where k3: "table_set (i, t) dst (n\<lparr>c_parent := c_id c\<rparr>) k1 = Inr (nc, k3)"
      "k' = (if keyLocality (k_mht k3) (c_id c) then mod_cap (c_tbl c) (c_sel c) (addChild (k_mht k3) (c_id nc)) k3 else k3)"
    using cl(2) by (auto simp: inherit_and_set_def)
  have "k_cap k3 (i, t) dst = Some nc \<and> c_parent nc = c_id c \<and> k_cap k3 (j, t) s = Some c"
    using made_table_set [OF inv _ k3(1)] made_clone [OF inv c cl(1)] c by auto
  then show "\<exists>c'. k_cap k' (i, t) dst = Some c' \<and> c_kind c' = c_kind nc \<and> c_parent c' = c_id c"
    and "\<exists>c'. k_cap k' (j, t) s = Some c' \<and> c_kind c' = c_kind c" by (auto simp: k3(2))
qed


text \<open>A program derives the second page of the memory of its PE, with read permission.\<close>

lemma derivemem_example:
  "case sys_derivemem 1 1 5 4096 4096 1 booted of Inl _ \<Rightarrow> False
   | Inr (out, k) \<Rightarrow> (case k_cap k (1, OBJ) 5 of None \<Rightarrow> False
     | Some d \<Rightarrow> (case kind_obj (c_kind d) of None \<Rightarrow> False
       | Some q \<Rightarrow> (case k_objs k q of None \<Rightarrow> False | Some ob \<Rightarrow> mem_perms ob = 1)))"
  by code_simp


section \<open>The direction of an exchange\<close>

lemma obtain_cap_other_tables:
  assumes inv: "caps_inv k" and ob: "obtain_cap (j, t) dst (k_cap k (i, t) s) k = Inr (r, k')"
    and none: "k_cap k tbl sel = None" and tbl: "tbl \<noteq> (j, t)"
  shows "k_cap k' tbl sel = None"
proof (cases "k_cap k (i, t) s")
  case None
  then show ?thesis using ob none by (simp add: obtain_cap_def)
next
  case (Some c)
  then obtain n k1 where cl: "cap_clone c (j, t) dst k = Inr (n, k1)"
      "(case n of None \<Rightarrow> Inr (None, k1)
        | Some nc \<Rightarrow> rbind (inherit_and_set c nc (j, t) dst k1) (\<lambda>(nc, k). Inr (Some nc, k))) = Inr (r, k')"
    using ob by (auto simp: obtain_cap_def)
  show ?thesis
  proof (cases n)
    case None
    then have "k1 = k" using cl(1)
      by (auto simp: cap_clone_def Let_def split: cap_kind.splits prod.splits)
    then show ?thesis using None cl(2) none by simp
  next
    case (Some nc)
    then obtain nc' k3 where k3: "table_set (j, t) dst (nc\<lparr>c_parent := c_id c\<rparr>) k1 = Inr (nc', k3)"
        "k' = (if keyLocality (k_mht k3) (c_id c) then mod_cap (c_tbl c) (c_sel c) (addChild (k_mht k3) (c_id nc')) k3 else k3)"
      using cl(2) by (auto simp: inherit_and_set_def)
    have "k_cap k3 tbl sel = None"
      using made_table_set [OF inv _ k3(1)] made_clone [OF inv \<open>k_cap k (i, t) s = Some c\<close>] cl(1) Some none tbl by (cases tbl) auto
    then show ?thesis by (auto simp: k3(2))
  qed
qed

lemma exchange_caps_other_tables:
  "caps_inv k \<Longrightarrow> exchange_caps (i, t) (j, t) src dst js k = Inr k' \<Longrightarrow> k_cap k tbl sel = None \<Longrightarrow> tbl \<noteq> (j, t) \<Longrightarrow>
    k_cap k' tbl sel = None"
proof (induction js arbitrary: k)
  case (Cons s js)
  then obtain r k1 where k1: "obtain_cap (j, t) (dst + s) (k_cap k (i, t) (src + s)) k = Inr (r, k1)"
      "exchange_caps (i, t) (j, t) src dst js k1 = Inr k'"
    by (auto split: if_splits)
  show ?case
    by (rule Cons.IH [OF caps_inv_obtain [OF Cons.prems(1) k1(1)] k1(2) obtain_cap_other_tables [OF Cons.prems(1) k1(1) Cons.prems(3,4)] Cons.prems(4)])
qed simp

lemma do_exchange_other_tables:
  assumes "caps_inv k" "do_exchange v1 v2 c1 c2 obt k = Inr (e, k')" "k_cap k (i, t) sel = None" "i \<noteq> (if obt then v1 else v2)"
  shows "k_cap k' (i, t) sel = None"
  using assms unfolding do_exchange_def Let_def
  by (auto split: if_splits intro: exchange_caps_other_tables)

text \<open>C38. \<^verbatim>\<open>exchange\<close> swaps the two VPEs for an \<^verbatim>\<open>obtain\<close>, and so does the function it calls: the caller of an
  \<^verbatim>\<open>obtain\<close> never obtains anything. All its empty selectors are empty afterwards; what it can
  hand on is copied to the other VPE instead.\<close>

theorem exchange_never_obtains:
  assumes "caps_inv k" "cap_get k (i, OBJ) tcap CAP_VIRTPE = Some c" "cap_vpe k c = Inr tv" "v_id tv \<noteq> i"
    and "sys_exchange i tcap own other obt k = Inr (out, k')"
  shows "\<forall>t sel. k_cap k (i, t) sel = None \<longrightarrow> k_cap k' (i, t) sel = None"
proof (intro allI impI)
  fix t sel
  assume none: "k_cap k (i, t) sel = None"
  obtain e k1 where k1: "do_exchange (if obt then v_id tv else i) (if obt then i else v_id tv) own other obt k = Inr (e, k1)"
      "k' = emit (Ev_reply i e []) k1"
    using assms(2,3,5) by (auto simp: sys_exchange_def with_vpe_cap_def sys_reply_def Let_def)
  show "k_cap k' (i, t) sel = None"
    using do_exchange_other_tables [OF assms(1) k1(1) none] assms(4) k1(2) by auto
qed

text \<open>The program on PE 1 has created a VPE on PE 2, for which it has the capability 6. It wants to obtain
  capability 1 of the new VPE for its selector 20.\<close>

abbreviation rng :: "capsel_t \<Rightarrow> capsel_t \<Rightarrow> cap_rng" where
  "rng s n \<equiv> \<lparr>crd_type = OBJ, crd_start = s, crd_count = n\<rparr>"

lemma exchange_example:
  "case sys_createvpe 1 6 7 ''child'' 0 INV_SEL 0 booted of Inl _ \<Rightarrow> False
   | Inr (_, k) \<Rightarrow> k_cap k (1, OBJ) 20 = None \<and> (case cap_get k (1, OBJ) 6 CAP_VIRTPE of None \<Rightarrow> False
     | Some c \<Rightarrow> (case cap_vpe k c of Inl _ \<Rightarrow> False
       | Inr tv \<Rightarrow> v_id tv = 2 \<and> (case sys_exchange 1 6 (rng 20 1) (rng 1 1) True k of Inl _ \<Rightarrow> False
         | Inr (_, k') \<Rightarrow> last (k_log k') = Ev_reply 1 NO_ERROR [] \<and> k_cap k' (2, OBJ) 20 \<noteq> None)))"
  by code_simp

theorem exchange_never_obtains_witness:
  "\<exists>out0 k out k'. sys_createvpe 1 6 7 ''child'' 0 INV_SEL 0 booted = Inr (out0, k) \<and>
     sys_exchange 1 6 (rng 20 1) (rng 1 1) True k = Inr (out, k') \<and>
     last (k_log k') = Ev_reply 1 NO_ERROR [] \<and> k_cap k' (1, OBJ) 20 = None \<and> k_cap k' (2, OBJ) 20 \<noteq> None"
proof -
  obtain out0 k c tv out k' where ex: "sys_createvpe 1 6 7 ''child'' 0 INV_SEL 0 booted = Inr (out0, k)"
      "k_cap k (1, OBJ) 20 = None" "cap_get k (1, OBJ) 6 CAP_VIRTPE = Some c" "cap_vpe k c = Inr tv" "v_id tv = 2"
      "sys_exchange 1 6 (rng 20 1) (rng 1 1) True k = Inr (out, k')" "last (k_log k') = Ev_reply 1 NO_ERROR []"
      "k_cap k' (2, OBJ) 20 \<noteq> None"
    using exchange_example by (auto elim!: case_sum_FalseE case_option_FalseE)
  have "caps_inv k" by (rule keep_createvpe [OF ex(1) booted_inv])
  then show ?thesis using exchange_never_obtains [OF _ ex(3,4) _ ex(6)] ex by auto
qed

section \<open>Message slots and cores\<close>

lemma take_slot_spec:
  "take_slot i n xs = Some (m, ys) \<Longrightarrow> n \<le> m \<and> m - n < length xs \<and> xs ! (m - n) = -1 \<and> ys = xs[m - n := i] \<and>
    (\<forall>j < m - n. xs ! j \<noteq> -1)"
proof (induction i n xs arbitrary: m ys rule: take_slot.induct)
  case (2 i n x xs)
  show ?case
  proof (cases "x = -1")
    case True
    then show ?thesis using "2.prems" by auto
  next
    case False
    then obtain zs where zs: "take_slot i (Suc n) xs = Some (m, zs)" "ys = x # zs"
      using "2.prems" by (auto split: option.splits)
    have h: "Suc n \<le> m \<and> m - Suc n < length xs \<and> xs ! (m - Suc n) = -1 \<and> zs = xs[m - Suc n := i] \<and> (\<forall>j<m - Suc n. xs ! j \<noteq> -1)"
      by (rule "2.IH" [OF False zs(1)])
    then have "m - n = Suc (m - Suc n)" by linarith
    then show ?thesis using h zs(2) False by (auto simp: less_Suc_eq_0_disj)
  qed
qed simp

lemma take_slot_None: "take_slot i n xs = None \<longleftrightarrow> -1 \<notin> set xs"
  by (induction i n xs rule: take_slot.induct) (auto split: option.splits)

lemma index_of_spec: "index_of P n xs = Some m \<Longrightarrow> n \<le> m \<and> m - n < length xs \<and> P (xs ! (m - n)) \<and> (\<forall>j < m - n. \<not> P (xs ! j))"
proof (induction P n xs rule: index_of.induct)
  case (2 P n x xs)
  show ?case
  proof (cases "P x")
    case False
    then have "Suc n \<le> m \<and> m - Suc n < length xs \<and> P (xs ! (m - Suc n)) \<and> (\<forall>j<m - Suc n. \<not> P (xs ! j))" using 2 by simp
    moreover from this have "m - n = Suc (m - Suc n)" by linarith
    ultimately show ?thesis using False by (auto simp: less_Suc_eq_0_disj)
  qed (use 2 in auto)
qed simp

lemma index_of_first:
  "m < length xs \<Longrightarrow> P (xs ! m) \<Longrightarrow> (\<And>j. j < m \<Longrightarrow> \<not> P (xs ! j)) \<Longrightarrow> index_of P n xs = Some (n + m)"
proof (induction P n xs arbitrary: m rule: index_of.induct)
  case (2 P n x xs)
  show ?case
  proof (cases m)
    case (Suc m')
    have np: "\<not> P (xs ! j)" if "j < m'" for j using "2.prems"(3) [of "Suc j"] Suc that by simp
    have "\<not> P x" using "2.prems"(3) [of 0] Suc by simp
    moreover have "index_of P (Suc n) xs = Some (Suc n + m')"
      by (rule "2.IH" [OF calculation]) (use "2.prems"(1,2) Suc np in simp_all)
    ultimately show ?thesis using Suc by simp
  qed (use 2 in simp)
qed simp

lemma index_of_upd:
  "s < length xs \<Longrightarrow> \<not> P (xs ! s) \<Longrightarrow> \<not> P y \<Longrightarrow> index_of P n (xs[s := y]) = index_of P n xs"
  by (induction P n xs arbitrary: s rule: index_of.induct) (auto split: nat.splits)

text \<open>C19. Message slots for system calls: \<^verbatim>\<open>reserve_ep\<close> fails exactly if every slot is taken. Otherwise it hands out one of the
  gates for system calls, \<^verbatim>\<open>ep_for\<close> finds that gate for the VPE from then on, the gates of other
  VPEs stay as they are, and no gate ever serves more VPEs than it has message slots.\<close>

theorem reserve_ep_correct:
  assumes "length (k_epOccup k) = SYSC_SLOTS" "i \<noteq> -1" "i \<notin> set (k_epOccup k)" "reserve_ep i k = (ep, k')"
  shows "length (k_epOccup k') = SYSC_SLOTS \<and> (ep = -1 \<longleftrightarrow> -1 \<notin> set (k_epOccup k)) \<and>
    (ep \<noteq> -1 \<longrightarrow> int SYSC_EP \<le> ep \<and> ep < int (SYSC_EP + SYSC_GATES) \<and> ep_for i k' = ep \<and>
      (\<forall>j. j \<noteq> i \<and> j \<noteq> -1 \<longrightarrow> ep_for j k' = ep_for j k)) \<and>
    card {s. s < SYSC_SLOTS \<and> k_epOccup k' ! s \<noteq> -1 \<and> sysc_ep_of s = ep} \<le> MAX_MSG_SLOTS"
proof (cases "take_slot i 0 (k_epOccup k)")
  case None
  then have "ep = -1" "k' = k" using assms(4) by (simp_all add: reserve_ep_def)
  moreover have "sysc_ep_of s \<noteq> -1" for s by (simp add: sysc_ep_of_def)
  ultimately show ?thesis using assms(1) None [unfolded take_slot_None] by simp
next
  case (Some r)
  obtain s ys where r: "r = (s, ys)" by fastforce
  have s: "s < SYSC_SLOTS" "k_epOccup k ! s = -1" "ys = (k_epOccup k)[s := i]" "\<forall>j < s . k_epOccup k ! j \<noteq> -1"
    using take_slot_spec [OF Some [unfolded r]] assms(1) by simp_all
  have k': "ep = sysc_ep_of s" "k_epOccup k' = (k_epOccup k)[s := i]"
    using assms(4) Some r s(3) by (auto simp: reserve_ep_def)
  have free: "-1 \<in> set (k_epOccup k)" using take_slot_None [of i 0 "k_epOccup k"] Some by simp
  have e: "int SYSC_EP \<le> ep" "ep < int (SYSC_EP + SYSC_GATES)"
    using s(1) by (simp_all add: k' sysc_ep_of_def SYSC_SLOTS_def SYSC_EP_def SYSC_GATES_def MAX_MSG_SLOTS_def)
  have ind: "index_of (\<lambda>x. x = i) 0 (k_epOccup k') = Some s"
    using index_of_first [of s "k_epOccup k'" "\<lambda>x. x = i" 0] s(1) assms(1,3) by (auto simp: k'(2) in_set_conv_nth)
  have other: "index_of (\<lambda>x. x = j) 0 (k_epOccup k') = index_of (\<lambda>x. x = j) 0 (k_epOccup k)" if "j \<noteq> i" "j \<noteq> -1" for j
    unfolding k'(2) by (rule index_of_upd) (use s assms(1) that in auto)
  have sub: "{t. t < SYSC_SLOTS \<and> k_epOccup k' ! t \<noteq> -1 \<and> sysc_ep_of t = ep} \<subseteq>
      {s div MAX_MSG_SLOTS * MAX_MSG_SLOTS ..< s div MAX_MSG_SLOTS * MAX_MSG_SLOTS + MAX_MSG_SLOTS}"
  proof
    fix t
    assume "t \<in> {t. t < SYSC_SLOTS \<and> k_epOccup k' ! t \<noteq> -1 \<and> sysc_ep_of t = ep}"
    then have "t div MAX_MSG_SLOTS = s div MAX_MSG_SLOTS" by (simp add: k'(1) sysc_ep_of_def)
    then show "t \<in> {s div MAX_MSG_SLOTS * MAX_MSG_SLOTS ..< s div MAX_MSG_SLOTS * MAX_MSG_SLOTS + MAX_MSG_SLOTS}"
      using dividend_less_div_times [of MAX_MSG_SLOTS t] div_times_less_eq_dividend [of t MAX_MSG_SLOTS]
      by (simp add: MAX_MSG_SLOTS_def)
  qed
  have "card {t. t < SYSC_SLOTS \<and> k_epOccup k' ! t \<noteq> -1 \<and> sysc_ep_of t = ep} \<le> MAX_MSG_SLOTS"
    by (rule order_trans [OF card_mono [OF finite_atLeastLessThan sub]]) simp
  moreover have "ep \<noteq> -1" "ep_for i k' = ep" using k'(1) ind by (simp_all add: ep_for_def sysc_ep_of_def)
  moreover have "ep_for j k' = ep_for j k" if "j \<noteq> i" "j \<noteq> -1" for j using other [OF that] by (simp add: ep_for_def)
  ultimately show ?thesis using assms(1) free e k'(2) by simp
qed

theorem reserve_ep_correct_witness: "ep_for 7 (snd (reserve_ep 7 boot_kernel)) = 0"
proof -
  have "length (k_epOccup boot_kernel) = SYSC_SLOTS" by code_simp
  moreover have "7 \<notin> set (k_epOccup boot_kernel)" by code_simp
  moreover have "fst (reserve_ep 7 boot_kernel) = 0" by code_simp
  then have "reserve_ep 7 boot_kernel = (0, snd (reserve_ep 7 boot_kernel))" by (metis prod.collapse)
  ultimately show ?thesis using reserve_ep_correct [of boot_kernel 7 0 "snd (reserve_ep 7 boot_kernel)"] by simp
qed

section \<open>The capabilities a VPE cannot revoke\<close>


end
