(* ===== verification/Cap_Transfer.thy ===== *)
theory Cap_Transfer
  imports Caps_Preserved Revocation_Protocol
begin

unbundle bit_operations_syntax

text \<open>
  Capabilities that are handed on over a session whose service belongs to another kernel: the kernel of the service
  writes them to a message (\<^const>\<open>serialize_caps\<close>, in \<^verbatim>\<open>KernelcallHandler::exchangeOverSession\<close>), the kernel of
  the client reads them back (\<^const>\<open>read_caps\<close>, in \<^verbatim>\<open>SyscallHandler::exchange_over_sess\<close>).
\<close>

section \<open>What arrives\<close>

text \<open>What arrives at the other kernel: identifier and type, and a copy of the object.\<close>

definition arrived :: "kernel \<Rightarrow> kernel \<Rightarrow> capability \<Rightarrow> capability \<Rightarrow> bool" where
  "arrived k k' c c' \<longleftrightarrow> c_id c' = c_id c \<and> c_type c' = c_type c \<and> c_sel c' = c_sel c \<and>
     (case kind_obj (c_kind c) of
        None \<Rightarrow> kind_obj (c_kind c') = None
      | Some p \<Rightarrow> (\<exists>q ob ob'. kind_obj (c_kind c') = Some q \<and> k_objs k p = Some ob \<and> k_objs k' q = Some ob' \<and> mo_refs ob' = 1 \<and>
          mo_label ob' = mo_label ob \<and> mo_core ob' = mo_core ob \<and> mo_vpe ob' = mo_vpe ob \<and> mo_epid ob' = mo_epid ob \<and>
          mo_credits ob' = mo_credits ob)) \<and>
     (\<forall>p. c_kind c = SessCap p \<longrightarrow> (\<exists>q so so'. c_kind c' = SessCap q \<and> k_sess k p = Some so \<and> k_sess k' q = Some so' \<and>
        so_ident so' = so_ident so \<and> so_srvID so' = so_srvID so \<and> so_srv so' = None))"

definition int_ok :: "int \<Rightarrow> bool" where
  "int_ok i \<longleftrightarrow> - (2 ^ 31) \<le> i \<and> i < 2 ^ 31"

definition ints_ok :: "kernel \<Rightarrow> bool" where
  "ints_ok k \<longleftrightarrow> (\<forall>p ob. k_objs k p = Some ob \<longrightarrow> int_ok (mo_core ob) \<and> int_ok (mo_vpe ob) \<and> int_ok (mo_epid ob))"

lemma get_put_int_ok [simp]: "int_ok i \<Longrightarrow> get_int (put_int i) = i"
  by (simp add: int_ok_def get_put_int)

lemma arrived_later:
  assumes "arrived k k1 c c'" "\<And>p. p < n \<Longrightarrow> k_objs k2 p = k_objs k1 p \<and> k_sess k2 p = k_sess k1 p"
    and "\<And>p. kind_obj (c_kind c') = Some p \<Longrightarrow> p < n" "\<And>p. c_kind c' = SessCap p \<Longrightarrow> p < n"
  shows "arrived k k2 c c'"
  using assms unfolding arrived_def by (auto split: option.splits)

section \<open>Reading\<close>

definition store_new :: "nat \<Rightarrow> new_object \<Rightarrow> kernel \<Rightarrow> kernel" where
  "store_new q ob k =
     (case ob of NewMsg ob \<Rightarrow> k\<lparr>k_objs := (k_objs k)(q \<mapsto> ob)\<rparr>
      | NewSess so \<Rightarrow> k\<lparr>k_sess := (k_sess k)(q \<mapsto> so)\<rparr> | NoObject \<Rightarrow> k)"

lemma read_caps_Suc:
  "read_caps junk (Suc n) s k =
     rbind (createFromStream (k_next k) (k_next k + 1) junk (k_junk k \<noteq> 0) s) (\<lambda>(c, ob, s).
       rbind (read_caps junk n s (store_new (k_next k + 1) ob (k\<lparr>k_next := k_next k + 2\<rparr>)))
         (\<lambda>(cs, s, k). Inr (c # cs, s, k)))"
  by (simp add: fresh_def Let_def store_new_def cong: new_object.case_cong)

lemma store_new_fields [simp]:
  "k_next (store_new q ob k) = k_next k" "p \<noteq> q \<Longrightarrow> k_objs (store_new q ob k) p = k_objs k p"
  "p \<noteq> q \<Longrightarrow> k_sess (store_new q ob k) p = k_sess k p" "k_junk (store_new q ob k) = k_junk k"
  by (auto simp: store_new_def split: new_object.splits)

lemma read_caps_frame:
  "read_caps junk n s k = Inr (cs, rest, k') \<Longrightarrow> k_next k \<le> k_next k' \<and>
     (\<forall>p < k_next k. k_objs k' p = k_objs k p \<and> k_sess k' p = k_sess k p)"
proof (induction n arbitrary: s k cs)
  case (Suc n)
  let ?k = "\<lambda>ob. store_new (k_next k + 1) ob (k\<lparr>k_next := k_next k + 2\<rparr>)"
  obtain c ob s1 cs1 where "read_caps junk n s1 (?k ob) = Inr (cs1, rest, k')"
    using Suc.prems unfolding read_caps_Suc by auto
  from Suc.IH [OF this] show ?case by simp
qed simp

lemma serialized_read:
  assumes inv: "caps_inv k" and ints: "ints_ok k" and c: "k_cap k tbl sel = Some c"
    and ser: "serializeTyped (k_objs k) (k_sess k) c = Inr s"
  shows "\<exists>c' ob. createFromStream p q junk d (s @ rest) = Inr (c', ob, rest) \<and> arrived k (store_new q ob k') c c' \<and>
    (\<forall>x. kind_obj (c_kind c') = Some x \<or> c_kind c' = SessCap x \<longrightarrow> x = q)"
proof -
  have wf: "cap_wf tbl sel c" by (rule caps_inv_wf [OF inv c])
  have "k_vpes k (fst tbl) \<noteq> None" using c by (auto simp: k_cap_def split: option.splits)
  then have lt: "fst tbl < MAX_PES" using inv unfolding caps_inv_def by blast
  have id: "c_id c = cap_key (fst tbl) (c_kind c) sel" "c_sel c = sel" "c_type c = kind_type (c_kind c)"
    using wf by (auto simp: cap_wf_def)
  have t: "hashToType (c_id c) = kind_item (c_kind c)" "hashToObjId (c_id c) = sel"
    using cap_key_fields [OF lt] id(1) by simp_all
  have io: "int_ok (mo_core ob) \<and> int_ok (mo_vpe ob) \<and> int_ok (mo_epid ob)" if "k_objs k x = Some ob" for x ob
    using ints that by (auto simp: ints_ok_def)
  show ?thesis
  proof (cases "c_kind c")
    case (MsgCap ep x oid)
    then obtain ob where ob: "k_objs k x = Some ob" "s = c_id c # oid # msgobj_serialize ob"
      using ser t by (auto simp: serializeTyped_def Let_def split: option.splits)
    then show ?thesis using MsgCap t id io [OF ob(1)]
      by (simp add: msgobj_serialize_def from_stream_def new_Capability_def store_new_def arrived_def item_type_defs)
  next
    case (MemCap ep x oid)
    then obtain ob where ob: "k_objs k x = Some ob" "s = c_id c # oid # msgobj_serialize ob"
      using ser t by (auto simp: serializeTyped_def Let_def split: option.splits)
    then show ?thesis using MemCap t id io [OF ob(1)]
      by (simp add: msgobj_serialize_def from_stream_def new_Capability_def store_new_def arrived_def item_type_defs)
  next
    case (SessCap x)
    then obtain so where "k_sess k x = Some so" "s = [c_id c, so_ident so, so_srvID so]"
      using ser t by (auto simp: serializeTyped_def Let_def item_type_defs split: option.splits)
    then show ?thesis using SessCap t id
      by (simp add: from_stream_def new_Capability_def store_new_def arrived_def item_type_defs)
  qed (use ser t id in \<open>auto simp: serializeTyped_def Let_def item_type_defs from_stream_def new_Capability_def
      store_new_def arrived_def\<close>)
qed

lemma transfer:
  assumes inv: "caps_inv k" and ints: "ints_ok k"
  shows "\<forall>c \<in> set cs. \<exists>tbl sel. k_cap k tbl sel = Some c \<Longrightarrow> serialize_caps (map Some cs) k = Inr s \<Longrightarrow>
    \<exists>cs' k''. read_caps junk (length cs) (s @ rest) k' = Inr (cs', rest, k'') \<and> list_all2 (arrived k k'') cs cs'"
proof (induction cs arbitrary: s k')
  case (Cons c cs)
  obtain s1 s2 where s: "serializeTyped (k_objs k) (k_sess k) c = Inr s1" "serialize_caps (map Some cs) k = Inr s2" "s = s1 @ s2"
    using Cons.prems(2) by auto
  obtain tbl sel where c: "k_cap k tbl sel = Some c" using Cons.prems(1) by auto
  let ?k = "\<lambda>ob. store_new (k_next k' + 1) ob (k'\<lparr>k_next := k_next k' + 2\<rparr>)"
  obtain c' ob where c': "createFromStream (k_next k') (k_next k' + 1) junk (k_junk k' \<noteq> 0) (s1 @ s2 @ rest) = Inr (c', ob, s2 @ rest)"
      "arrived k (?k ob) c c'" "\<And>x. kind_obj (c_kind c') = Some x \<or> c_kind c' = SessCap x \<Longrightarrow> x = k_next k' + 1"
    using serialized_read [OF inv ints c s(1)] by metis
  obtain cs' k'' where cs': "read_caps junk (length cs) (s2 @ rest) (?k ob) = Inr (cs', rest, k'')" "list_all2 (arrived k k'') cs cs'"
    using Cons.IH [OF _ s(2)] Cons.prems(1) by fastforce
  have "arrived k k'' c c'"
    by (rule arrived_later [OF c'(2), where n = "k_next k' + 2"]) (use read_caps_frame [OF cs'(1)] c'(3) in auto)
  then show ?case using c'(1) cs' s(3) by (simp add: read_caps_Suc del: read_caps.simps(2))
qed simp


lemma demo_serialized:
  "serialize_caps [Some demo_a] (demo []) = Inr (cap_key 1 demo_kind 1 # 0 # msgobj_serialize (new_MsgObject 0 1 1 0 0 0))"
proof -
  have "hashToType (c_id demo_a) = MSGCAP"
    using cap_key_fields(3) [of 1 demo_kind 1] by (simp add: demo_ids MAX_PES_def demo_kind_def)
  then show ?thesis by (simp add: serializeTyped_def demo_ids) (simp add: demo_defs msgobj_serialize_def)
qed


section \<open>Delegating to a remote service\<close>

lemma gather_delegated: "gather_caps False tbl vpe start dst js k = Inr (cs, k') \<Longrightarrow> cs = replicate (length js) None"
proof (induction js arbitrary: k cs)
  case (Cons j js)
  then have "k_cap k tbl (start + j) = None" by (auto simp: table_reserve_def Let_def split: if_splits)
  then show ?case using Cons by (auto simp: Let_def)
qed simp

lemma range_unused_empty: "crd_count crd = 0 \<Longrightarrow> range_unused k tbl crd"
  by (simp add: range_unused_def range_valid_def sel_loop_def)

text \<open>The successful answers to kernel \<open>s\<close> for its thread \<open>tid\<close> among the events so far.\<close>

definition successes :: "krnl_id_t \<Rightarrow> int \<Rightarrow> kernel \<Rightarrow> event list" where
  "successes s tid k = filter (\<lambda>e. \<exists>r. e = Ev_krnl s (KC_EXCHANGEOSESSREPLY tid NO_ERROR r)) (k_log k)"

lemma successes_srv_received: "srv_received p k = Inr k' \<Longrightarrow> successes s tid k' = successes s tid k"
  by (auto simp: successes_def srv_received_def mod_service_def emit_all_def filter_empty_conv split: option.splits)

lemma successes_service_unref [simp]: "successes s tid (service_unref p k) = successes s tid k"
  by (auto simp: successes_def service_unref_def mod_service_def split: option.splits)

text \<open>The answer that the kernel of the service sends.\<close>

lemma successes_answer:
  assumes "rbind (krnl_call s (KC_EXCHANGEOSESSREPLY tid err r) k) (\<lambda>k. Inr (Returns (), service_unref p k)) = Inr (out, k')"
    and "err \<noteq> NO_ERROR"
  shows "successes s tid k' = successes s tid k"
  using assms by (auto simp: krnl_call_def) (simp add: successes_def emit_def)


text \<open>Kernel 7 delegates one capability to a service that asks for it to be put into its empty selector 9.\<close>

definition demo_service :: service where
  "demo_service = \<lparr>sv_ptr = 4, sv_vpe = 1, sv_sel = 3, sv_name = ''srv'', sv_ep = 0, sv_label = 0, sv_id = 0, sv_closing = False,
     sv_refs = 2, sv_queue = \<lparr>sq_queue = [], sq_capacity = 1, sq_inflight = 1\<rparr>\<rparr>"

definition demo_range :: "capsel_t \<Rightarrow> cap_rng" where
  "demo_range s = \<lparr>crd_type = OBJ, crd_start = s, crd_count = 1\<rparr>"

lemma delegate_example:
  "case exchangeOverSession_cb 4 7 3 False 0 (demo_range 4) NO_ERROR (put_rng (demo_range 9)) ((demo [])\<lparr>k_servs := [demo_service]\<rparr>) of
     Inl _ \<Rightarrow> False
   | Inr (out, k) \<Rightarrow> last (k_log k) = Ev_krnl 7 (KC_EXCHANGEOSESSREPLY 3 INV_ARGS None)"
  by code_simp


end
