(* ===== verification/Spec2Isabelle.thy ===== *)
theory Spec2Isabelle
  imports Kernel_Prelude Base_Math Base_Treap KV_Store Memory_Map Main_Memory
    DDL_Keys MHT_Partition MHT_Instance
    Capability Send_Queue Recv_Bufs Kernel_Link Platform_PEs Kernel_DTU Kernel_State Cap_Table
    Revocation Revocation_Correct Revocation_Protocol
    VPE_Lifecycle PE_Manager Syscalls Kernelcall_Handlers
    Caps_Preserved Syscall_Effects Cap_Transfer
begin

text \<open>
  A verification development for SemperOS, a multikernel for machines in which every processing element (PE) has
  a data transfer unit (DTU) for its communication. Several kernels, each on a PE of its own, share the machine. A kernel
  manages the VPEs (virtual PEs) on its group of PEs, gives them capabilities, and works with the other kernels over messages.
  Capabilities of different kernels form common trees, which makes revocation a distributed algorithm. All
  files named below are under \<^verbatim>\<open>src/src/apps/kernel\<close> unless another directory is given; the modelled
  configuration is gem5.

  \<^bold>\<open>Conventions.\<close> C++ integers are words of their width, and arithmetic wraps around where it does in the code. A handler
  is a function from the state of the kernel to a result. Failed assertions, panics, null pointers, accesses to freed memory
  and exhausted fuel are the values of the type \<open>fault\<close>, error codes are the values of \<open>code\<close>; a handler whose thread waits returns
  \<^const>\<open>Blocked\<close>, and its continuation is a definition with the suffix \<open>_resumed\<close> (woken thread) or \<open>_cb\<close> (reply of a
  service). Objects the code shares by reference live in stores under numbers (\<open>k_objs\<close>, \<open>k_sess\<close>, \<open>k_vpes\<close>, services by \<open>sv_ptr\<close>).
  What leaves the kernel (replies, messages, DTU commands, wake-ups) is appended to the log \<open>k_log\<close> in the order of the code.

  \<^bold>\<open>Theories.\<close>
  \<^item> \<open>Kernel_Prelude\<close>: types, error codes, results, generic lemmas, and the interfaces as locales: a store with keys (\<open>keyed_store\<close>,
    \<open>overwriting_store\<close>) and an allocator of regions (\<open>region_allocator\<close>).
  \<^item> \<open>Base_Math\<close>: \<^verbatim>\<open>base/util/Math.h\<close>, \<^verbatim>\<open>Util.h\<close>, \<^verbatim>\<open>Random.h\<close>. Alignment, overlap, logarithms.
  \<^item> \<open>Base_Treap\<close>: \<^verbatim>\<open>base/col/Treap.h\<close>, in which capability tables keep their entries. It is an instance of
    \<open>keyed_store\<close>: both orders are kept, and insertion and removal are map updates.
  \<^item> \<open>KV_Store\<close>: \<^verbatim>\<open>KVStore.h\<close>, an instance of \<open>overwriting_store\<close>.
  \<^item> \<open>Memory_Map\<close>, \<open>Main_Memory\<close>: \<^verbatim>\<open>mem/MemoryMap.cc\<close>, \<^verbatim>\<open>mem/MainMemory.cc\<close>. The free list is an instance of
    \<open>region_allocator\<close>: regions that are handed out are disjoint, and releasing all of them restores the first state. The exhausted
    module that is taken for a success is shown.
  \<^item> \<open>DDL_Keys\<close>, \<open>MHT_Partition\<close>, \<open>MHT_Instance\<close>: the distributed data layer (\<^verbatim>\<open>ddl\<close>). Keys are
    decoded as they were encoded; items are stored, locked and reserved; requests go to the responsible kernel; partitions
    survive their transfer. The dangling entries of release and unlock are shown.
  \<^item> \<open>Send_Queue\<close>, \<open>Recv_Bufs\<close>: \<^verbatim>\<open>SendQueue.h\<close>, \<^verbatim>\<open>com/RecvBufs.h\<close>. Order and window of messages to services,
    disjointness of the receive buffers of a core.
  \<^item> \<open>Kernel_Link\<close>: \<^verbatim>\<open>pes/KPE.cc\<close>, the flow control between two kernels as a system of two sides that act in any
    order. Requests under way stay within the window; a deadlock and an overrun of the message slots are reachable.
  \<^item> \<open>Platform_PEs\<close>, \<open>Kernel_DTU\<close>: \<^verbatim>\<open>base/PEDesc.h\<close>, \<^verbatim>\<open>arch/gem5/Platform.cc\<close>, \<^verbatim>\<open>arch/gem5/DTU.cc\<close>. Descriptors,
    endpoint registers and page tables with the address translation they cause.
  \<^item> \<open>Capability\<close>, \<open>Kernel_State\<close>, \<open>Cap_Table\<close>: \<^verbatim>\<open>cap/Capability.h\<close>, \<^verbatim>\<open>cap/CapTable.h\<close>, \<^verbatim>\<open>pes/VPE.h\<close>, \<^verbatim>\<open>com/Services.h\<close>. The classes of
    capabilities as a datatype, the state of a kernel as a record, insertion, cloning and inheritance, and the invariant
    \<^const>\<open>caps_inv\<close>: capabilities carry the identifier and the type of their slot, and objects count the capabilities that refer to them.
  \<^item> \<open>Revocation\<close>: \<^verbatim>\<open>cap/Revocations.cc\<close>, \<^verbatim>\<open>cap/CapTable.cc\<close>, and the kernel calls for revocation in \<^verbatim>\<open>KernelcallHandler.cc\<close>.
    \<open>Revocation_Correct\<close> follows the routines through a tree of capabilities; \<open>Revocation_Protocol\<close> states what callers and
    other kernels see: everything derived is removed and nothing else, each remote child is asked once, the answers wake up
    the caller exactly once. It also shows a tree whose revocation never ends.
  \<^item> \<open>VPE_Lifecycle\<close>, \<open>PE_Manager\<close>: \<^verbatim>\<open>pes/VPE.cc\<close>, \<^verbatim>\<open>arch/gem5/VPE.cc\<close>, \<^verbatim>\<open>arch/baremetal/VPE.cc\<close>, \<^verbatim>\<open>pes/PEManager.cc\<close>, \<^verbatim>\<open>Coordinator.cc\<close>, the lists
    of services and the message slots. Construction, loading, start, exit, shutdown.
  \<^item> \<open>Syscalls\<close>: \<^verbatim>\<open>SyscallHandler.cc\<close>, every system call with its continuations, and the dispatcher \<^const>\<open>handle_syscall\<close>.
  \<^item> \<open>Kernelcall_Handlers\<close>: \<^verbatim>\<open>KernelcallHandler.cc\<close>, the calls of other kernels, with the dispatchers \<^const>\<open>handle_krnl_msg\<close>
    and \<open>handle_mht_msg\<close>.
  \<^item> \<open>Caps_Preserved\<close>: every system call except revocation and exit, every reply of a service and every woken thread keeps
    \<^const>\<open>caps_inv\<close>; hence it holds in all states that are reachable from the start of a kernel by such steps.
  \<^item> \<open>Syscall_Effects\<close>: derived memory is confined to its parent, message slots are assigned correctly; an obtain between VPEs goes the
    wrong way, and a range that wraps around revokes protected capabilities.
  \<^item> \<open>Cap_Transfer\<close>: capabilities sent to another kernel are read there as they were written; a delegation to a remote
    service never succeeds.

  \<^bold>\<open>Fuel.\<close> Revocation, the destruction of a VPE and the notification of subscribers call each other, and the code does not
  bound their depth. They take a number as fuel. The theorems on revocation hold for every fuel that is at least
  the next free object number (\<open>k_next\<close>); every capability has a number below it, so the depth of a tree is smaller. All other functions are total; the loop that
  draws a lock handle terminates because the random generator leaves every zero.

  \<^bold>\<open>Not modelled.\<close> The hardware itself and its read and write commands, the work loop and the thread library, the byte format of kernel calls,
  the slab allocator, command lines and the start of further kernels, the architectures other than gem5, logging
  and tests, the user library, and all programs outside the kernel. Their inputs are arguments of the handlers, so that the
  theorems hold for whatever programs and services send. The invariant of capabilities is not claimed across revocation of other capabilities than
  gates and memory and across the exit of VPEs.
\<close>

end
